theory Spec2Isabelle
  imports Complex_Main
begin

section \<open>Numbers and geometry primitives\<close>

text \<open>
  The TypeScript sources compute with \<^verbatim>\<open>number\<close>, a double-precision float. The
  embedding reads a number as a real and every arithmetic operation as the exact one;
  rounding error and signed zeros are outside the model. The theorems below therefore
  state of a computed number only what survives rounding (an order that is not strict, a
  value within a tolerance), and they restrict the inputs to a working range in which the
  source neither overflows nor divides by zero. Where the ring generator meets an
  infinity or NaN (a ring of radius 0, a grid of 0 divisions), the model writes the
  outcome out as a branch of its own. Counts and indices (\<^verbatim>\<open>ringCount\<close>,
  \<^verbatim>\<open>cutCount\<close>, \<^verbatim>\<open>sides\<close>, loop variables) are integers.
  Record fields carry a short prefix, so that the parameter names of the source stay
  free for the functions.
\<close>

record Point2D =
  px :: real
  py :: real

definition degToRad :: "real \<Rightarrow> real" where
  "degToRad degrees = (degrees * pi) / 180"

definition distance :: "Point2D \<Rightarrow> Point2D \<Rightarrow> real" where
  "distance p1 p2 =
     (let dx = px p2 - px p1; dy = py p2 - py p1 in sqrt (dx * dx + dy * dy))"

definition pointOnCircle :: "Point2D \<Rightarrow> real \<Rightarrow> real \<Rightarrow> Point2D" where
  "pointOnCircle center radius angle =
     \<lparr>px = px center + radius * cos angle, py = py center + radius * sin angle\<rparr>"

definition lerp :: "real \<Rightarrow> real \<Rightarrow> real \<Rightarrow> real" where
  "lerp a b t = a + (b - a) * t"

definition PHI :: real where
  "PHI = (1 + sqrt 5) / 2"

text \<open>\<^verbatim>\<open>Math.round\<close> rounds to the nearest integer, a half going up.\<close>

definition Math_round :: "real \<Rightarrow> int" where
  "Math_round v = \<lfloor>v + 1 / 2\<rfloor>"

definition round_js :: "real \<Rightarrow> nat \<Rightarrow> real" where
  "round_js v decimals =
     (let factor = 10 ^ decimals in real_of_int (Math_round (v * factor)) / factor)"

text \<open>
  \<^verbatim>\<open>a || d\<close> on an optional number: the default is taken when the option is absent
  and also when it is 0, which JavaScript reads as false.
\<close>

definition orElse :: "real option \<Rightarrow> real \<Rightarrow> real" where
  "orElse a d = (case a of None \<Rightarrow> d | Some v \<Rightarrow> if v = 0 then d else v)"

text \<open>
  The remainder \<^verbatim>\<open>a % b\<close> of JavaScript on integers takes the sign of the dividend.
\<close>

definition js_rem :: "int \<Rightarrow> int \<Rightarrow> int" where
  "js_rem a b = sgn a * (\<bar>a\<bar> mod \<bar>b\<bar>)"

section \<open>Spacing engine\<close>

datatype SpacingMode = Uniform | Shrinkage | Graduated | GoldenRatio

datatype SquareSpacingMode = SqUniform | SqShrinkage | SqGraduated

datatype PolygonSpacingMode = PgUniform | PgShrinkage | PgGraduated

record SpacingOptions =
  opt_innerRadius :: "real option"
  opt_outerGap :: "real option"
  opt_shrinkage :: "real option"

record SquareSpacingOptions =
  sopt_innerSize :: "real option"
  sopt_outerGap :: "real option"
  sopt_shrinkage :: "real option"

text \<open>
  The body of the shrinkage loop, shared by the three copies of the source
  (\<^verbatim>\<open>for (let i = 1; i < count; i++)\<close>): the first argument counts the iterations
  that remain, then the current extent, the current gap and the multiplier. The
  \<^verbatim>\<open>break\<close> ends the list.
\<close>

fun shrinkageLoop :: "nat \<Rightarrow> real \<Rightarrow> real \<Rightarrow> real \<Rightarrow> real list" where
  "shrinkageLoop 0 current gap multiplier = []"
| "shrinkageLoop (Suc k) current gap multiplier =
     (let current' = current - gap in
      if current' \<le> 0 then []
      else current' # shrinkageLoop k current' (gap * multiplier) multiplier)"

definition calculateShrinkageRadii :: "real \<Rightarrow> int \<Rightarrow> real \<Rightarrow> real \<Rightarrow> real list" where
  "calculateShrinkageRadii outerRadius ringCount outerGap shrinkage =
     (if ringCount \<le> 0 then []
      else if ringCount = 1 then [outerRadius]
      else outerRadius # shrinkageLoop (nat (ringCount - 1)) outerRadius outerGap (1 - shrinkage))"

definition calculateShrinkageSizes :: "real \<Rightarrow> int \<Rightarrow> real \<Rightarrow> real \<Rightarrow> real list" where
  "calculateShrinkageSizes outerSize squareCount outerGap shrinkage =
     (if squareCount \<le> 0 then []
      else if squareCount = 1 then [outerSize]
      else outerSize # shrinkageLoop (nat (squareCount - 1)) outerSize outerGap (1 - shrinkage))"

definition calculateShrinkagePolygonRadii :: "real \<Rightarrow> int \<Rightarrow> real \<Rightarrow> real \<Rightarrow> real list" where
  "calculateShrinkagePolygonRadii outerRadius polygonCount outerGap shrinkage =
     (if polygonCount \<le> 0 then []
      else if polygonCount = 1 then [outerRadius]
      else outerRadius # shrinkageLoop (nat (polygonCount - 1)) outerRadius outerGap (1 - shrinkage))"

definition goldenRatioSum :: "int \<Rightarrow> real" where
  "goldenRatioSum n = (if n \<le> 0 then 0 else (PHI ^ nat n - 1) / (PHI - 1))"

text \<open>
  The golden-ratio loop over \<^verbatim>\<open>i = 1 .. ringCount - 1\<close>, given as the list of the
  indices still to visit.
\<close>

fun goldenRatioLoop :: "real \<Rightarrow> int \<Rightarrow> real \<Rightarrow> nat list \<Rightarrow> real list" where
  "goldenRatioLoop unitSize ringCount currentRadius [] = []"
| "goldenRatioLoop unitSize ringCount currentRadius (i # rest) =
     (let gap = unitSize * PHI ^ nat (ringCount - 1 - int i);
          currentRadius' = currentRadius - gap in
      currentRadius' # goldenRatioLoop unitSize ringCount currentRadius' rest)"

definition calculateRadii :: "real \<Rightarrow> int \<Rightarrow> SpacingMode \<Rightarrow> SpacingOptions \<Rightarrow> real list" where
  "calculateRadii outerRadius ringCount mode options =
     (if ringCount \<le> 0 then []
      else if ringCount = 1 then [outerRadius]
      else (case mode of
        Shrinkage \<Rightarrow>
          calculateShrinkageRadii outerRadius ringCount
            (orElse (opt_outerGap options) 18) (orElse (opt_shrinkage options) 0.05)
      | Uniform \<Rightarrow>
          (let innerRadius = orElse (opt_innerRadius options) (outerRadius * 0.1);
               range = outerRadius - innerRadius in
           map (\<lambda>i. let t = real i / real_of_int (ringCount - 1) in outerRadius - range * t)
             [0..<nat ringCount])
      | Graduated \<Rightarrow>
          (let innerRadius = orElse (opt_innerRadius options) (outerRadius * 0.1);
               range = outerRadius - innerRadius in
           map (\<lambda>i. let t = real i / real_of_int (ringCount - 1); easedT = t * t
                     in outerRadius - range * easedT)
             [0..<nat ringCount])
      | GoldenRatio \<Rightarrow>
          (let innerRadius = orElse (opt_innerRadius options) (outerRadius * 0.1);
               range = outerRadius - innerRadius;
               totalParts = goldenRatioSum (ringCount - 1);
               unitSize = range / totalParts in
           outerRadius # goldenRatioLoop unitSize ringCount outerRadius [1..<nat ringCount])))"

definition calculateSquareSizes ::
  "real \<Rightarrow> int \<Rightarrow> SquareSpacingMode \<Rightarrow> SquareSpacingOptions \<Rightarrow> real list" where
  "calculateSquareSizes outerSize squareCount mode options =
     (if squareCount \<le> 0 then []
      else if squareCount = 1 then [outerSize]
      else (case mode of
        SqShrinkage \<Rightarrow>
          calculateShrinkageSizes outerSize squareCount
            (orElse (sopt_outerGap options) 24) (orElse (sopt_shrinkage options) 0.05)
      | SqUniform \<Rightarrow>
          (let innerSize = orElse (sopt_innerSize options) (outerSize * 0.1);
               range = outerSize - innerSize in
           map (\<lambda>i. let t = real i / real_of_int (squareCount - 1) in outerSize - range * t)
             [0..<nat squareCount])
      | SqGraduated \<Rightarrow>
          (let innerSize = orElse (sopt_innerSize options) (outerSize * 0.1);
               range = outerSize - innerSize in
           map (\<lambda>i. let t = real i / real_of_int (squareCount - 1); easedT = t * t
                     in outerSize - range * easedT)
             [0..<nat squareCount])))"

definition calculatePolygonRadii ::
  "real \<Rightarrow> int \<Rightarrow> PolygonSpacingMode \<Rightarrow> SpacingOptions \<Rightarrow> real list" where
  "calculatePolygonRadii outerRadius polygonCount mode options =
     (if polygonCount \<le> 0 then []
      else if polygonCount = 1 then [outerRadius]
      else (case mode of
        PgShrinkage \<Rightarrow>
          calculateShrinkagePolygonRadii outerRadius polygonCount
            (orElse (opt_outerGap options) 24) (orElse (opt_shrinkage options) 0.05)
      | PgUniform \<Rightarrow>
          (let innerRadius = orElse (opt_innerRadius options) (outerRadius * 0.1);
               range = outerRadius - innerRadius in
           map (\<lambda>i. let t = real i / real_of_int (polygonCount - 1) in outerRadius - range * t)
             [0..<nat polygonCount])
      | PgGraduated \<Rightarrow>
          (let innerRadius = orElse (opt_innerRadius options) (outerRadius * 0.1);
               range = outerRadius - innerRadius in
           map (\<lambda>i. let t = real i / real_of_int (polygonCount - 1); easedT = t * t
                     in outerRadius - range * easedT)
             [0..<nat polygonCount])))"

section \<open>Ring generator: the stagger rotation\<close>

definition calculateStaggeredRotation :: "int \<Rightarrow> real \<Rightarrow> real \<Rightarrow> real" where
  "calculateStaggeredRotation ringIndex gridDivisions staggerOffset =
     (let gridAngle = (2 * pi) / gridDivisions;
          gridPosition = (if js_rem ringIndex 2 = 0 then 0 else staggerOffset)
      in gridPosition * gridAngle)"

section \<open>Number formatting\<close>

definition digitChar :: "nat \<Rightarrow> char" where
  "digitChar d = ''0123456789'' ! d"

fun natToString :: "nat \<Rightarrow> string" where
  "natToString n =
     (if n < 10 then [digitChar n] else natToString (n div 10) @ [digitChar (n mod 10)])"

declare natToString.simps [simp del]

text \<open>
  The text of a number in a template literal (\<^verbatim>\<open>`${v}`\<close>), for the numbers the path
  builder prints: multiples of 1/100, as \<open>round_js v 2\<close> returns them. JavaScript prints
  such a number in decimal notation without trailing zeros, and the zero without a sign.
\<close>

definition numberToString :: "real \<Rightarrow> string" where
  "numberToString v =
     (let k = \<lfloor>v * 100\<rfloor>; a = nat \<bar>k\<bar>; whole = a div 100; frac = a mod 100 in
      (if k < 0 then ''-'' else '''') @ natToString whole @
      (if frac = 0 then ''''
       else if frac mod 10 = 0 then ''.'' @ natToString (frac div 10)
       else ''.'' @ natToString (frac div 10) @ natToString (frac mod 10)))"

text \<open>
  \<^verbatim>\<open>v.toFixed(digits)\<close>: the sign, then the magnitude rounded to \<open>digits\<close> decimals (a half
  going up), its fraction padded with zeros to \<open>digits\<close> places.
\<close>

definition toFixed :: "real \<Rightarrow> nat \<Rightarrow> string" where
  "toFixed v digits =
     (let n = nat \<lfloor>\<bar>v\<bar> * 10 ^ digits + 1 / 2\<rfloor>;
          whole = n div 10 ^ digits;
          frac = natToString (n mod 10 ^ digits) in
      (if v < 0 then ''-'' else '''') @ natToString whole @
      (if digits = 0 then ''''
       else ''.'' @ replicate (digits - length frac) (CHR ''0'') @ frac))"

text \<open>\<^verbatim>\<open>parts.join(sep)\<close> on an array of strings.\<close>

fun join :: "string \<Rightarrow> string list \<Rightarrow> string" where
  "join sep [] = []"
| "join sep [s] = s"
| "join sep (s # t # ts) = s @ sep @ join sep (t # ts)"

section \<open>Path builder\<close>

text \<open>
  The builder's state is its list of commands; every method returns the new state,
  with the builder as its first argument (\<^verbatim>\<open>b.moveTo(p)\<close> is \<open>moveTo b p\<close>).
\<close>

type_synonym PathBuilder = "string list"

definition newPathBuilder :: PathBuilder where
  "newPathBuilder = []"

definition moveTo :: "PathBuilder \<Rightarrow> Point2D \<Rightarrow> PathBuilder" where
  "moveTo b p =
     b @ [''M'' @ numberToString (round_js (px p) 2) @ '','' @ numberToString (round_js (py p) 2)]"

definition lineTo :: "PathBuilder \<Rightarrow> Point2D \<Rightarrow> PathBuilder" where
  "lineTo b p =
     b @ [''L'' @ numberToString (round_js (px p) 2) @ '','' @ numberToString (round_js (py p) 2)]"

definition arcTo :: "PathBuilder \<Rightarrow> real \<Rightarrow> Point2D \<Rightarrow> bool \<Rightarrow> bool \<Rightarrow> PathBuilder" where
  "arcTo b radius endPoint largeArc sweep =
     (let rx = round_js radius 2;
          ry = round_js radius 2;
          xAxisRotation = ''0'';
          largeArcFlag = (if largeArc then ''1'' else ''0'');
          sweepFlag = (if sweep then ''1'' else ''0'');
          x = round_js (px endPoint) 2;
          y = round_js (py endPoint) 2 in
      b @ [''A'' @ numberToString rx @ '','' @ numberToString ry @ '' '' @ xAxisRotation
             @ '' '' @ largeArcFlag @ '','' @ sweepFlag @ '' '' @ numberToString x @ '',''
             @ numberToString y])"

definition closePath :: "PathBuilder \<Rightarrow> PathBuilder" where
  "closePath b = b @ [''Z'']"

definition build :: "PathBuilder \<Rightarrow> string" where
  "build b = join '' '' b"

definition reset :: "PathBuilder \<Rightarrow> PathBuilder" where
  "reset b = []"

definition circleToPath :: "Point2D \<Rightarrow> real \<Rightarrow> string" where
  "circleToPath center radius =
     (let top = \<lparr>px = px center, py = py center - radius\<rparr>;
          bottom = \<lparr>px = px center, py = py center + radius\<rparr> in
      build (closePath (arcTo (arcTo (moveTo newPathBuilder top) radius bottom True True)
                          radius top True True)))"

definition lineToPath :: "Point2D \<Rightarrow> Point2D \<Rightarrow> string" where
  "lineToPath start endPoint = build (lineTo (moveTo newPathBuilder start) endPoint)"

text \<open>
  The square and the polygon generator each carry their own copy of this function, with
  the same body.
\<close>

definition interpolate :: "Point2D \<Rightarrow> Point2D \<Rightarrow> real \<Rightarrow> Point2D" where
  "interpolate p1 p2 t =
     \<lparr>px = px p1 + (px p2 - px p1) * t, py = py p1 + (py p2 - py p1) * t\<rparr>"

section \<open>Ring generator\<close>

definition generateArc :: "Point2D \<Rightarrow> real \<Rightarrow> real \<Rightarrow> real \<Rightarrow> string" where
  "generateArc center radius startAngle endAngle =
     (let start = pointOnCircle center radius startAngle;
          endPoint = pointOnCircle center radius endAngle;
          sweepAngle = endAngle - startAngle;
          largeArc = (sweepAngle > pi) in
      build (arcTo (moveTo newPathBuilder start) radius endPoint largeArc True))"

text \<open>
  What \<^verbatim>\<open>generateArc\<close> returns when its angles are not finite numbers (NaN or an
  infinity): the cosine and the sine of such an angle are NaN, so both end points print as
  NaN, and the test \<^verbatim>\<open>sweepAngle > Math.PI\<close> on the NaN difference of the angles is
  false. The radius is finite and printed as usual.
\<close>

definition nonFiniteArc :: "real \<Rightarrow> string" where
  "nonFiniteArc radius =
     ''MNaN,NaN A'' @ numberToString (round_js radius 2) @ '','' @ numberToString (round_js radius 2)
       @ '' 0 0,1 NaN,NaN''"

text \<open>
  The body of \<^verbatim>\<open>generateRingWithCuts\<close>, with the rotation as an optional number:
  \<open>None\<close> stands for a rotation that is not finite, which \<^verbatim>\<open>generateRingPattern\<close>
  passes when \<^verbatim>\<open>gridDivisions\<close> is 0. The division \<^verbatim>\<open>cutWidth / radius\<close> by a
  radius 0 is written out: for a positive cut width the quotient is +Infinity, the arc
  angle is -Infinity and the circle is drawn; for a cut width that is 0 or negative the
  quotient is NaN or -Infinity, the test \<^verbatim>\<open>arcAngle <= 0\<close> fails and every start angle
  is NaN or -Infinity.
\<close>

definition ringWithCuts :: "Point2D \<Rightarrow> real \<Rightarrow> int \<Rightarrow> real \<Rightarrow> real option \<Rightarrow> string" where
  "ringWithCuts center radius cutCount cutWidth rotation =
     (if cutCount \<le> 0 then circleToPath center radius
      else if radius = 0 then
        (if 0 < cutWidth then circleToPath center radius
         else join '' '' (map (\<lambda>i. nonFiniteArc radius) [0..<nat cutCount]))
      else
        (let cutAngle = cutWidth / radius;
             segmentAngle = (2 * pi) / real_of_int cutCount;
             arcAngle = segmentAngle - cutAngle in
         if arcAngle \<le> 0 then circleToPath center radius
         else join '' ''
           (map (\<lambda>i. case rotation of
                        None \<Rightarrow> nonFiniteArc radius
                      | Some rot \<Rightarrow>
                          (let startAngle = rot + real i * segmentAngle + cutAngle / 2;
                               endAngle = startAngle + arcAngle
                           in generateArc center radius startAngle endAngle))
              [0..<nat cutCount])))"

text \<open>\<^verbatim>\<open>generateRingWithCuts\<close> called with a finite rotation.\<close>

definition generateRingWithCuts :: "Point2D \<Rightarrow> real \<Rightarrow> int \<Rightarrow> real \<Rightarrow> real \<Rightarrow> string" where
  "generateRingWithCuts center radius cutCount cutWidth rotation =
     ringWithCuts center radius cutCount cutWidth (Some rotation)"

definition generateHalfCircleRings :: "Point2D \<Rightarrow> real list \<Rightarrow> real \<Rightarrow> bool \<Rightarrow> string list" where
  "generateHalfCircleRings center radii bridgeWidth topHalf =
     map (\<lambda>radius. let bridgeGap = bridgeWidth / radius in
            if topHalf then
              (let startAngle = - pi / 2 + bridgeGap / 2; endAngle = pi / 2 - bridgeGap / 2
               in generateArc center radius startAngle endAngle)
            else
              (let startAngle = pi / 2 + bridgeGap / 2; endAngle = (3 * pi) / 2 - bridgeGap / 2
               in generateArc center radius startAngle endAngle))
       radii"

definition generateBridgeConnectors ::
  "Point2D \<Rightarrow> real \<Rightarrow> real \<Rightarrow> int \<Rightarrow> real \<Rightarrow> string list" where
  "generateBridgeConnectors center innerRadius outerRadius count startAngle =
     (let angleStep = (2 * pi) / real_of_int count in
      map (\<lambda>i. let angle = startAngle + real i * angleStep;
                    innerPoint = pointOnCircle center innerRadius angle;
                    outerPoint = pointOnCircle center outerRadius angle
                in build (lineTo (moveTo newPathBuilder innerPoint) outerPoint))
        [0..<nat count])"

record RingPatternConfig =
  cfg_outerRadius :: real
  cfg_innerRadius :: real
  cfg_ringCount :: int
  cfg_spacingMode :: SpacingMode
  cfg_outerGap :: real
  cfg_shrinkage :: real
  cfg_cutCount :: int
  cfg_gridDivisions :: real
  cfg_staggerOffset :: real
  cfg_cutWidth :: real
  cfg_showOuterBoundary :: bool
  cfg_center :: "Point2D option"

text \<open>
  \<^verbatim>\<open>Partial<RingPatternConfig>\<close>: every field may be absent.
\<close>

record PartialRingPatternConfig =
  part_outerRadius :: "real option"
  part_innerRadius :: "real option"
  part_ringCount :: "int option"
  part_spacingMode :: "SpacingMode option"
  part_outerGap :: "real option"
  part_shrinkage :: "real option"
  part_cutCount :: "int option"
  part_gridDivisions :: "real option"
  part_staggerOffset :: "real option"
  part_cutWidth :: "real option"
  part_showOuterBoundary :: "bool option"
  part_center :: "Point2D option"

definition DEFAULT_CONFIG :: RingPatternConfig where
  "DEFAULT_CONFIG =
     \<lparr>cfg_outerRadius = 360, cfg_innerRadius = 36, cfg_ringCount = 10,
      cfg_spacingMode = Shrinkage, cfg_outerGap = 18, cfg_shrinkage = 0.05,
      cfg_cutCount = 8, cfg_gridDivisions = 16, cfg_staggerOffset = 1, cfg_cutWidth = 8,
      cfg_showOuterBoundary = True, cfg_center = None\<rparr>"

text \<open>The spread \<^verbatim>\<open>{ ...DEFAULT_CONFIG, ...config }\<close>.\<close>

definition mergeConfig :: "PartialRingPatternConfig \<Rightarrow> RingPatternConfig" where
  "mergeConfig config =
     \<lparr>cfg_outerRadius = case_option (cfg_outerRadius DEFAULT_CONFIG) id (part_outerRadius config),
      cfg_innerRadius = case_option (cfg_innerRadius DEFAULT_CONFIG) id (part_innerRadius config),
      cfg_ringCount = case_option (cfg_ringCount DEFAULT_CONFIG) id (part_ringCount config),
      cfg_spacingMode = case_option (cfg_spacingMode DEFAULT_CONFIG) id (part_spacingMode config),
      cfg_outerGap = case_option (cfg_outerGap DEFAULT_CONFIG) id (part_outerGap config),
      cfg_shrinkage = case_option (cfg_shrinkage DEFAULT_CONFIG) id (part_shrinkage config),
      cfg_cutCount = case_option (cfg_cutCount DEFAULT_CONFIG) id (part_cutCount config),
      cfg_gridDivisions =
        case_option (cfg_gridDivisions DEFAULT_CONFIG) id (part_gridDivisions config),
      cfg_staggerOffset =
        case_option (cfg_staggerOffset DEFAULT_CONFIG) id (part_staggerOffset config),
      cfg_cutWidth = case_option (cfg_cutWidth DEFAULT_CONFIG) id (part_cutWidth config),
      cfg_showOuterBoundary =
        case_option (cfg_showOuterBoundary DEFAULT_CONFIG) id (part_showOuterBoundary config),
      cfg_center = part_center config\<rparr>"

text \<open>
  The rotation of a generated ring is \<open>None\<close> when it is not a finite number: with
  \<^verbatim>\<open>gridDivisions\<close> 0 the grid angle \<^verbatim>\<open>(2 * Math.PI) / gridDivisions\<close> is Infinity,
  and its product with the grid position is NaN (position 0) or an infinity.
\<close>

record GeneratedRing =
  ring_index :: nat
  ring_radius :: real
  ring_rotation :: "real option"
  ring_pathData :: string

record GeneratedPattern =
  pat_rings :: "GeneratedRing list"
  pat_outerBoundary :: "string option"
  pat_center :: Point2D
  pat_radii :: "real list"

definition generateRingPattern :: "PartialRingPatternConfig \<Rightarrow> GeneratedPattern" where
  "generateRingPattern config =
     (let cfg = mergeConfig config;
          center = (case cfg_center cfg of
                      Some c \<Rightarrow> c
                    | None \<Rightarrow> \<lparr>px = cfg_outerRadius cfg, py = cfg_outerRadius cfg\<rparr>);
          radii = calculateRadii (cfg_outerRadius cfg) (cfg_ringCount cfg) (cfg_spacingMode cfg)
                    \<lparr>opt_innerRadius = Some (cfg_innerRadius cfg),
                     opt_outerGap = Some (cfg_outerGap cfg),
                     opt_shrinkage = Some (cfg_shrinkage cfg)\<rparr>;
          rings = map (\<lambda>(radius, index).
                    let rotation =
                          (if cfg_gridDivisions cfg = 0 then None
                           else Some (calculateStaggeredRotation (int index)
                                        (cfg_gridDivisions cfg) (cfg_staggerOffset cfg)));
                        pathData =
                          (if index = 0 \<or> cfg_cutCount cfg \<le> 0 then circleToPath center radius
                           else ringWithCuts center radius (cfg_cutCount cfg)
                                  (cfg_cutWidth cfg) rotation)
                    in \<lparr>ring_index = index, ring_radius = radius, ring_rotation = rotation,
                        ring_pathData = pathData\<rparr>)
                    (zip radii [0..<length radii]);
          outerBoundary = (if cfg_showOuterBoundary cfg
                           then Some (circleToPath center (cfg_outerRadius cfg)) else None)
      in \<lparr>pat_rings = rings, pat_outerBoundary = outerBoundary, pat_center = center,
          pat_radii = radii\<rparr>)"

section \<open>Square generator\<close>

definition getSquareCorners :: "Point2D \<Rightarrow> real \<Rightarrow> real \<Rightarrow> Point2D list" where
  "getSquareCorners center sz rotationDeg =
     (let angle = degToRad rotationDeg;
          c = cos angle;
          s = sin angle;
          offsets = [\<lparr>px = - sz, py = - sz\<rparr>, \<lparr>px = sz, py = - sz\<rparr>,
                     \<lparr>px = sz, py = sz\<rparr>, \<lparr>px = - sz, py = sz\<rparr>]
      in map (\<lambda>offset. \<lparr>px = px center + px offset * c - py offset * s,
                        py = py center + px offset * s + py offset * c\<rparr>) offsets)"

definition generateSquare :: "Point2D \<Rightarrow> real \<Rightarrow> real \<Rightarrow> bool \<Rightarrow> string" where
  "generateSquare center sz rotationDeg clockwise =
     (let corners = getSquareCorners center sz rotationDeg in
      if clockwise then
        build (closePath (lineTo (lineTo (lineTo (moveTo newPathBuilder (corners ! 0))
                 (corners ! 1)) (corners ! 2)) (corners ! 3)))
      else
        build (closePath (lineTo (lineTo (lineTo (moveTo newPathBuilder (corners ! 0))
                 (corners ! 3)) (corners ! 2)) (corners ! 1))))"

text \<open>
  One round of the notch loop (\<^verbatim>\<open>for (let i = 1; i <= notchCount; i++)\<close>): a line
  to just before the notch, then a move to just after it.
\<close>

definition notchStep ::
  "Point2D \<Rightarrow> Point2D \<Rightarrow> int \<Rightarrow> real \<Rightarrow> real \<Rightarrow> real \<Rightarrow> PathBuilder \<Rightarrow> nat \<Rightarrow> PathBuilder" where
  "notchStep start endPoint notchCount notchHalf ux uy builder i =
     (let t = real i / real_of_int (notchCount + 1);
          notchCenter = interpolate start endPoint t;
          beforeNotch = \<lparr>px = px notchCenter - ux * notchHalf,
                         py = py notchCenter - uy * notchHalf\<rparr>;
          builder1 = lineTo builder beforeNotch;
          afterNotch = \<lparr>px = px notchCenter + ux * notchHalf,
                        py = py notchCenter + uy * notchHalf\<rparr>
      in moveTo builder1 afterNotch)"

definition drawSideWithNotches ::
  "PathBuilder \<Rightarrow> Point2D \<Rightarrow> Point2D \<Rightarrow> int \<Rightarrow> real \<Rightarrow> real \<Rightarrow> PathBuilder" where
  "drawSideWithNotches builder start endPoint notchCount notchHalf segmentLength =
     (if notchCount \<le> 0 then builder
      else
        (let dx = px endPoint - px start;
             dy = py endPoint - py start;
             len = sqrt (dx * dx + dy * dy);
             ux = dx / len;
             uy = dy / len
         in foldl (notchStep start endPoint notchCount notchHalf ux uy) builder
              [1..<nat notchCount + 1]))"

text \<open>
  The commands of the builder when \<^verbatim>\<open>generateSquareWithNotches\<close> reaches its
  \<^verbatim>\<open>return builder.build()\<close>.
\<close>

definition squareWithNotchesCommands ::
  "Point2D \<Rightarrow> real \<Rightarrow> real \<Rightarrow> bool \<Rightarrow> int \<Rightarrow> real \<Rightarrow> PathBuilder" where
  "squareWithNotchesCommands center sz rotationDeg clockwise notchesPerSide notchWidth =
     (let corners = getSquareCorners center sz rotationDeg;
          sideLength = sz * 2;
          segmentLength = sideLength / real_of_int (notchesPerSide + 1);
          notchHalf = notchWidth / 2 in
      if clockwise then
        (let startPoint = interpolate (corners ! 0) (corners ! 1) 0.5;
             b1 = moveTo newPathBuilder startPoint;
             b2 = lineTo b1 (corners ! 1);
             b3 = drawSideWithNotches b2 (corners ! 1) (corners ! 2) notchesPerSide notchHalf
                    segmentLength;
             b4 = lineTo b3 (corners ! 2);
             b5 = drawSideWithNotches b4 (corners ! 2) (corners ! 3) notchesPerSide notchHalf
                    segmentLength;
             b6 = lineTo b5 (corners ! 3);
             b7 = drawSideWithNotches b6 (corners ! 3) (corners ! 0) notchesPerSide notchHalf
                    segmentLength;
             b8 = lineTo b7 (corners ! 0);
             endPoint = interpolate (corners ! 0) (corners ! 1) 0.5
         in drawSideWithNotches b8 (corners ! 0) endPoint (notchesPerSide div 2) notchHalf
              segmentLength)
      else
        (let startPoint = interpolate (corners ! 0) (corners ! 3) 0.5;
             b1 = moveTo newPathBuilder startPoint;
             b2 = lineTo b1 (corners ! 3);
             b3 = drawSideWithNotches b2 (corners ! 3) (corners ! 2) notchesPerSide notchHalf
                    segmentLength;
             b4 = lineTo b3 (corners ! 2);
             b5 = drawSideWithNotches b4 (corners ! 2) (corners ! 1) notchesPerSide notchHalf
                    segmentLength;
             b6 = lineTo b5 (corners ! 1);
             b7 = drawSideWithNotches b6 (corners ! 1) (corners ! 0) notchesPerSide notchHalf
                    segmentLength;
             b8 = lineTo b7 (corners ! 0);
             endPoint = interpolate (corners ! 0) (corners ! 3) 0.5
         in drawSideWithNotches b8 (corners ! 0) endPoint (notchesPerSide div 2) notchHalf
              segmentLength))"

definition generateSquareWithNotches ::
  "Point2D \<Rightarrow> real \<Rightarrow> real \<Rightarrow> bool \<Rightarrow> int \<Rightarrow> real \<Rightarrow> string" where
  "generateSquareWithNotches center sz rotationDeg clockwise notchesPerSide notchWidth =
     build (squareWithNotchesCommands center sz rotationDeg clockwise notchesPerSide notchWidth)"

section \<open>Polygon generator\<close>

datatype error = TypeError

definition getPolygonVertices :: "Point2D \<Rightarrow> real \<Rightarrow> int \<Rightarrow> real \<Rightarrow> Point2D list" where
  "getPolygonVertices center radius sides rotationDeg =
     (let angleStep = (2 * pi) / real_of_int sides;
          startAngle = degToRad rotationDeg - pi / 2 in
      map (\<lambda>i. let angle = startAngle + real i * angleStep in pointOnCircle center radius angle)
        [0..<nat sides])"

text \<open>
  With no vertex (\<open>sides \<le> 0\<close>) the source reads \<^verbatim>\<open>vertices[0].x\<close> on
  \<^verbatim>\<open>undefined\<close>, which throws a TypeError.
\<close>

definition generatePolygon :: "Point2D \<Rightarrow> real \<Rightarrow> int \<Rightarrow> real \<Rightarrow> error + string" where
  "generatePolygon center radius sides rotationDeg =
     (let vertices = getPolygonVertices center radius sides rotationDeg in
      case vertices of
        [] \<Rightarrow> Inl TypeError
      | v0 # rest \<Rightarrow> Inr (build (closePath (foldl lineTo (moveTo newPathBuilder v0) rest))))"

text \<open>
  The paths one edge contributes (the body of the loop over the edges). Math.floor of
  the quotient of two integers is the integer division of HOL, which rounds down.
\<close>

definition edgePaths :: "Point2D \<Rightarrow> Point2D \<Rightarrow> int \<Rightarrow> real \<Rightarrow> string list" where
  "edgePaths startVertex endVertex bridgesPerEdge bridgeGap =
     (let edgeLength = distance startVertex endVertex in
      if bridgesPerEdge = 0 then
        [build (lineTo (moveTo newPathBuilder startVertex) endVertex)]
      else
        (let segmentLength = edgeLength / real_of_int (bridgesPerEdge + 1) in
         concat (map (\<lambda>j.
             let tStart = (if j = 0 then 0
                           else (real j * segmentLength + bridgeGap) / edgeLength);
                 tEnd = (if int j = bridgesPerEdge then 1
                         else (real (j + 1) * segmentLength - bridgeGap) / edgeLength)
             in if tStart < tEnd then
                  [build (lineTo (moveTo newPathBuilder (interpolate startVertex endVertex tStart))
                            (interpolate startVertex endVertex tEnd))]
                else [])
           [0..<nat (bridgesPerEdge + 1)])))"

definition generatePolygonWithBridges ::
  "Point2D \<Rightarrow> real \<Rightarrow> int \<Rightarrow> real \<Rightarrow> int \<Rightarrow> real \<Rightarrow> string" where
  "generatePolygonWithBridges center radius sides rotationDeg bridgeCount bridgeWidth =
     (let vertices = getPolygonVertices center radius sides rotationDeg;
          bridgesPerEdge = bridgeCount div sides;
          bridgeGap = bridgeWidth / 2 in
      join '' ''
        (concat (map (\<lambda>i. edgePaths (vertices ! i) (vertices ! ((i + 1) mod nat sides))
                             bridgesPerEdge bridgeGap)
           [0..<nat sides])))"

section \<open>Spiral generator\<close>

datatype SpiralType = Logarithmic | Archimedean | Fermat

definition calculateSpiralRadius :: "real \<Rightarrow> real \<Rightarrow> real \<Rightarrow> SpiralType \<Rightarrow> real \<Rightarrow> real" where
  "calculateSpiralRadius innerRadius outerRadius t spiralType growthFactor =
     (let range = outerRadius - innerRadius in
      case spiralType of
        Logarithmic \<Rightarrow>
          (let expT = (exp (growthFactor * t * 10) - 1) / (exp (growthFactor * 10) - 1)
           in innerRadius + range * expT)
      | Archimedean \<Rightarrow> innerRadius + range * t
      | Fermat \<Rightarrow> innerRadius + range * sqrt t)"

text \<open>
  The points \<^verbatim>\<open>generateSpiralArm\<close> samples: its loop
  \<^verbatim>\<open>for (let i = 0; i <= totalSegments; i++)\<close>.
\<close>

definition spiralPoints ::
  "Point2D \<Rightarrow> real \<Rightarrow> real \<Rightarrow> real \<Rightarrow> real \<Rightarrow> SpiralType \<Rightarrow> real \<Rightarrow> Point2D list" where
  "spiralPoints center innerRadius outerRadius startAngle turns spiralType growthFactor =
     (let segmentsPerTurn = 32;
          totalSegments = \<lceil>turns * segmentsPerTurn\<rceil> in
      map (\<lambda>i. let t = real i / real_of_int totalSegments;
                    angle = startAngle + t * turns * 2 * pi;
                    radius = calculateSpiralRadius innerRadius outerRadius t spiralType growthFactor
                in pointOnCircle center radius angle)
        [0..<nat (totalSegments + 1)])"

text \<open>One round of the loop of \<^verbatim>\<open>pointsToBezierPath\<close>: the cubic command of segment \<open>i\<close>.\<close>

definition bezierSegment :: "Point2D list \<Rightarrow> nat \<Rightarrow> string" where
  "bezierSegment points i =
     (let p0 = points ! nat (max 0 (int i - 1));
          p1 = points ! i;
          p2 = points ! (i + 1);
          p3 = points ! min (length points - 1) (i + 2);
          tension = 0.5;
          cp1 = \<lparr>px = px p1 + (px p2 - px p0) * tension / 3,
                 py = py p1 + (py p2 - py p0) * tension / 3\<rparr>;
          cp2 = \<lparr>px = px p2 - (px p3 - px p1) * tension / 3,
                 py = py p2 - (py p3 - py p1) * tension / 3\<rparr>
      in ''C '' @ toFixed (px cp1) 3 @ '' '' @ toFixed (py cp1) 3 @ '', ''
           @ toFixed (px cp2) 3 @ '' '' @ toFixed (py cp2) 3 @ '', ''
           @ toFixed (px p2) 3 @ '' '' @ toFixed (py p2) 3)"

definition pointsToBezierPath :: "Point2D list \<Rightarrow> string" where
  "pointsToBezierPath points =
     (if length points < 2 then ''''
      else if length points = 2 then
        ''M '' @ toFixed (px (points ! 0)) 3 @ '' '' @ toFixed (py (points ! 0)) 3
          @ '' L '' @ toFixed (px (points ! 1)) 3 @ '' '' @ toFixed (py (points ! 1)) 3
      else
        join '' ''
          ((''M '' @ toFixed (px (points ! 0)) 3 @ '' '' @ toFixed (py (points ! 0)) 3)
             # map (bezierSegment points) [0..<length points - 1]))"

definition generateSpiralArm ::
  "Point2D \<Rightarrow> real \<Rightarrow> real \<Rightarrow> real \<Rightarrow> real \<Rightarrow> SpiralType \<Rightarrow> real \<Rightarrow> string" where
  "generateSpiralArm center innerRadius outerRadius startAngle turns spiralType growthFactor =
     pointsToBezierPath
       (spiralPoints center innerRadius outerRadius startAngle turns spiralType growthFactor)"

section \<open>Notions used to state the spacing properties\<close>

text \<open>
  The extents the shrinkage loop would visit if it never stopped: the loop of
  \<open>shrinkageLoop\<close> without its \<^verbatim>\<open>break\<close>.
\<close>

fun shrinkageCandidates :: "nat \<Rightarrow> real \<Rightarrow> real \<Rightarrow> real \<Rightarrow> real list" where
  "shrinkageCandidates 0 current gap multiplier = []"
| "shrinkageCandidates (Suc k) current gap multiplier =
     (current - gap) # shrinkageCandidates k (current - gap) (gap * multiplier) multiplier"

text \<open>
  The working range of a numeric input: a magnitude of at most 10000 (the application
  works with extents of some hundred pixels). The source computes with double-precision
  numbers and the model with exact ones. With the inputs in the working range no
  operation of the source overflows, and what the source computes differs from the exact
  value by rounding errors that stay far below the tolerances used in the statements.
\<close>

definition inRange :: "real \<Rightarrow> bool" where
  "inRange v \<longleftrightarrow> \<bar>v\<bar> \<le> 10000"

text \<open>
  A sequence of extents that is not empty, starts at the outer extent and decreases
  strictly from each element to the next.
\<close>

definition decreasingFromOuter :: "real \<Rightarrow> real list \<Rightarrow> bool" where
  "decreasingFromOuter outer rs \<longleftrightarrow> rs \<noteq> [] \<and> hd rs = outer \<and> sorted_wrt (>) rs"

text \<open>
  A sequence of extents that is not empty, starts at the outer extent and never
  increases from an element to the next.
\<close>

definition nonIncreasingFromOuter :: "real \<Rightarrow> real list \<Rightarrow> bool" where
  "nonIncreasingFromOuter outer rs \<longleftrightarrow> rs \<noteq> [] \<and> hd rs = outer \<and> sorted_wrt (\<ge>) rs"

text \<open>
  The parameters under which a spacing mode moves inward: in shrinkage mode the gap in
  force is not negative and the shrinkage in force is at most 1 (the multiplier is not
  negative); in the other modes the inner extent in force is not above the outer one.
  ``In force'' is the value after the \<^verbatim>\<open>||\<close> default of the source.
\<close>

definition ringSpacingWellPosed :: "real \<Rightarrow> SpacingMode \<Rightarrow> SpacingOptions \<Rightarrow> bool" where
  "ringSpacingWellPosed outer mode options =
     (case mode of
        Shrinkage \<Rightarrow>
          0 \<le> orElse (opt_outerGap options) 18 \<and> orElse (opt_shrinkage options) 0.05 \<le> 1
      | Uniform \<Rightarrow> orElse (opt_innerRadius options) (outer * 0.1) \<le> outer
      | Graduated \<Rightarrow> orElse (opt_innerRadius options) (outer * 0.1) \<le> outer
      | GoldenRatio \<Rightarrow> orElse (opt_innerRadius options) (outer * 0.1) \<le> outer)"

definition squareSpacingWellPosed ::
  "real \<Rightarrow> SquareSpacingMode \<Rightarrow> SquareSpacingOptions \<Rightarrow> bool" where
  "squareSpacingWellPosed outer mode options =
     (case mode of
        SqShrinkage \<Rightarrow>
          0 \<le> orElse (sopt_outerGap options) 24 \<and> orElse (sopt_shrinkage options) 0.05 \<le> 1
      | SqUniform \<Rightarrow> orElse (sopt_innerSize options) (outer * 0.1) \<le> outer
      | SqGraduated \<Rightarrow> orElse (sopt_innerSize options) (outer * 0.1) \<le> outer)"

definition polygonSpacingWellPosed ::
  "real \<Rightarrow> PolygonSpacingMode \<Rightarrow> SpacingOptions \<Rightarrow> bool" where
  "polygonSpacingWellPosed outer mode options =
     (case mode of
        PgShrinkage \<Rightarrow>
          0 \<le> orElse (opt_outerGap options) 24 \<and> orElse (opt_shrinkage options) 0.05 \<le> 1
      | PgUniform \<Rightarrow> orElse (opt_innerRadius options) (outer * 0.1) \<le> outer
      | PgGraduated \<Rightarrow> orElse (opt_innerRadius options) (outer * 0.1) \<le> outer)"

text \<open>
  The calls whose arithmetic stays finite in double precision. The shrinkage loop only
  subtracts and multiplies by a constant, and stops at the first extent that is not
  positive: every call is in range. The other modes compute outer - inner, which is in
  range when both extents are; the goldenRatio mode raises PHI to the power count - 1,
  which is a finite double up to the count 1475: the bound on the count is 1000.
\<close>

definition ringSpacingInRange ::
  "real \<Rightarrow> int \<Rightarrow> SpacingMode \<Rightarrow> SpacingOptions \<Rightarrow> bool" where
  "ringSpacingInRange outer ringCount mode options =
     (case mode of
        Shrinkage \<Rightarrow> True
      | Uniform \<Rightarrow> inRange outer \<and> inRange (orElse (opt_innerRadius options) (outer * 0.1))
      | Graduated \<Rightarrow> inRange outer \<and> inRange (orElse (opt_innerRadius options) (outer * 0.1))
      | GoldenRatio \<Rightarrow>
          inRange outer \<and> inRange (orElse (opt_innerRadius options) (outer * 0.1))
            \<and> ringCount \<le> 1000)"

definition squareSpacingInRange ::
  "real \<Rightarrow> SquareSpacingMode \<Rightarrow> SquareSpacingOptions \<Rightarrow> bool" where
  "squareSpacingInRange outer mode options =
     (case mode of
        SqShrinkage \<Rightarrow> True
      | SqUniform \<Rightarrow> inRange outer \<and> inRange (orElse (sopt_innerSize options) (outer * 0.1))
      | SqGraduated \<Rightarrow> inRange outer \<and> inRange (orElse (sopt_innerSize options) (outer * 0.1)))"

definition polygonSpacingInRange ::
  "real \<Rightarrow> PolygonSpacingMode \<Rightarrow> SpacingOptions \<Rightarrow> bool" where
  "polygonSpacingInRange outer mode options =
     (case mode of
        PgShrinkage \<Rightarrow> True
      | PgUniform \<Rightarrow> inRange outer \<and> inRange (orElse (opt_innerRadius options) (outer * 0.1))
      | PgGraduated \<Rightarrow> inRange outer \<and> inRange (orElse (opt_innerRadius options) (outer * 0.1)))"

text \<open>The gap applied at step \<open>i\<close>: the extent before the step minus the extent after it.\<close>

definition gapAt :: "real list \<Rightarrow> nat \<Rightarrow> real" where
  "gapAt rs i = rs ! (i - 1) - rs ! i"

text \<open>
  The tolerance within which the radii of the goldenRatio mode are compared with the
  values of the specification: one millionth of a pixel. In exact arithmetic the two
  agree; in double precision, with the inputs in the working range and at most 1000
  rings, they differ by less than a billionth.
\<close>

definition spacingTolerance :: real where
  "spacingTolerance = 1 / 1000000"

section \<open>Notions used to state the path properties\<close>

text \<open>
  The number of sub-paths of a path string: the number of its \<^verbatim>\<open>M\<close> commands, counted as
  the repository's tests count them (\<^verbatim>\<open>path.match(/M/g)\<close>).
\<close>

definition subPathCount :: "string \<Rightarrow> nat" where
  "subPathCount s = count_list s (CHR ''M'')"

text \<open>The characters a printed number is made of.\<close>

definition numChars :: "char set" where
  "numChars = set ''0123456789-.''"

text \<open>
  The configuration of the repository's test of the segmented paths: two rings, four
  cuts, every other field at its default.
\<close>

definition twoRingsFourCuts :: PartialRingPatternConfig where
  "twoRingsFourCuts =
     \<lparr>part_outerRadius = None, part_innerRadius = None, part_ringCount = Some 2,
      part_spacingMode = None, part_outerGap = None, part_shrinkage = None,
      part_cutCount = Some 4, part_gridDivisions = None, part_staggerOffset = None,
      part_cutWidth = None, part_showOuterBoundary = None, part_center = None\<rparr>"

text \<open>The same configuration with \<^verbatim>\<open>gridDivisions\<close> 0.\<close>

definition twoRingsNoGrid :: PartialRingPatternConfig where
  "twoRingsNoGrid =
     \<lparr>part_outerRadius = None, part_innerRadius = None, part_ringCount = Some 2,
      part_spacingMode = None, part_outerGap = None, part_shrinkage = None,
      part_cutCount = Some 4, part_gridDivisions = Some 0, part_staggerOffset = None,
      part_cutWidth = None, part_showOuterBoundary = None, part_center = None\<rparr>"

text \<open>The configuration of two rings and four cuts with cuts of width 1000.\<close>

definition twoRingsWideCuts :: PartialRingPatternConfig where
  "twoRingsWideCuts =
     \<lparr>part_outerRadius = None, part_innerRadius = None, part_ringCount = Some 2,
      part_spacingMode = None, part_outerGap = None, part_shrinkage = None,
      part_cutCount = Some 4, part_gridDivisions = None, part_staggerOffset = None,
      part_cutWidth = Some 1000, part_showOuterBoundary = None, part_center = None\<rparr>"

subsection \<open>The commands of the path builder\<close>

text \<open>
  The commands the path builder writes, as data: a move and a line with their end point,
  an arc with its radius, its two flags and its end point, and the closing command; and
  the text the builder writes for each, a coordinate being printed as the builder prints
  it, from its value rounded by \<open>round_js\<close>.
\<close>

datatype PathToken =
    MoveTok real real
  | LineTok real real
  | ArcTok real bool bool real real
  | CloseTok

definition coordText :: "real \<Rightarrow> string" where
  "coordText v = numberToString (round_js v 2)"

definition flagText :: "bool \<Rightarrow> string" where
  "flagText f = (if f then ''1'' else ''0'')"

fun renderToken :: "PathToken \<Rightarrow> string" where
  "renderToken (MoveTok x y) = ''M'' @ coordText x @ '','' @ coordText y"
| "renderToken (LineTok x y) = ''L'' @ coordText x @ '','' @ coordText y"
| "renderToken (ArcTok r largeArc sweep x y) =
     ''A'' @ coordText r @ '','' @ coordText r @ '' 0 '' @ flagText largeArc @ '',''
       @ flagText sweep @ '' '' @ coordText x @ '','' @ coordText y"
| "renderToken CloseTok = ''Z''"

text \<open>
  A builder whose commands are all written by the four methods.
\<close>

definition builderTokens :: "PathBuilder \<Rightarrow> bool" where
  "builderTokens b \<longleftrightarrow> (\<exists>toks. b = map renderToken toks)"

text \<open>
  A path string that joins a non-empty list of builder commands.
\<close>

definition tokenPath :: "string \<Rightarrow> bool" where
  "tokenPath p \<longleftrightarrow> (\<exists>toks. toks \<noteq> [] \<and> p = join '' '' (map renderToken toks))"

subsection \<open>The path mini-language of the specification\<close>

text \<open>
  Decimal numerals, read from their characters. These definitions follow the
  specification's words and do not use the printer of the source: a natural numeral is a
  non-empty string of digits and denotes the number with these digits; a numeral with at
  most two decimals is a natural numeral, optionally followed by a point and one or two
  digits, optionally preceded by a minus sign.
\<close>

definition isDigit :: "char \<Rightarrow> bool" where
  "isDigit c \<longleftrightarrow> c \<in> set ''0123456789''"

definition digitValue :: "char \<Rightarrow> nat" where
  "digitValue c = of_char c - 48"

definition natValue :: "string \<Rightarrow> nat" where
  "natValue ds = foldl (\<lambda>n c. 10 * n + digitValue c) 0 ds"

definition isNatural :: "string \<Rightarrow> bool" where
  "isNatural ds \<longleftrightarrow> ds \<noteq> [] \<and> list_all isDigit ds"

definition wholePart :: "string \<Rightarrow> string" where
  "wholePart s = takeWhile (\<lambda>c. c \<noteq> CHR ''.'') s"

definition fracPart :: "string \<Rightarrow> string" where
  "fracPart s = drop 1 (dropWhile (\<lambda>c. c \<noteq> CHR ''.'') s)"

definition isUnsigned2 :: "string \<Rightarrow> bool" where
  "isUnsigned2 s \<longleftrightarrow>
     isNatural (wholePart s)
     \<and> (if CHR ''.'' \<in> set s then isNatural (fracPart s) \<and> length (fracPart s) \<le> 2 else True)"

definition unsignedValue :: "string \<Rightarrow> real" where
  "unsignedValue s =
     real (natValue (wholePart s)) + real (natValue (fracPart s)) / 10 ^ length (fracPart s)"

definition isDecimal2 :: "string \<Rightarrow> bool" where
  "isDecimal2 s \<longleftrightarrow>
     (case s of [] \<Rightarrow> False | c # u \<Rightarrow> if c = CHR ''-'' then isUnsigned2 u else isUnsigned2 s)"

definition decimalValue :: "string \<Rightarrow> real" where
  "decimalValue s =
     (case s of [] \<Rightarrow> 0 | c # u \<Rightarrow> if c = CHR ''-'' then - unsignedValue u else unsignedValue s)"

text \<open>
  A numeral that gives a coordinate rounded to 2 decimal places: it has at most two
  decimals and its value is within 0.006 of the coordinate. The bound is half a unit of
  the second decimal, 0.005, plus a margin of 0.001 for the rounding errors of the
  double-precision arithmetic by which the source computes the coordinate and its
  rounding; the model computes both exactly.
\<close>

definition coordinateTolerance :: real where
  "coordinateTolerance = 6 / 1000"

definition rounds2 :: "real \<Rightarrow> string \<Rightarrow> bool" where
  "rounds2 v a \<longleftrightarrow> isDecimal2 a \<and> \<bar>decimalValue a - v\<bar> \<le> coordinateTolerance"

text \<open>
  The tokens of the specification (section 6): M x,y (move), L x,y (line) and
  A rx,ry xrot largeArcFlag,sweepFlag x,y (arc, with rx = ry = radius and xrot = 0),
  every number rounded to 2 decimal places, and Z (close). A path of the language is a
  list of tokens joined by single spaces.
\<close>

definition moveToken :: "real \<Rightarrow> real \<Rightarrow> string \<Rightarrow> bool" where
  "moveToken x y t \<longleftrightarrow> (\<exists>a b. t = ''M'' @ a @ '','' @ b \<and> rounds2 x a \<and> rounds2 y b)"

definition lineToken :: "real \<Rightarrow> real \<Rightarrow> string \<Rightarrow> bool" where
  "lineToken x y t \<longleftrightarrow> (\<exists>a b. t = ''L'' @ a @ '','' @ b \<and> rounds2 x a \<and> rounds2 y b)"

definition arcToken :: "real \<Rightarrow> bool \<Rightarrow> bool \<Rightarrow> real \<Rightarrow> real \<Rightarrow> string \<Rightarrow> bool" where
  "arcToken r largeArc sweep x y t \<longleftrightarrow>
     (\<exists>a b c d. t = ''A'' @ a @ '','' @ b @ '' 0 '' @ (if largeArc then ''1'' else ''0'') @ '',''
                      @ (if sweep then ''1'' else ''0'') @ '' '' @ c @ '','' @ d
        \<and> rounds2 r a \<and> rounds2 r b \<and> rounds2 x c \<and> rounds2 y d)"

definition isPathToken :: "string \<Rightarrow> bool" where
  "isPathToken t \<longleftrightarrow>
     (\<exists>x y. moveToken x y t) \<or> (\<exists>x y. lineToken x y t)
     \<or> (\<exists>r largeArc sweep x y. arcToken r largeArc sweep x y t) \<or> t = ''Z''"

definition inPathLanguage :: "string \<Rightarrow> bool" where
  "inPathLanguage s \<longleftrightarrow> (\<exists>ts. s = join '' '' ts \<and> list_all isPathToken ts)"

subsection \<open>Circles and arcs as paths\<close>

text \<open>
  The path of the full circle about \<open>center\<close>: a move to the top of the circle, an arc
  to its bottom, an arc back to its top (both with the radius of the circle, the
  large-arc flag and the sweep flag set) and the closing command.
\<close>

definition isCirclePath :: "Point2D \<Rightarrow> real \<Rightarrow> string \<Rightarrow> bool" where
  "isCirclePath center radius s \<longleftrightarrow>
     (\<exists>m a1 a2. s = join '' '' [m, a1, a2, ''Z'']
        \<and> moveToken (px center) (py center - radius) m
        \<and> arcToken radius True True (px center) (py center + radius) a1
        \<and> arcToken radius True True (px center) (py center - radius) a2)"

text \<open>
  The margin within which an angle is compared with a threshold: where an angle of
  the exact model is closer than this to the threshold, the rounding errors of the source
  can put it on either side.
\<close>

definition angleMargin :: real where
  "angleMargin = 1 / 1000000"

text \<open>
  The path of one arc of the circle about \<open>center\<close>, from the point at \<open>startAngle\<close>
  over \<open>sweepAngle\<close> in the direction of the sweep flag: a move to the start point and an
  arc with the radius of the circle to the end point. The large-arc flag is set when the
  sweep is above a half turn and clear when it is below.
\<close>

definition isArcOfRing :: "Point2D \<Rightarrow> real \<Rightarrow> real \<Rightarrow> real \<Rightarrow> string \<Rightarrow> bool" where
  "isArcOfRing center radius startAngle sweepAngle s \<longleftrightarrow>
     (\<exists>m a largeArc. s = join '' '' [m, a]
        \<and> moveToken (px center + radius * cos startAngle) (py center + radius * sin startAngle) m
        \<and> arcToken radius largeArc True
             (px center + radius * cos (startAngle + sweepAngle))
             (py center + radius * sin (startAngle + sweepAngle)) a
        \<and> (sweepAngle + angleMargin \<le> pi \<longrightarrow> \<not> largeArc)
        \<and> (pi + angleMargin \<le> sweepAngle \<longrightarrow> largeArc))"

text \<open>
  A ring segmented into \<open>n\<close> arcs of its circle: arc \<open>k\<close> starts at the angle
  \<open>rotation + k * segmentAngle + cutAngle / 2\<close> and sweeps over
  \<open>segmentAngle - cutAngle\<close>; the arcs are joined by single spaces.
\<close>

definition isSegmentedRing ::
  "Point2D \<Rightarrow> real \<Rightarrow> nat \<Rightarrow> real \<Rightarrow> real \<Rightarrow> real \<Rightarrow> string \<Rightarrow> bool" where
  "isSegmentedRing center radius n rotation segmentAngle cutAngle s \<longleftrightarrow>
     (\<exists>arcs. s = join '' '' arcs \<and> length arcs = n
        \<and> (\<forall>k<n. isArcOfRing center radius (rotation + real k * segmentAngle + cutAngle / 2)
                    (segmentAngle - cutAngle) (arcs ! k)))"

subsection \<open>Inputs in the working range\<close>

text \<open>
  A circle whose centre and radius are in the working range.
\<close>

definition circleInRange :: "Point2D \<Rightarrow> real \<Rightarrow> bool" where
  "circleInRange center radius \<longleftrightarrow> inRange (px center) \<and> inRange (py center) \<and> inRange radius"

text \<open>
  A divisor of the source that is away from zero: its magnitude is at least one
  ten-thousandth. A quotient of an input in the working range by such a divisor is a
  finite double.
\<close>

definition awayFromZero :: "real \<Rightarrow> bool" where
  "awayFromZero v \<longleftrightarrow> 1 / 10000 \<le> \<bar>v\<bar>"

text \<open>
  The cuts of a ring in the working range: the cut width is not negative, and the radius
  is positive and away from zero, or it is 0 and the cut width is positive (the quotient
  \<^verbatim>\<open>cutWidth / radius\<close> of the source is then +Infinity, not NaN).
\<close>

definition cutsInRange :: "real \<Rightarrow> real \<Rightarrow> bool" where
  "cutsInRange radius cutWidth \<longleftrightarrow>
     0 \<le> cutWidth \<and> inRange cutWidth \<and> inRange radius
     \<and> (radius = 0 \<and> 0 < cutWidth \<or> 1 / 10000 \<le> radius)"

text \<open>
  A grid in the working range: at least one division in magnitude, so that the grid
  angle \<^verbatim>\<open>(2 * Math.PI) / gridDivisions\<close> is finite and at most a full turn, and a stagger
  offset in the working range.
\<close>

definition gridInRange :: "real \<Rightarrow> real \<Rightarrow> bool" where
  "gridInRange gridDivisions staggerOffset \<longleftrightarrow> 1 \<le> \<bar>gridDivisions\<bar> \<and> inRange staggerOffset"

text \<open>A point whose coordinates are in the working range.\<close>

definition pointInRange :: "Point2D \<Rightarrow> bool" where
  "pointInRange p \<longleftrightarrow> inRange (px p) \<and> inRange (py p)"

text \<open>
  A ring pattern in the working range: the grid, the outer boundary, and the circle and
  the cuts of every ring.
\<close>

definition ringPatternInRange :: "PartialRingPatternConfig \<Rightarrow> bool" where
  "ringPatternInRange config \<longleftrightarrow>
     (let cfg = mergeConfig config; pat = generateRingPattern config in
      circleInRange (pat_center pat) (cfg_outerRadius cfg)
      \<and> gridInRange (cfg_gridDivisions cfg) (cfg_staggerOffset cfg)
      \<and> list_all (\<lambda>radius. circleInRange (pat_center pat) radius
                              \<and> cutsInRange radius (cfg_cutWidth cfg))
           (pat_radii pat))"

text \<open>
  Half-circle rings in the working range: the source divides the bridge width by every
  radius.
\<close>

definition halfRingsInRange :: "Point2D \<Rightarrow> real list \<Rightarrow> real \<Rightarrow> bool" where
  "halfRingsInRange center radii bridgeWidth \<longleftrightarrow>
     inRange bridgeWidth
     \<and> list_all (\<lambda>radius. circleInRange center radius \<and> awayFromZero radius) radii"

text \<open>
  A notched square in the working range: the source divides by the length of a side,
  which is twice the half-width \<open>sz\<close>.
\<close>

definition notchedSquareInRange :: "Point2D \<Rightarrow> real \<Rightarrow> real \<Rightarrow> bool" where
  "notchedSquareInRange center sz notchWidth \<longleftrightarrow>
     circleInRange center sz \<and> awayFromZero sz \<and> inRange notchWidth"

text \<open>
  A polygon with bridges in the working range: the source divides by the length of an
  edge, which is not 0 for a radius away from zero and 2 to 1000 sides.
\<close>

definition bridgedPolygonInRange :: "Point2D \<Rightarrow> real \<Rightarrow> int \<Rightarrow> real \<Rightarrow> bool" where
  "bridgedPolygonInRange center radius sides bridgeWidth \<longleftrightarrow>
     circleInRange center radius \<and> awayFromZero radius \<and> 2 \<le> sides \<and> sides \<le> 1000
     \<and> inRange bridgeWidth"

subsection \<open>Notions used in the proofs\<close>

text \<open>
  The unsigned part of the text \<open>numberToString\<close> writes, for the number of hundredths
  \<open>a\<close>.
\<close>

definition unsignedText :: "nat \<Rightarrow> string" where
  "unsignedText a =
     natToString (a div 100) @
      (if a mod 100 = 0 then ''''
       else if (a mod 100) mod 10 = 0 then ''.'' @ natToString ((a mod 100) div 10)
       else ''.'' @ natToString ((a mod 100) div 10) @ natToString ((a mod 100) mod 10))"

text \<open>The characters of the path language.\<close>

definition pathChars :: "char set" where
  "pathChars = numChars \<union> set ''MLAZ ,01''"

section \<open>Properties\<close>

subsection \<open>Stagger rotation\<close>

lemma js_rem_2_zero_iff: "js_rem a 2 = 0 \<longleftrightarrow> even a"
  by (auto simp: js_rem_def sgn_if even_iff_mod_2_eq_zero abs_if split: if_splits)

text \<open>
  Claim C9. calculateStaggeredRotation returns exactly 0 for every even ring index and
  staggerOffset * (2 * pi / gridDivisions) for every odd ring index, whenever
  gridDivisions is positive, for every staggerOffset.
\<close>

theorem calculateStaggeredRotation_even_odd:
  assumes "0 < gridDivisions"
  shows "(even ringIndex \<longrightarrow> calculateStaggeredRotation ringIndex gridDivisions staggerOffset = 0)
       \<and> (odd ringIndex \<longrightarrow>
            calculateStaggeredRotation ringIndex gridDivisions staggerOffset
              = staggerOffset * (2 * pi / gridDivisions))"
  by (simp add: calculateStaggeredRotation_def js_rem_2_zero_iff)

theorem calculateStaggeredRotation_even_odd_witness:
  "(0::real) < 16 \<and> even (4::int) \<and> odd (3::int)
     \<and> calculateStaggeredRotation 4 16 1 = 0
     \<and> calculateStaggeredRotation 3 16 1 = 1 * (2 * pi / 16)"
proof -
  have h: "(0::real) < 16" by simp
  show ?thesis
    using calculateStaggeredRotation_even_odd [OF h, of 4 1]
          calculateStaggeredRotation_even_odd [OF h, of 3 1]
    by simp
qed

subsection \<open>Spacing engine\<close>

lemma PHI_gt1: "1 < PHI"
proof -
  have "sqrt 1 < sqrt 5" by (simp only: real_sqrt_less_iff)
  then show ?thesis by (simp add: PHI_def)
qed

lemma PHI_pos: "0 < PHI"
  using PHI_gt1 by simp

lemma antimono_map_upt:
  assumes "\<And>i j. i < j \<Longrightarrow> j < n \<Longrightarrow> f j \<le> (f i :: real)"
  shows "sorted_wrt (\<ge>) (map f [0..<n])"
  unfolding sorted_wrt_map
  by (rule sorted_wrt_mono_rel [where P = "(<)"]) (use assms in auto)

lemma shrinkageLoop_takeWhile:
  "shrinkageLoop k current gap m = takeWhile (\<lambda>r. 0 < r) (shrinkageCandidates k current gap m)"
  by (induction k arbitrary: current gap) (auto simp: Let_def)

lemma shrinkageLoop_length: "length (shrinkageLoop k current gap m) \<le> k"
  by (induction k arbitrary: current gap) (auto simp: Let_def)

lemma shrinkageLoop_positive: "r \<in> set (shrinkageLoop k current gap m) \<Longrightarrow> 0 < r"
  by (induction k arbitrary: current gap) (auto simp: Let_def split: if_splits)

lemma shrinkageLoop_below:
  "0 \<le> gap \<Longrightarrow> 0 \<le> m \<Longrightarrow> r \<in> set (shrinkageLoop k current gap m) \<Longrightarrow> r \<le> current"
proof (induction k arbitrary: current gap)
  case 0
  then show ?case by simp
next
  case (Suc k)
  show ?case
  proof (cases "current - gap \<le> 0")
    case True
    with Suc.prems show ?thesis by simp
  next
    case False
    with Suc.prems have "r = current - gap \<or> r \<in> set (shrinkageLoop k (current - gap) (gap * m) m)"
      by (simp add: Let_def)
    then show ?thesis
    proof
      assume "r = current - gap"
      with Suc.prems show ?thesis by simp
    next
      assume "r \<in> set (shrinkageLoop k (current - gap) (gap * m) m)"
      then have "r \<le> current - gap"
        using Suc.IH [of "gap * m" "current - gap"] Suc.prems by simp
      with Suc.prems show ?thesis by simp
    qed
  qed
qed

lemma shrinkageLoop_sorted:
  "0 \<le> gap \<Longrightarrow> 0 \<le> m \<Longrightarrow> sorted_wrt (\<ge>) (current # shrinkageLoop k current gap m)"
proof (induction k arbitrary: current gap)
  case 0
  then show ?case by simp
next
  case (Suc k)
  have below: "\<forall>r\<in>set (shrinkageLoop (Suc k) current gap m). r \<le> current"
    using shrinkageLoop_below [OF Suc.prems] by blast
  have "sorted_wrt (\<ge>) (shrinkageLoop (Suc k) current gap m)"
    using Suc.IH [of "gap * m" "current - gap"] Suc.prems by (simp add: Let_def)
  with below show ?case by (simp del: shrinkageLoop.simps)
qed

lemma goldenRatioLoop_length: "length (goldenRatioLoop u n c is) = length is"
  by (induction "is" arbitrary: c) (auto simp: Let_def)

lemma goldenRatioLoop_gap:
  "j < length is \<Longrightarrow>
     (c # goldenRatioLoop u n c is) ! j - (c # goldenRatioLoop u n c is) ! Suc j
       = u * PHI ^ nat (n - 1 - int (is ! j))"
proof (induction "is" arbitrary: c j)
  case Nil
  then show ?case by simp
next
  case (Cons i rest)
  show ?case
  proof (cases j)
    case 0
    then show ?thesis by (simp add: Let_def)
  next
    case (Suc j')
    with Cons.prems have "j' < length rest" by simp
    from Cons.IH [OF this, of "c - u * PHI ^ nat (n - 1 - int i)"] Suc
    show ?thesis by (simp add: Let_def)
  qed
qed

lemma goldenRatioSum_series:
  "0 < n \<Longrightarrow> goldenRatioSum n = (\<Sum>k<nat n. PHI ^ k)"
  using PHI_gt1 by (simp add: goldenRatioSum_def geometric_sum)

lemma goldenRatioSum_pos: "0 < n \<Longrightarrow> 0 < goldenRatioSum n"
proof -
  assume n: "0 < n"
  then have "1 < PHI ^ nat n" using PHI_gt1 by (simp add: one_less_power)
  with PHI_gt1 n show ?thesis by (simp add: goldenRatioSum_def)
qed

lemma uniform_sorted:
  assumes "0 \<le> rng" "0 < d"
  shows "sorted_wrt (\<ge>) (map (\<lambda>i. let t = real i / d in outer - rng * t) [0..<n])"
proof (rule antimono_map_upt)
  fix i j :: nat
  assume "i < j"
  then have "real i / d \<le> real j / d" using assms by (simp add: divide_right_mono)
  then have "rng * (real i / d) \<le> rng * (real j / d)" using assms(1)
    by (rule mult_left_mono)
  then show "(let t = real j / d in outer - rng * t) \<le> (let t = real i / d in outer - rng * t)"
    by (simp add: Let_def)
qed

lemma graduated_sorted:
  assumes "0 \<le> rng" "0 < d"
  shows "sorted_wrt (\<ge>)
           (map (\<lambda>i. let t = real i / d; easedT = t * t in outer - rng * easedT) [0..<n])"
proof (rule antimono_map_upt)
  fix i j :: nat
  assume "i < j"
  then have lt: "real i / d \<le> real j / d" using assms by (simp add: divide_right_mono)
  have nn: "0 \<le> real i / d" using assms by simp
  have "(real i / d) * (real i / d) \<le> (real j / d) * (real j / d)"
    using lt nn by (intro mult_mono) auto
  then have "rng * ((real i / d) * (real i / d)) \<le> rng * ((real j / d) * (real j / d))"
    using assms(1) by (rule mult_left_mono)
  then show "(let t = real j / d; easedT = t * t in outer - rng * easedT)
           \<le> (let t = real i / d; easedT = t * t in outer - rng * easedT)"
    by (simp add: Let_def)
qed

lemma goldenRatioLoop_below:
  "0 \<le> u \<Longrightarrow> r \<in> set (goldenRatioLoop u n c is) \<Longrightarrow> r \<le> c"
proof (induction "is" arbitrary: c)
  case Nil
  then show ?case by simp
next
  case (Cons i rest)
  have gap: "0 \<le> u * PHI ^ nat (n - 1 - int i)"
    using Cons.prems(1) PHI_pos by simp
  from Cons.prems(2) have
    "r = c - u * PHI ^ nat (n - 1 - int i)
      \<or> r \<in> set (goldenRatioLoop u n (c - u * PHI ^ nat (n - 1 - int i)) rest)"
    by (simp add: Let_def)
  then show ?case
  proof
    assume "r = c - u * PHI ^ nat (n - 1 - int i)"
    with gap show ?thesis by simp
  next
    assume "r \<in> set (goldenRatioLoop u n (c - u * PHI ^ nat (n - 1 - int i)) rest)"
    then have "r \<le> c - u * PHI ^ nat (n - 1 - int i)"
      using Cons.IH Cons.prems(1) by blast
    with gap show ?thesis by simp
  qed
qed

lemma goldenRatioLoop_sorted:
  "0 \<le> u \<Longrightarrow> sorted_wrt (\<ge>) (c # goldenRatioLoop u n c is)"
proof (induction "is" arbitrary: c)
  case Nil
  then show ?case by simp
next
  case (Cons i rest)
  have below: "\<forall>r\<in>set (goldenRatioLoop u n c (i # rest)). r \<le> c"
    using goldenRatioLoop_below [OF Cons.prems] by blast
  have "sorted_wrt (\<ge>) (goldenRatioLoop u n c (i # rest))"
    using Cons.IH [OF Cons.prems, of "c - u * PHI ^ nat (n - 1 - int i)"] by (simp add: Let_def)
  with below show ?case by (simp del: goldenRatioLoop.simps)
qed

lemma goldenRatioLoop_above:
  "u \<le> 0 \<Longrightarrow> r \<in> set (goldenRatioLoop u n c is) \<Longrightarrow> c \<le> r"
proof (induction "is" arbitrary: c)
  case Nil
  then show ?case by simp
next
  case (Cons i rest)
  have "0 \<le> (- u) * PHI ^ nat (n - 1 - int i)"
    using Cons.prems(1) PHI_pos by (intro mult_nonneg_nonneg) simp_all
  then have gap: "u * PHI ^ nat (n - 1 - int i) \<le> 0" by simp
  from Cons.prems(2) have
    "r = c - u * PHI ^ nat (n - 1 - int i)
      \<or> r \<in> set (goldenRatioLoop u n (c - u * PHI ^ nat (n - 1 - int i)) rest)"
    by (simp add: Let_def)
  then show ?case
  proof
    assume "r = c - u * PHI ^ nat (n - 1 - int i)"
    with gap show ?thesis by simp
  next
    assume "r \<in> set (goldenRatioLoop u n (c - u * PHI ^ nat (n - 1 - int i)) rest)"
    then have "c - u * PHI ^ nat (n - 1 - int i) \<le> r"
      using Cons.IH Cons.prems(1) by blast
    with gap show ?thesis by simp
  qed
qed

lemma goldenRatioLoop_sorted_up:
  "u \<le> 0 \<Longrightarrow> sorted_wrt (\<le>) (c # goldenRatioLoop u n c is)"
proof (induction "is" arbitrary: c)
  case Nil
  then show ?case by simp
next
  case (Cons i rest)
  have above: "\<forall>r\<in>set (goldenRatioLoop u n c (i # rest)). c \<le> r"
    using goldenRatioLoop_above [OF Cons.prems] by blast
  have "sorted_wrt (\<le>) (goldenRatioLoop u n c (i # rest))"
    using Cons.IH [OF Cons.prems, of "c - u * PHI ^ nat (n - 1 - int i)"] by (simp add: Let_def)
  with above show ?case by (simp del: goldenRatioLoop.simps)
qed

lemma hd_map_upt: "0 < n \<Longrightarrow> hd (map f [0..<n]) = f 0"
  by (cases n) (simp_all add: upt_conv_Cons del: upt_Suc)

lemma calculateRadii_first:
  assumes "2 \<le> count"
  shows "calculateRadii outer count mode options \<noteq> []
       \<and> hd (calculateRadii outer count mode options) = outer"
  using assms
  by (cases mode) (simp_all add: calculateRadii_def calculateShrinkageRadii_def Let_def hd_map_upt)

lemma calculateSquareSizes_first:
  assumes "2 \<le> count"
  shows "calculateSquareSizes outer count mode options \<noteq> []
       \<and> hd (calculateSquareSizes outer count mode options) = outer"
  using assms
  by (cases mode) (simp_all add: calculateSquareSizes_def calculateShrinkageSizes_def Let_def hd_map_upt)

lemma calculatePolygonRadii_first:
  assumes "2 \<le> count"
  shows "calculatePolygonRadii outer count mode options \<noteq> []
       \<and> hd (calculatePolygonRadii outer count mode options) = outer"
  using assms
  by (cases mode)
    (simp_all add: calculatePolygonRadii_def calculateShrinkagePolygonRadii_def Let_def hd_map_upt)

lemma calculateRadii_sorted:
  assumes "2 \<le> count" "ringSpacingWellPosed outer mode options"
  shows "sorted_wrt (\<ge>) (calculateRadii outer count mode options)"
proof (cases mode)
  case Uniform
  with assms show ?thesis
    using uniform_sorted [of "outer - orElse (opt_innerRadius options) (outer * 0.1)"
        "real_of_int (count - 1)" outer "nat count"]
    by (simp add: calculateRadii_def ringSpacingWellPosed_def Let_def)
next
  case Shrinkage
  with assms show ?thesis
    using shrinkageLoop_sorted [of "orElse (opt_outerGap options) 18"
        "1 - orElse (opt_shrinkage options) 0.05" outer "nat (count - 1)"]
    by (simp add: calculateRadii_def calculateShrinkageRadii_def ringSpacingWellPosed_def)
next
  case Graduated
  with assms show ?thesis
    using graduated_sorted [of "outer - orElse (opt_innerRadius options) (outer * 0.1)"
        "real_of_int (count - 1)" outer "nat count"]
    by (simp add: calculateRadii_def ringSpacingWellPosed_def Let_def)
next
  case GoldenRatio
  have "0 < goldenRatioSum (count - 1)" using assms(1) by (intro goldenRatioSum_pos) simp
  with GoldenRatio assms have
    "0 \<le> (outer - orElse (opt_innerRadius options) (outer * 0.1)) / goldenRatioSum (count - 1)"
    by (simp add: ringSpacingWellPosed_def)
  from goldenRatioLoop_sorted [OF this] GoldenRatio assms show ?thesis
    by (simp add: calculateRadii_def Let_def del: sorted_wrt.simps)
qed

lemma calculateSquareSizes_sorted:
  assumes "2 \<le> count" "squareSpacingWellPosed outer mode options"
  shows "sorted_wrt (\<ge>) (calculateSquareSizes outer count mode options)"
proof (cases mode)
  case SqUniform
  with assms show ?thesis
    using uniform_sorted [of "outer - orElse (sopt_innerSize options) (outer * 0.1)"
        "real_of_int (count - 1)" outer "nat count"]
    by (simp add: calculateSquareSizes_def squareSpacingWellPosed_def Let_def)
next
  case SqShrinkage
  with assms show ?thesis
    using shrinkageLoop_sorted [of "orElse (sopt_outerGap options) 24"
        "1 - orElse (sopt_shrinkage options) 0.05" outer "nat (count - 1)"]
    by (simp add: calculateSquareSizes_def calculateShrinkageSizes_def squareSpacingWellPosed_def)
next
  case SqGraduated
  with assms show ?thesis
    using graduated_sorted [of "outer - orElse (sopt_innerSize options) (outer * 0.1)"
        "real_of_int (count - 1)" outer "nat count"]
    by (simp add: calculateSquareSizes_def squareSpacingWellPosed_def Let_def)
qed

lemma calculatePolygonRadii_sorted:
  assumes "2 \<le> count" "polygonSpacingWellPosed outer mode options"
  shows "sorted_wrt (\<ge>) (calculatePolygonRadii outer count mode options)"
proof (cases mode)
  case PgUniform
  with assms show ?thesis
    using uniform_sorted [of "outer - orElse (opt_innerRadius options) (outer * 0.1)"
        "real_of_int (count - 1)" outer "nat count"]
    by (simp add: calculatePolygonRadii_def polygonSpacingWellPosed_def Let_def)
next
  case PgShrinkage
  with assms show ?thesis
    using shrinkageLoop_sorted [of "orElse (opt_outerGap options) 24"
        "1 - orElse (opt_shrinkage options) 0.05" outer "nat (count - 1)"]
    by (simp add: calculatePolygonRadii_def calculateShrinkagePolygonRadii_def
        polygonSpacingWellPosed_def)
next
  case PgGraduated
  with assms show ?thesis
    using graduated_sorted [of "outer - orElse (opt_innerRadius options) (outer * 0.1)"
        "real_of_int (count - 1)" outer "nat count"]
    by (simp add: calculatePolygonRadii_def polygonSpacingWellPosed_def Let_def)
qed

text \<open>
  Claim C1 (as amended). For every call of calculateRadii, calculateSquareSizes and
  calculatePolygonRadii with count >= 2, in every spacing mode, with the extents in the
  working range (and at most 1000 rings in goldenRatio mode), the returned sequence is
  non-empty and its first element is the outer extent. When the parameters in force are
  well posed, that is the inner extent is not above the outer one (uniform, graduated,
  goldenRatio), respectively the gap is not negative and the shrinkage is at most 1
  (shrinkage), the sequence never increases from an element to the next. A strict decrease
  is not claimed: the double-precision arithmetic of the source can return the same
  extent twice in a row, where a gap falls below the rounding error of the extent.
\<close>

theorem spacing_never_increasing:
  assumes "2 \<le> count"
  shows "(ringSpacingInRange outer count rmode ropts \<longrightarrow>
            calculateRadii outer count rmode ropts \<noteq> []
            \<and> hd (calculateRadii outer count rmode ropts) = outer
            \<and> (ringSpacingWellPosed outer rmode ropts \<longrightarrow>
                 nonIncreasingFromOuter outer (calculateRadii outer count rmode ropts)))
       \<and> (squareSpacingInRange outer smode sopts \<longrightarrow>
            calculateSquareSizes outer count smode sopts \<noteq> []
            \<and> hd (calculateSquareSizes outer count smode sopts) = outer
            \<and> (squareSpacingWellPosed outer smode sopts \<longrightarrow>
                 nonIncreasingFromOuter outer (calculateSquareSizes outer count smode sopts)))
       \<and> (polygonSpacingInRange outer pmode popts \<longrightarrow>
            calculatePolygonRadii outer count pmode popts \<noteq> []
            \<and> hd (calculatePolygonRadii outer count pmode popts) = outer
            \<and> (polygonSpacingWellPosed outer pmode popts \<longrightarrow>
                 nonIncreasingFromOuter outer (calculatePolygonRadii outer count pmode popts)))"
  using calculateRadii_first [OF assms] calculateSquareSizes_first [OF assms]
    calculatePolygonRadii_first [OF assms] calculateRadii_sorted [OF assms]
    calculateSquareSizes_sorted [OF assms] calculatePolygonRadii_sorted [OF assms]
  unfolding nonIncreasingFromOuter_def by blast

theorem spacing_never_increasing_witness:
  "(2::int) \<le> 5
   \<and> nonIncreasingFromOuter 300
       (calculateRadii 300 5 GoldenRatio
          \<lparr>opt_innerRadius = Some 30, opt_outerGap = Some 20, opt_shrinkage = Some 0.1\<rparr>)
   \<and> nonIncreasingFromOuter 300
       (calculateSquareSizes 300 5 SqShrinkage
          \<lparr>sopt_innerSize = Some 30, sopt_outerGap = Some 20, sopt_shrinkage = Some 0.1\<rparr>)
   \<and> nonIncreasingFromOuter 300
       (calculatePolygonRadii 300 5 PgUniform
          \<lparr>opt_innerRadius = Some 30, opt_outerGap = Some 20, opt_shrinkage = Some 0.1\<rparr>)"
proof -
  have h: "(2::int) \<le> 5" by simp
  show ?thesis
    using spacing_never_increasing [OF h, of 300 GoldenRatio
        "\<lparr>opt_innerRadius = Some 30, opt_outerGap = Some 20, opt_shrinkage = Some 0.1\<rparr>"
        SqShrinkage
        "\<lparr>sopt_innerSize = Some 30, sopt_outerGap = Some 20, sopt_shrinkage = Some 0.1\<rparr>"
        PgUniform
        "\<lparr>opt_innerRadius = Some 30, opt_outerGap = Some 20, opt_shrinkage = Some 0.1\<rparr>"]
    by (simp add: ringSpacingWellPosed_def squareSpacingWellPosed_def
        polygonSpacingWellPosed_def ringSpacingInRange_def squareSpacingInRange_def
        polygonSpacingInRange_def inRange_def orElse_def)
qed

text \<open>
  The sequence can increase: an inner radius of 200 under an outer radius of 100 gives
  the radii 100, 200.
\<close>

theorem spacing_not_always_decreasing:
  "calculateRadii 100 2 Uniform
     \<lparr>opt_innerRadius = Some 200, opt_outerGap = None, opt_shrinkage = None\<rparr> = [100, 200]
   \<and> \<not> decreasingFromOuter 100
       (calculateRadii 100 2 Uniform
          \<lparr>opt_innerRadius = Some 200, opt_outerGap = None, opt_shrinkage = None\<rparr>)"
  by (simp add: decreasingFromOuter_def calculateRadii_def orElse_def upt_rec)

text \<open>
  Claim C2 (as amended). In shrinkage mode with count >= 2 the result is the outer extent
  followed by the candidate extents up to, and without, the first one that is <= 0: the
  loop stops there. So every element after the first is strictly positive, the sequence
  has at most count elements and can have fewer, and the first element is the outer extent
  whatever its sign; when the outer extent is positive, every element is. The three copies
  of the loop (rings, squares, polygons) agree.
\<close>

theorem shrinkage_truncates:
  assumes "2 \<le> count"
  shows "calculateShrinkageRadii outer count gap s
           = outer # takeWhile (\<lambda>r. 0 < r)
                       (shrinkageCandidates (nat (count - 1)) outer gap (1 - s))
       \<and> calculateShrinkageSizes outer count gap s = calculateShrinkageRadii outer count gap s
       \<and> calculateShrinkagePolygonRadii outer count gap s = calculateShrinkageRadii outer count gap s
       \<and> hd (calculateShrinkageRadii outer count gap s) = outer
       \<and> (\<forall>r \<in> set (tl (calculateShrinkageRadii outer count gap s)). 0 < r)
       \<and> length (calculateShrinkageRadii outer count gap s) \<le> nat count
       \<and> (0 < outer \<longrightarrow> (\<forall>r \<in> set (calculateShrinkageRadii outer count gap s). 0 < r))"
proof -
  let ?k = "nat (count - 1)"
  have eq: "calculateShrinkageRadii outer count gap s = outer # shrinkageLoop ?k outer gap (1 - s)"
    using assms by (simp add: calculateShrinkageRadii_def)
  have len: "length (shrinkageLoop ?k outer gap (1 - s)) \<le> ?k"
    by (rule shrinkageLoop_length)
  have pos: "\<forall>r \<in> set (shrinkageLoop ?k outer gap (1 - s)). 0 < r"
    using shrinkageLoop_positive by blast
  have sz: "calculateShrinkageSizes outer count gap s = calculateShrinkageRadii outer count gap s"
    by (simp add: calculateShrinkageSizes_def calculateShrinkageRadii_def)
  have pg: "calculateShrinkagePolygonRadii outer count gap s
              = calculateShrinkageRadii outer count gap s"
    by (simp add: calculateShrinkagePolygonRadii_def calculateShrinkageRadii_def)
  have l: "length (calculateShrinkageRadii outer count gap s) \<le> nat count"
    using len assms by (simp add: eq)
  have tk: "calculateShrinkageRadii outer count gap s
           = outer # takeWhile (\<lambda>r. 0 < r)
                       (shrinkageCandidates (nat (count - 1)) outer gap (1 - s))"
    by (simp only: eq shrinkageLoop_takeWhile)
  have h: "hd (calculateShrinkageRadii outer count gap s) = outer"
    by (simp add: eq)
  have t: "\<forall>r \<in> set (tl (calculateShrinkageRadii outer count gap s)). 0 < r"
    using pos by (simp add: eq)
  have a: "0 < outer \<longrightarrow> (\<forall>r \<in> set (calculateShrinkageRadii outer count gap s). 0 < r)"
    using pos by (simp add: eq)
  show ?thesis by (intro conjI) (rule tk sz pg h t l a)+
qed

theorem shrinkage_truncates_witness:
  "(2::int) \<le> 5
   \<and> calculateShrinkageRadii 30 5 18 0.05 = [30, 12]
   \<and> calculateShrinkageSizes 30 5 18 0.05 = [30, 12]
   \<and> calculateShrinkagePolygonRadii 30 5 18 0.05 = [30, 12]
   \<and> length (calculateShrinkageRadii 30 5 18 0.05) < 5
   \<and> (0::real) < 30 \<and> (0::real) < 12"
proof -
  have h: "(2::int) \<le> 5" by simp
  have v: "calculateShrinkageRadii 30 5 18 0.05 = [30, 12]"
    by (simp add: calculateShrinkageRadii_def eval_nat_numeral)
  have sz: "calculateShrinkageSizes 30 5 18 0.05 = calculateShrinkageRadii 30 5 18 0.05"
    and pg: "calculateShrinkagePolygonRadii 30 5 18 0.05 = calculateShrinkageRadii 30 5 18 0.05"
    using shrinkage_truncates [OF h, of 30 18 "0.05"] by blast+
  show ?thesis unfolding sz pg v by simp
qed

text \<open>
  The first element is not checked: an outer extent of 0 is returned as it is.
\<close>

theorem shrinkage_first_extent_unchecked:
  "calculateShrinkageRadii 0 2 18 0.05 = [0]
   \<and> (0::real) \<in> set (calculateShrinkageRadii 0 2 18 0.05)"
  by (simp add: calculateShrinkageRadii_def eval_nat_numeral)

text \<open>
  The goldenRatio mode in exact arithmetic: the gap at step i is unit * PHI^(count - 1 - i),
  the gaps sum to outer - inner, the last radius is inner, and the gaps do not grow moving
  inward when inner is not above outer.
\<close>

lemma goldenRatio_exact:
  fixes outer :: real and count :: int and options :: SpacingOptions
  assumes "2 \<le> count"
    and "rs = calculateRadii outer count GoldenRatio options"
    and "inner = orElse (opt_innerRadius options) (outer * 0.1)"
    and "u = (outer - inner) / (\<Sum>k<nat (count - 1). PHI ^ k)"
  shows "length rs = nat count
       \<and> (\<forall>i. 1 \<le> i \<and> i < nat count \<longrightarrow> gapAt rs i = u * PHI ^ (nat count - 1 - i))
       \<and> (\<Sum>i = 1..<nat count. gapAt rs i) = outer - inner
       \<and> last rs = inner
       \<and> (inner \<le> outer \<longrightarrow>
            (\<forall>i. 1 \<le> i \<and> Suc i < nat count \<longrightarrow> gapAt rs (Suc i) \<le> gapAt rs i))"
proof -
  define n where "n = nat count"
  define m where "m = n - 1"
  have n2: "2 \<le> n" and nm: "n = Suc m" and m1: "1 \<le> m" and cm: "nat (count - 1) = m"
    using assms(1) by (auto simp: n_def m_def)
  have series: "goldenRatioSum (count - 1) = (\<Sum>k<m. PHI ^ k)"
    using goldenRatioSum_series [of "count - 1"] assms(1) cm by simp
  have spos: "0 < (\<Sum>k<m. PHI ^ k)"
    using goldenRatioSum_pos [of "count - 1"] assms(1) series by simp
  have u: "u = (outer - inner) / (\<Sum>k<m. PHI ^ k)"
    by (simp add: assms(4) cm)
  have rs: "rs = outer # goldenRatioLoop u count outer [1..<n]"
    using assms(1) by (simp add: assms(2) assms(3) calculateRadii_def Let_def u series n_def)
  have len: "length rs = n"
    using n2 by (simp add: rs goldenRatioLoop_length)
  have gap: "gapAt rs i = u * PHI ^ (n - 1 - i)" if "1 \<le> i" "i < n" for i
  proof -
    from that obtain j where j: "i = Suc j" "j < n - 1" by (cases i) auto
    have "rs ! j - rs ! Suc j = u * PHI ^ nat (count - 1 - int ([1..<n] ! j))"
      unfolding rs by (rule goldenRatioLoop_gap) (use j in simp)
    also have "nat (count - 1 - int ([1..<n] ! j)) = n - 1 - i"
      using j by (simp add: n_def)
    finally show ?thesis by (simp add: gapAt_def j)
  qed
  have sum1: "(\<Sum>i = 1..<n. gapAt rs i) = (\<Sum>j<m. u * PHI ^ (m - Suc j))"
  proof -
    have "(\<Sum>i = 1..<n. gapAt rs i) = (\<Sum>i = 1..<n. u * PHI ^ (n - 1 - i))"
      by (rule sum.cong) (use gap in auto)
    also have "\<dots> = (\<Sum>j = 0..<m. u * PHI ^ (m - Suc j))"
      unfolding nm using sum.shift_bounds_Suc_ivl [of "\<lambda>i. u * PHI ^ (Suc m - 1 - i)" 0 m]
      by simp
    finally show ?thesis by (simp add: atLeast0LessThan)
  qed
  have "(\<Sum>j<m. u * PHI ^ (m - Suc j)) = u * (\<Sum>j<m. PHI ^ (m - Suc j))"
    by (simp add: sum_distrib_left)
  also have "(\<Sum>j<m. PHI ^ (m - Suc j)) = (\<Sum>j<m. PHI ^ j)"
    by (rule sum.nat_diff_reindex)
  also have "u * (\<Sum>j<m. PHI ^ j) = outer - inner"
    using spos by (simp add: u)
  finally have total: "(\<Sum>i = 1..<n. gapAt rs i) = outer - inner"
    using sum1 by simp
  have tele: "(\<Sum>i = 1..<n. gapAt rs i) = rs ! 0 - rs ! m"
  proof -
    have "(\<Sum>i = 1..<n. gapAt rs i) = (\<Sum>j = 0..<m. rs ! j - rs ! Suc j)"
      unfolding nm using sum.shift_bounds_Suc_ivl [of "\<lambda>i. gapAt rs i" 0 m]
      by (simp add: gapAt_def)
    also have "\<dots> = rs ! 0 - rs ! m"
      using sum_lessThan_telescope' [of "\<lambda>j. rs ! j" m] by (simp add: atLeast0LessThan)
    finally show ?thesis .
  qed
  have "rs ! 0 = outer" by (simp add: rs)
  with tele total have "rs ! m = inner" by simp
  moreover have "last rs = rs ! m"
  proof -
    have "rs \<noteq> []" using len nm by auto
    then have "last rs = rs ! (length rs - 1)" by (rule last_conv_nth)
    then show ?thesis using len nm by simp
  qed
  ultimately have lst: "last rs = inner" by simp
  have shrink: "gapAt rs (Suc i) \<le> gapAt rs i" if "inner \<le> outer" "1 \<le> i" "Suc i < n" for i
  proof -
    have upos: "0 \<le> u" using that(1) spos by (simp add: u)
    have "PHI ^ (n - 1 - Suc i) \<le> PHI ^ (n - 1 - i)"
      using PHI_gt1 that by (intro power_increasing) auto
    then have "u * PHI ^ (n - 1 - Suc i) \<le> u * PHI ^ (n - 1 - i)"
      using upos by (rule mult_left_mono)
    then show ?thesis using gap [of i] gap [of "Suc i"] that by simp
  qed
  have g1: "\<forall>i. 1 \<le> i \<and> i < nat count \<longrightarrow> gapAt rs i = u * PHI ^ (nat count - 1 - i)"
    using gap unfolding n_def by blast
  have g2: "inner \<le> outer \<longrightarrow>
      (\<forall>i. 1 \<le> i \<and> Suc i < nat count \<longrightarrow> gapAt rs (Suc i) \<le> gapAt rs i)"
    using shrink unfolding n_def by blast
  have c1: "length rs = nat count" using len by (simp only: n_def)
  have c3: "(\<Sum>i = 1..<nat count. gapAt rs i) = outer - inner"
    using total by (simp only: n_def)
  show ?thesis by (intro conjI) (rule c1 g1 c3 lst g2)+
qed

lemma goldenRatio_direction:
  fixes outer :: real and count :: int and options :: SpacingOptions
  assumes "2 \<le> count"
  shows "(orElse (opt_innerRadius options) (outer * 0.1) \<le> outer \<longrightarrow>
            sorted_wrt (\<ge>) (calculateRadii outer count GoldenRatio options))
       \<and> (outer \<le> orElse (opt_innerRadius options) (outer * 0.1) \<longrightarrow>
            sorted_wrt (\<le>) (calculateRadii outer count GoldenRatio options))"
proof -
  have pos: "0 < goldenRatioSum (count - 1)" using assms by (intro goldenRatioSum_pos) simp
  let ?u = "(outer - orElse (opt_innerRadius options) (outer * 0.1)) / goldenRatioSum (count - 1)"
  have rs: "calculateRadii outer count GoldenRatio options
      = outer # goldenRatioLoop ?u count outer [1..<nat count]"
    using assms by (simp add: calculateRadii_def Let_def)
  have down: "sorted_wrt (\<ge>) (calculateRadii outer count GoldenRatio options)"
    if "orElse (opt_innerRadius options) (outer * 0.1) \<le> outer"
  proof -
    from that pos have "0 \<le> ?u" by simp
    from goldenRatioLoop_sorted [OF this] show ?thesis unfolding rs .
  qed
  have up: "sorted_wrt (\<le>) (calculateRadii outer count GoldenRatio options)"
    if "outer \<le> orElse (opt_innerRadius options) (outer * 0.1)"
  proof -
    from that pos have "?u \<le> 0" by (simp add: divide_le_0_iff)
    from goldenRatioLoop_sorted_up [OF this] show ?thesis unfolding rs .
  qed
  from down up show ?thesis by blast
qed

text \<open>
  Claim C4 (as amended). In goldenRatio mode with 2 <= count <= 1000 and the outer and
  inner radius in the working range, where inner is the inner radius in force (outer * 0.1
  by default) and unit is (outer - inner) divided by the sum of PHI^k for
  k = 0 .. count - 2: the sequence has count radii and starts at outer; within a millionth
  of a pixel, the gap applied at step i (1 <= i <= count - 1) is unit * PHI^(count - 1 - i),
  the gaps sum to outer - inner and the last radius is inner. When inner is not above
  outer the radii never increase and, within the same tolerance, the gaps do not grow
  moving inward; when inner is not below outer the radii never decrease. The equalities
  are exact in exact arithmetic only: the double-precision arithmetic of the source
  returns, for instance, 29.999999999999996 as the last radius for the inner radius 30.
\<close>

theorem goldenRatio_gaps_within_tolerance:
  fixes outer :: real and count :: int and options :: SpacingOptions
  assumes "2 \<le> count" and "ringSpacingInRange outer count GoldenRatio options"
  shows "let rs = calculateRadii outer count GoldenRatio options;
             inner = orElse (opt_innerRadius options) (outer * 0.1);
             u = (outer - inner) / (\<Sum>k<nat (count - 1). PHI ^ k)
         in length rs = nat count
          \<and> hd rs = outer
          \<and> (\<forall>i. 1 \<le> i \<and> i < nat count \<longrightarrow>
                \<bar>gapAt rs i - u * PHI ^ (nat count - 1 - i)\<bar> \<le> spacingTolerance)
          \<and> \<bar>(\<Sum>i = 1..<nat count. gapAt rs i) - (outer - inner)\<bar> \<le> spacingTolerance
          \<and> \<bar>last rs - inner\<bar> \<le> spacingTolerance
          \<and> (inner \<le> outer \<longrightarrow>
                sorted_wrt (\<ge>) rs
                \<and> (\<forall>i. 1 \<le> i \<and> Suc i < nat count \<longrightarrow>
                      gapAt rs (Suc i) \<le> gapAt rs i + spacingTolerance))
          \<and> (outer \<le> inner \<longrightarrow> sorted_wrt (\<le>) rs)"
proof -
  define rs where "rs = calculateRadii outer count GoldenRatio options"
  define inner where "inner = orElse (opt_innerRadius options) (outer * 0.1)"
  define u where "u = (outer - inner) / (\<Sum>k<nat (count - 1). PHI ^ k)"
  note e = goldenRatio_exact [OF assms(1) rs_def inner_def u_def]
  note d = goldenRatio_direction [OF assms(1), of options outer, folded rs_def inner_def]
  have tol: "0 \<le> spacingTolerance" by (simp add: spacingTolerance_def)
  have c1: "length rs = nat count" using e by blast
  have c2: "hd rs = outer" using calculateRadii_first [OF assms(1)] by (simp add: rs_def)
  have e3: "\<forall>i. 1 \<le> i \<and> i < nat count \<longrightarrow> gapAt rs i = u * PHI ^ (nat count - 1 - i)"
    using e by blast
  have c3: "\<forall>i. 1 \<le> i \<and> i < nat count \<longrightarrow>
      \<bar>gapAt rs i - u * PHI ^ (nat count - 1 - i)\<bar> \<le> spacingTolerance"
    using e3 tol by simp
  have e4: "(\<Sum>i = 1..<nat count. gapAt rs i) = outer - inner" using e by blast
  have c4: "\<bar>(\<Sum>i = 1..<nat count. gapAt rs i) - (outer - inner)\<bar> \<le> spacingTolerance"
    unfolding e4 using tol by simp
  have e5: "last rs = inner" using e by blast
  have c5: "\<bar>last rs - inner\<bar> \<le> spacingTolerance" unfolding e5 using tol by simp
  have c6: "inner \<le> outer \<longrightarrow>
      sorted_wrt (\<ge>) rs
      \<and> (\<forall>i. 1 \<le> i \<and> Suc i < nat count \<longrightarrow> gapAt rs (Suc i) \<le> gapAt rs i + spacingTolerance)"
  proof
    assume io: "inner \<le> outer"
    with d have s: "sorted_wrt (\<ge>) rs" by blast
    have "gapAt rs (Suc i) \<le> gapAt rs i + spacingTolerance" if "1 \<le> i \<and> Suc i < nat count" for i
    proof -
      from e io that have "gapAt rs (Suc i) \<le> gapAt rs i" by blast
      with tol show ?thesis by simp
    qed
    with s show "sorted_wrt (\<ge>) rs
      \<and> (\<forall>i. 1 \<le> i \<and> Suc i < nat count \<longrightarrow> gapAt rs (Suc i) \<le> gapAt rs i + spacingTolerance)"
      by blast
  qed
  have c7: "outer \<le> inner \<longrightarrow> sorted_wrt (\<le>) rs" using d by blast
  show ?thesis
    unfolding Let_def rs_def [symmetric] inner_def [symmetric] u_def [symmetric]
    by (intro conjI) (rule c1 c2 c3 c4 c5 c6 c7)+
qed

theorem goldenRatio_gaps_within_tolerance_witness:
  "(2::int) \<le> 3
   \<and> ringSpacingInRange 100 3 GoldenRatio
        \<lparr>opt_innerRadius = Some 10, opt_outerGap = None, opt_shrinkage = None\<rparr>
   \<and> length (calculateRadii 100 3 GoldenRatio
        \<lparr>opt_innerRadius = Some 10, opt_outerGap = None, opt_shrinkage = None\<rparr>) = 3
   \<and> hd (calculateRadii 100 3 GoldenRatio
        \<lparr>opt_innerRadius = Some 10, opt_outerGap = None, opt_shrinkage = None\<rparr>) = 100
   \<and> \<bar>last (calculateRadii 100 3 GoldenRatio
        \<lparr>opt_innerRadius = Some 10, opt_outerGap = None, opt_shrinkage = None\<rparr>) - 10\<bar>
       \<le> spacingTolerance
   \<and> sorted_wrt (\<ge>) (calculateRadii 100 3 GoldenRatio
        \<lparr>opt_innerRadius = Some 10, opt_outerGap = None, opt_shrinkage = None\<rparr>)
   \<and> \<bar>gapAt (calculateRadii 100 3 GoldenRatio
        \<lparr>opt_innerRadius = Some 10, opt_outerGap = None, opt_shrinkage = None\<rparr>) 1
      - (100 - 10) / (\<Sum>k<nat (3 - 1). PHI ^ k) * PHI ^ (nat 3 - 1 - 1)\<bar> \<le> spacingTolerance
   \<and> gapAt (calculateRadii 100 3 GoldenRatio
        \<lparr>opt_innerRadius = Some 10, opt_outerGap = None, opt_shrinkage = None\<rparr>) 2
       \<le> gapAt (calculateRadii 100 3 GoldenRatio
        \<lparr>opt_innerRadius = Some 10, opt_outerGap = None, opt_shrinkage = None\<rparr>) 1
          + spacingTolerance"
proof -
  let ?o = "\<lparr>opt_innerRadius = Some 10, opt_outerGap = None, opt_shrinkage = None\<rparr>"
  let ?rs = "calculateRadii 100 3 GoldenRatio ?o"
  have h: "(2::int) \<le> 3" by simp
  have r: "ringSpacingInRange 100 3 GoldenRatio ?o"
    by (simp add: ringSpacingInRange_def inRange_def orElse_def)
  have i: "orElse (opt_innerRadius ?o) (100 * 0.1) = 10" by (simp add: orElse_def)
  note t = goldenRatio_gaps_within_tolerance [OF h r, unfolded Let_def i]
  from t have a: "length ?rs = 3" by simp
  from t have b: "hd ?rs = 100" by blast
  from t have c: "\<bar>last ?rs - 10\<bar> \<le> spacingTolerance" by blast
  from t have "(10::real) \<le> 100 \<longrightarrow> sorted_wrt (\<ge>) ?rs" by blast
  then have d: "sorted_wrt (\<ge>) ?rs" by simp
  from t have "\<forall>i. 1 \<le> i \<and> i < nat 3 \<longrightarrow>
      \<bar>gapAt ?rs i - (100 - 10) / (\<Sum>k<nat (3 - 1). PHI ^ k) * PHI ^ (nat 3 - 1 - i)\<bar>
        \<le> spacingTolerance" by blast
  then have "1 \<le> (1::nat) \<and> 1 < nat 3 \<longrightarrow>
      \<bar>gapAt ?rs 1 - (100 - 10) / (\<Sum>k<nat (3 - 1). PHI ^ k) * PHI ^ (nat 3 - 1 - 1)\<bar>
        \<le> spacingTolerance" by (rule spec)
  then have e: "\<bar>gapAt ?rs 1 - (100 - 10) / (\<Sum>k<nat (3 - 1). PHI ^ k) * PHI ^ (nat 3 - 1 - 1)\<bar>
        \<le> spacingTolerance" by simp
  from t have "(10::real) \<le> 100 \<longrightarrow> sorted_wrt (\<ge>) ?rs
      \<and> (\<forall>i. 1 \<le> i \<and> Suc i < nat 3 \<longrightarrow> gapAt ?rs (Suc i) \<le> gapAt ?rs i + spacingTolerance)"
    by blast
  then have "\<forall>i. 1 \<le> i \<and> Suc i < nat 3 \<longrightarrow> gapAt ?rs (Suc i) \<le> gapAt ?rs i + spacingTolerance"
    by simp
  then have "1 \<le> (1::nat) \<and> Suc 1 < nat 3 \<longrightarrow> gapAt ?rs (Suc 1) \<le> gapAt ?rs 1 + spacingTolerance"
    by (rule spec)
  then have f: "gapAt ?rs 2 \<le> gapAt ?rs 1 + spacingTolerance" by (simp add: eval_nat_numeral)
  from h r a b c d e f show ?thesis by blast
qed

text \<open>
  With inner = outer every gap is 0, so the gaps do not shrink strictly.
\<close>

theorem goldenRatio_equal_gaps:
  "calculateRadii 100 3 GoldenRatio
     \<lparr>opt_innerRadius = Some 100, opt_outerGap = None, opt_shrinkage = None\<rparr> = [100, 100, 100]
   \<and> \<not> gapAt (calculateRadii 100 3 GoldenRatio
          \<lparr>opt_innerRadius = Some 100, opt_outerGap = None, opt_shrinkage = None\<rparr>) 2
       < gapAt (calculateRadii 100 3 GoldenRatio
          \<lparr>opt_innerRadius = Some 100, opt_outerGap = None, opt_shrinkage = None\<rparr>) 1"
proof -
  have up: "[Suc 0..<3] = [Suc 0, 2]" by (simp add: upt_rec)
  have v: "calculateRadii 100 3 GoldenRatio
     \<lparr>opt_innerRadius = Some 100, opt_outerGap = None, opt_shrinkage = None\<rparr> = [100, 100, 100]"
    by (simp add: calculateRadii_def orElse_def up)
  show ?thesis unfolding v by (simp add: gapAt_def)
qed

text \<open>
  Claim C10. An option supplied with the value 0 (innerRadius or innerSize, outerGap,
  shrinkage) is treated exactly as an omitted one, and both as the built-in default
  (inner = outer * 0.1; outerGap = 18 for rings, 24 for squares and polygons;
  shrinkage = 0.05): the three calls return the same sequence, in every mode and for every
  count. An explicit 0 is never used as the option's value.
\<close>

theorem explicit_zero_option_is_default:
  "calculateRadii outer n rmode (ropts\<lparr>opt_innerRadius := Some 0\<rparr>)
     = calculateRadii outer n rmode (ropts\<lparr>opt_innerRadius := None\<rparr>)
 \<and> calculateRadii outer n rmode (ropts\<lparr>opt_innerRadius := Some 0\<rparr>)
     = calculateRadii outer n rmode (ropts\<lparr>opt_innerRadius := Some (outer * 0.1)\<rparr>)
 \<and> calculateRadii outer n rmode (ropts\<lparr>opt_outerGap := Some 0\<rparr>)
     = calculateRadii outer n rmode (ropts\<lparr>opt_outerGap := None\<rparr>)
 \<and> calculateRadii outer n rmode (ropts\<lparr>opt_outerGap := Some 0\<rparr>)
     = calculateRadii outer n rmode (ropts\<lparr>opt_outerGap := Some 18\<rparr>)
 \<and> calculateRadii outer n rmode (ropts\<lparr>opt_shrinkage := Some 0\<rparr>)
     = calculateRadii outer n rmode (ropts\<lparr>opt_shrinkage := None\<rparr>)
 \<and> calculateRadii outer n rmode (ropts\<lparr>opt_shrinkage := Some 0\<rparr>)
     = calculateRadii outer n rmode (ropts\<lparr>opt_shrinkage := Some 0.05\<rparr>)
 \<and> calculateSquareSizes outer n smode (sopts\<lparr>sopt_innerSize := Some 0\<rparr>)
     = calculateSquareSizes outer n smode (sopts\<lparr>sopt_innerSize := None\<rparr>)
 \<and> calculateSquareSizes outer n smode (sopts\<lparr>sopt_innerSize := Some 0\<rparr>)
     = calculateSquareSizes outer n smode (sopts\<lparr>sopt_innerSize := Some (outer * 0.1)\<rparr>)
 \<and> calculateSquareSizes outer n smode (sopts\<lparr>sopt_outerGap := Some 0\<rparr>)
     = calculateSquareSizes outer n smode (sopts\<lparr>sopt_outerGap := None\<rparr>)
 \<and> calculateSquareSizes outer n smode (sopts\<lparr>sopt_outerGap := Some 0\<rparr>)
     = calculateSquareSizes outer n smode (sopts\<lparr>sopt_outerGap := Some 24\<rparr>)
 \<and> calculateSquareSizes outer n smode (sopts\<lparr>sopt_shrinkage := Some 0\<rparr>)
     = calculateSquareSizes outer n smode (sopts\<lparr>sopt_shrinkage := None\<rparr>)
 \<and> calculateSquareSizes outer n smode (sopts\<lparr>sopt_shrinkage := Some 0\<rparr>)
     = calculateSquareSizes outer n smode (sopts\<lparr>sopt_shrinkage := Some 0.05\<rparr>)
 \<and> calculatePolygonRadii outer n pmode (ropts\<lparr>opt_innerRadius := Some 0\<rparr>)
     = calculatePolygonRadii outer n pmode (ropts\<lparr>opt_innerRadius := None\<rparr>)
 \<and> calculatePolygonRadii outer n pmode (ropts\<lparr>opt_innerRadius := Some 0\<rparr>)
     = calculatePolygonRadii outer n pmode (ropts\<lparr>opt_innerRadius := Some (outer * 0.1)\<rparr>)
 \<and> calculatePolygonRadii outer n pmode (ropts\<lparr>opt_outerGap := Some 0\<rparr>)
     = calculatePolygonRadii outer n pmode (ropts\<lparr>opt_outerGap := None\<rparr>)
 \<and> calculatePolygonRadii outer n pmode (ropts\<lparr>opt_outerGap := Some 0\<rparr>)
     = calculatePolygonRadii outer n pmode (ropts\<lparr>opt_outerGap := Some 24\<rparr>)
 \<and> calculatePolygonRadii outer n pmode (ropts\<lparr>opt_shrinkage := Some 0\<rparr>)
     = calculatePolygonRadii outer n pmode (ropts\<lparr>opt_shrinkage := None\<rparr>)
 \<and> calculatePolygonRadii outer n pmode (ropts\<lparr>opt_shrinkage := Some 0\<rparr>)
     = calculatePolygonRadii outer n pmode (ropts\<lparr>opt_shrinkage := Some 0.05\<rparr>)"
proof -
  have r: "calculateRadii outer n rmode (ropts\<lparr>opt_innerRadius := Some 0\<rparr>)
       = calculateRadii outer n rmode (ropts\<lparr>opt_innerRadius := None\<rparr>)
   \<and> calculateRadii outer n rmode (ropts\<lparr>opt_innerRadius := Some 0\<rparr>)
       = calculateRadii outer n rmode (ropts\<lparr>opt_innerRadius := Some (outer * 0.1)\<rparr>)
   \<and> calculateRadii outer n rmode (ropts\<lparr>opt_outerGap := Some 0\<rparr>)
       = calculateRadii outer n rmode (ropts\<lparr>opt_outerGap := None\<rparr>)
   \<and> calculateRadii outer n rmode (ropts\<lparr>opt_outerGap := Some 0\<rparr>)
       = calculateRadii outer n rmode (ropts\<lparr>opt_outerGap := Some 18\<rparr>)
   \<and> calculateRadii outer n rmode (ropts\<lparr>opt_shrinkage := Some 0\<rparr>)
       = calculateRadii outer n rmode (ropts\<lparr>opt_shrinkage := None\<rparr>)
   \<and> calculateRadii outer n rmode (ropts\<lparr>opt_shrinkage := Some 0\<rparr>)
       = calculateRadii outer n rmode (ropts\<lparr>opt_shrinkage := Some 0.05\<rparr>)"
    by (cases rmode) (simp_all add: calculateRadii_def orElse_def)
  have s: "calculateSquareSizes outer n smode (sopts\<lparr>sopt_innerSize := Some 0\<rparr>)
       = calculateSquareSizes outer n smode (sopts\<lparr>sopt_innerSize := None\<rparr>)
   \<and> calculateSquareSizes outer n smode (sopts\<lparr>sopt_innerSize := Some 0\<rparr>)
       = calculateSquareSizes outer n smode (sopts\<lparr>sopt_innerSize := Some (outer * 0.1)\<rparr>)
   \<and> calculateSquareSizes outer n smode (sopts\<lparr>sopt_outerGap := Some 0\<rparr>)
       = calculateSquareSizes outer n smode (sopts\<lparr>sopt_outerGap := None\<rparr>)
   \<and> calculateSquareSizes outer n smode (sopts\<lparr>sopt_outerGap := Some 0\<rparr>)
       = calculateSquareSizes outer n smode (sopts\<lparr>sopt_outerGap := Some 24\<rparr>)
   \<and> calculateSquareSizes outer n smode (sopts\<lparr>sopt_shrinkage := Some 0\<rparr>)
       = calculateSquareSizes outer n smode (sopts\<lparr>sopt_shrinkage := None\<rparr>)
   \<and> calculateSquareSizes outer n smode (sopts\<lparr>sopt_shrinkage := Some 0\<rparr>)
       = calculateSquareSizes outer n smode (sopts\<lparr>sopt_shrinkage := Some 0.05\<rparr>)"
    by (cases smode) (simp_all add: calculateSquareSizes_def orElse_def)
  have p: "calculatePolygonRadii outer n pmode (ropts\<lparr>opt_innerRadius := Some 0\<rparr>)
       = calculatePolygonRadii outer n pmode (ropts\<lparr>opt_innerRadius := None\<rparr>)
   \<and> calculatePolygonRadii outer n pmode (ropts\<lparr>opt_innerRadius := Some 0\<rparr>)
       = calculatePolygonRadii outer n pmode (ropts\<lparr>opt_innerRadius := Some (outer * 0.1)\<rparr>)
   \<and> calculatePolygonRadii outer n pmode (ropts\<lparr>opt_outerGap := Some 0\<rparr>)
       = calculatePolygonRadii outer n pmode (ropts\<lparr>opt_outerGap := None\<rparr>)
   \<and> calculatePolygonRadii outer n pmode (ropts\<lparr>opt_outerGap := Some 0\<rparr>)
       = calculatePolygonRadii outer n pmode (ropts\<lparr>opt_outerGap := Some 24\<rparr>)
   \<and> calculatePolygonRadii outer n pmode (ropts\<lparr>opt_shrinkage := Some 0\<rparr>)
       = calculatePolygonRadii outer n pmode (ropts\<lparr>opt_shrinkage := None\<rparr>)
   \<and> calculatePolygonRadii outer n pmode (ropts\<lparr>opt_shrinkage := Some 0\<rparr>)
       = calculatePolygonRadii outer n pmode (ropts\<lparr>opt_shrinkage := Some 0.05\<rparr>)"
    by (cases pmode) (simp_all add: calculatePolygonRadii_def orElse_def)
  from r s p show ?thesis by blast
qed

subsection \<open>Number strings and joined paths\<close>

lemma digitChar_digit: "d < 10 \<Longrightarrow> digitChar d \<in> set ''0123456789''"
  unfolding digitChar_def by (rule nth_mem) simp

lemma natToString_chars: "set (natToString n) \<subseteq> set ''0123456789''"
proof (induction n rule: natToString.induct)
  case (1 n)
  show ?case
  proof (cases "n < 10")
    case True
    then show ?thesis using digitChar_digit [of n] by (subst natToString.simps) simp
  next
    case False
    have "n mod 10 < 10" by simp
    then have "digitChar (n mod 10) \<in> set ''0123456789''" by (rule digitChar_digit)
    with False 1 show ?thesis by (subst natToString.simps) simp
  qed
qed

lemma digits_numChars: "set ''0123456789'' \<subseteq> numChars"
proof -
  have "numChars = set (''0123456789'' @ ''-.'')" by (simp add: numChars_def)
  then show ?thesis by (simp only: set_append) blast
qed

lemma natToString_numChars: "set (natToString n) \<subseteq> numChars"
  using natToString_chars digits_numChars by (rule subset_trans)

lemma numChars_signs:
  "CHR ''-'' \<in> numChars" "CHR ''.'' \<in> numChars" "CHR ''0'' \<in> numChars"
  by (simp_all add: numChars_def)

lemma sign_numChars: "set (if b then ''-'' else '''') \<subseteq> numChars"
  using numChars_signs by (cases b) simp_all

lemma numberToString_chars: "set (numberToString v) \<subseteq> numChars"
proof -
  have f: "set (if p then '''' else if q then ''.'' @ natToString n
                else ''.'' @ natToString n @ natToString m) \<subseteq> numChars" for p q n m
    using numChars_signs natToString_numChars by simp
  show ?thesis
    unfolding numberToString_def Let_def set_append
    by (intro Un_least sign_numChars natToString_numChars f)
qed

lemma toFixed_chars: "set (toFixed v d) \<subseteq> numChars"
proof -
  have r: "set (replicate k (CHR ''0'')) \<subseteq> numChars" for k
    using numChars_signs by auto
  have f: "set (if p then '''' else ''.'' @ replicate k (CHR ''0'') @ natToString n) \<subseteq> numChars"
    for p k n
    using numChars_signs natToString_numChars r [of k] by simp
  show ?thesis
    unfolding toFixed_def Let_def set_append
    by (intro Un_least sign_numChars natToString_numChars f)
qed

lemma count_numberToString:
  "c \<notin> numChars \<Longrightarrow> count_list (numberToString v) c = 0"
  using numberToString_chars [of v] by (auto simp: count_list_0_iff)

lemma count_toFixed:
  "c \<notin> numChars \<Longrightarrow> count_list (toFixed v d) c = 0"
  using toFixed_chars [of v d] by (auto simp: count_list_0_iff)

lemma letters_not_numChars:
  "CHR ''M'' \<notin> numChars" "CHR ''L'' \<notin> numChars" "CHR ''A'' \<notin> numChars"
  "CHR ''Z'' \<notin> numChars" "CHR ''C'' \<notin> numChars" "CHR '' '' \<notin> numChars"
  "CHR '','' \<notin> numChars"
  by (simp_all add: numChars_def)

lemma count_list_join:
  "count_list sep c = 0 \<Longrightarrow> count_list (join sep xs) c = sum_list (map (\<lambda>s. count_list s c) xs)"
  by (induction sep xs rule: join.induct) simp_all

lemma set_join: "set (join sep xs) \<subseteq> set sep \<union> \<Union> (set ` set xs)"
  by (induction sep xs rule: join.induct) auto

text \<open>The equations that evaluate a path of the builder on concrete numbers.\<close>

lemmas evaluate_path =
  interpolate_def drawSideWithNotches_def notchStep_def moveTo_def lineTo_def
  newPathBuilder_def build_def numberToString_def round_js_def Math_round_def
  natToString.simps digitChar_def Let_def

lemma sum_list_const_upt: "sum_list (map (\<lambda>i. k) [0..<n]) = n * (k::nat)"
  by (induction n) simp_all

lemma join_append:
  "xs \<noteq> [] \<Longrightarrow> ys \<noteq> [] \<Longrightarrow> join sep (xs @ ys) = join sep xs @ sep @ join sep ys"
proof (induction sep xs rule: join.induct)
  case (1 sep)
  then show ?case by simp
next
  case (2 sep s)
  then show ?case by (cases ys) simp_all
next
  case (3 sep s t ts)
  then show ?case by simp
qed

subsection \<open>The commands of the path builder\<close>

lemma builderTokens_new: "builderTokens newPathBuilder"
  unfolding builderTokens_def newPathBuilder_def by (rule exI [of _ "[]"]) simp

lemma builderTokens_snoc:
  assumes "builderTokens b"
  shows "builderTokens (b @ [renderToken t])"
proof -
  from assms obtain toks where "b = map renderToken toks" unfolding builderTokens_def ..
  then have "b @ [renderToken t] = map renderToken (toks @ [t])" by simp
  then show ?thesis unfolding builderTokens_def ..
qed

lemma moveTo_token: "moveTo b p = b @ [renderToken (MoveTok (px p) (py p))]"
  by (simp add: moveTo_def coordText_def)

lemma lineTo_token: "lineTo b p = b @ [renderToken (LineTok (px p) (py p))]"
  by (simp add: lineTo_def coordText_def)

lemma arcTo_token:
  "arcTo b radius p largeArc sweep
     = b @ [renderToken (ArcTok radius largeArc sweep (px p) (py p))]"
  by (simp add: arcTo_def coordText_def flagText_def Let_def)

lemma closePath_token: "closePath b = b @ [renderToken CloseTok]"
  by (simp add: closePath_def)

lemma builderTokens_moveTo: "builderTokens b \<Longrightarrow> builderTokens (moveTo b p)"
  unfolding moveTo_token by (rule builderTokens_snoc)

lemma builderTokens_lineTo: "builderTokens b \<Longrightarrow> builderTokens (lineTo b p)"
  unfolding lineTo_token by (rule builderTokens_snoc)

lemma builderTokens_arcTo: "builderTokens b \<Longrightarrow> builderTokens (arcTo b r p l s)"
  unfolding arcTo_token by (rule builderTokens_snoc)

lemma builderTokens_closePath: "builderTokens b \<Longrightarrow> builderTokens (closePath b)"
  unfolding closePath_token by (rule builderTokens_snoc)

lemmas builderTokens_intros =
  builderTokens_new builderTokens_moveTo builderTokens_lineTo builderTokens_arcTo
  builderTokens_closePath

lemma builderTokens_foldl:
  assumes "\<And>b x. builderTokens b \<Longrightarrow> builderTokens (f b x)" "builderTokens b"
  shows "builderTokens (foldl f b xs)"
  using assms(2) by (induction xs arbitrary: b) (simp_all add: assms(1))

lemma builderTokens_notchStep:
  "builderTokens b \<Longrightarrow> builderTokens (notchStep start endPoint notchCount notchHalf ux uy b i)"
  unfolding notchStep_def Let_def by (intro builderTokens_intros)

lemma builderTokens_drawSideWithNotches:
  "builderTokens b \<Longrightarrow>
     builderTokens (drawSideWithNotches b start endPoint notchCount notchHalf segmentLength)"
  unfolding drawSideWithNotches_def Let_def
  by (auto intro: builderTokens_foldl builderTokens_notchStep)

lemma tokenPath_move_line:
  "tokenPath (build (lineTo (moveTo newPathBuilder p) q))"
  unfolding tokenPath_def build_def moveTo_token lineTo_token newPathBuilder_def
  by (rule exI [of _ "[MoveTok (px p) (py p), LineTok (px q) (py q)]"]) simp

lemma tokenPath_generateArc: "tokenPath (generateArc center radius a b)"
  unfolding tokenPath_def generateArc_def Let_def build_def moveTo_token arcTo_token
    newPathBuilder_def
  by (rule exI [of _ "[MoveTok (px (pointOnCircle center radius a)) (py (pointOnCircle center radius a)),
        ArcTok radius (pi < b - a) True (px (pointOnCircle center radius b))
          (py (pointOnCircle center radius b))]"]) simp

subsection \<open>Decimal numerals\<close>

lemma digit_cases: "d < 10 \<Longrightarrow> d = 0 \<or> d = 1 \<or> d = 2 \<or> d = 3 \<or> d = 4 \<or> d = 5 \<or> d = 6 \<or> d = 7 \<or> d = 8 \<or> d = (9::nat)"
  by arith

lemma digitValue_digitChar: "d < 10 \<Longrightarrow> digitValue (digitChar d) = d"
  using digit_cases [of d] by (auto simp: digitValue_def digitChar_def)

lemma isDigit_digitChar: "d < 10 \<Longrightarrow> isDigit (digitChar d)"
  unfolding isDigit_def by (rule digitChar_digit)

lemma natValue_snoc: "natValue (ds @ [c]) = 10 * natValue ds + digitValue c"
  by (simp add: natValue_def)

lemma natValue_natToString: "natValue (natToString n) = n"
proof (induction n rule: natToString.induct)
  case (1 n)
  show ?case
  proof (cases "n < 10")
    case True
    then show ?thesis
      by (subst natToString.simps) (simp add: natValue_def digitValue_digitChar)
  next
    case False
    with 1 have "natValue (natToString (n div 10)) = n div 10" by simp
    with False show ?thesis
      by (subst natToString.simps) (simp add: natValue_snoc digitValue_digitChar)
  qed
qed

lemma isNatural_natToString: "isNatural (natToString n)"
proof (induction n rule: natToString.induct)
  case (1 n)
  show ?case
  proof (cases "n < 10")
    case True
    then show ?thesis
      by (subst natToString.simps) (simp add: isNatural_def isDigit_digitChar)
  next
    case False
    with 1 have "isNatural (natToString (n div 10))" by simp
    with False show ?thesis
      by (subst natToString.simps) (simp add: isNatural_def isDigit_digitChar)
  qed
qed

lemma isDigit_not_point: "isDigit c \<Longrightarrow> c \<noteq> CHR ''.''"
  by (auto simp: isDigit_def)

lemma isDigit_not_minus: "isDigit c \<Longrightarrow> c \<noteq> CHR ''-''"
  by (auto simp: isDigit_def)

lemma isNatural_no_point: "isNatural ds \<Longrightarrow> CHR ''.'' \<notin> set ds"
  by (auto simp: isNatural_def list_all_iff dest: isDigit_not_point)

lemma isNatural_hd: "isNatural ds \<Longrightarrow> \<exists>c cs. ds = c # cs \<and> c \<noteq> CHR ''-''"
  by (cases ds) (auto simp: isNatural_def dest: isDigit_not_minus)

lemma natToString_digit: "d < 10 \<Longrightarrow> natToString d = [digitChar d]"
  by (subst natToString.simps) simp

lemma parts_no_point:
  assumes "CHR ''.'' \<notin> set w"
  shows "wholePart w = w" and "fracPart w = []"
proof -
  have a: "\<forall>c\<in>set w. c \<noteq> CHR ''.''" using assms by auto
  then have d: "dropWhile (\<lambda>c. c \<noteq> CHR ''.'') w = []" by (simp add: dropWhile_eq_Nil_conv)
  show "fracPart w = []" unfolding fracPart_def d by simp
  from a show "wholePart w = w" by (simp add: wholePart_def takeWhile_eq_all_conv)
qed

lemma parts_point:
  assumes "CHR ''.'' \<notin> set w"
  shows "wholePart (w @ CHR ''.'' # f) = w" and "fracPart (w @ CHR ''.'' # f) = f"
proof -
  have a: "\<forall>c\<in>set w. c \<noteq> CHR ''.''" using assms by auto
  show "wholePart (w @ CHR ''.'' # f) = w"
    unfolding wholePart_def using a by (simp add: takeWhile_append2)
  show "fracPart (w @ CHR ''.'' # f) = f"
    unfolding fracPart_def using a by (simp add: dropWhile_append2)
qed

lemma unsigned_whole:
  assumes "isNatural w"
  shows "isUnsigned2 w" and "unsignedValue w = real (natValue w)"
  using assms isNatural_no_point [OF assms]
  by (simp_all add: isUnsigned2_def unsignedValue_def parts_no_point natValue_def)

lemma unsigned_frac:
  assumes "isNatural w" "isNatural f" "length f \<le> 2"
  shows "isUnsigned2 (w @ ''.'' @ f)"
    and "unsignedValue (w @ ''.'' @ f) = real (natValue w) + real (natValue f) / 10 ^ length f"
  using assms isNatural_no_point [OF assms(1)]
  by (simp_all add: isUnsigned2_def unsignedValue_def parts_point)

lemma decimal_of_unsigned:
  assumes "isUnsigned2 u"
  shows "isDecimal2 u" and "decimalValue u = unsignedValue u"
    and "isDecimal2 (''-'' @ u)" and "decimalValue (''-'' @ u) = - unsignedValue u"
proof -
  from assms have "isNatural (wholePart u)" by (simp add: isUnsigned2_def)
  then obtain c cs where w: "wholePart u = c # cs" "c \<noteq> CHR ''-''"
    using isNatural_hd by blast
  then obtain us where u: "u = c # us"
    unfolding wholePart_def by (cases u) (auto split: if_splits)
  show "isDecimal2 u" using assms w(2) by (simp add: isDecimal2_def u)
  show "decimalValue u = unsignedValue u" using w(2) by (simp add: decimalValue_def u)
  show "isDecimal2 (''-'' @ u)" using assms by (simp add: isDecimal2_def)
  show "decimalValue (''-'' @ u) = - unsignedValue u" by (simp add: decimalValue_def)
qed

lemma unsignedText_ok:
  "isUnsigned2 (unsignedText a) \<and> unsignedValue (unsignedText a) = real a / 100"
proof -
  define w where "w = a div 100"
  define f where "f = a mod 100"
  have a: "a = 100 * w + f" by (simp add: w_def f_def)
  have f100: "f < 100" by (simp add: f_def)
  have d1: "f div 10 < 10" using f100 by simp
  have d2: "f mod 10 < 10" by simp
  have nw: "isNatural (natToString w)" by (rule isNatural_natToString)
  consider "f = 0" | "f \<noteq> 0" "f mod 10 = 0" | "f \<noteq> 0" "f mod 10 \<noteq> 0" by blast
  then show ?thesis
  proof cases
    case 1
    then have t: "unsignedText a = natToString w" by (simp add: unsignedText_def w_def f_def)
    show ?thesis unfolding t using unsigned_whole [OF nw] 1 a
      by (simp add: natValue_natToString)
  next
    case 2
    then have t: "unsignedText a = natToString w @ ''.'' @ natToString (f div 10)"
      by (simp add: unsignedText_def w_def f_def)
    have l: "length (natToString (f div 10)) \<le> 2" using d1 by (simp add: natToString_digit)
    have l1: "length (natToString (f div 10)) = 1" using d1 by (simp add: natToString_digit)
    have v: "real f = 10 * real (f div 10)" using 2(2)
      by (metis mod_eq_0_iff_dvd dvd_mult_div_cancel of_nat_mult of_nat_numeral)
    show ?thesis unfolding t
      using unsigned_frac [OF nw isNatural_natToString l] a v
      by (simp add: natValue_natToString l1)
  next
    case 3
    then have t: "unsignedText a = natToString w @ ''.'' @ (natToString (f div 10) @ natToString (f mod 10))"
      by (simp add: unsignedText_def w_def f_def)
    have s: "natToString (f div 10) @ natToString (f mod 10) = [digitChar (f div 10), digitChar (f mod 10)]"
      using d1 d2 by (simp add: natToString_digit)
    have n: "isNatural [digitChar (f div 10), digitChar (f mod 10)]"
      using d1 d2 by (simp add: isNatural_def isDigit_digitChar)
    have val: "natValue [digitChar (f div 10), digitChar (f mod 10)] = f"
      using d1 d2 by (simp add: natValue_def digitValue_digitChar)
    show ?thesis unfolding t s
      using unsigned_frac [OF nw n] a val by (simp add: natValue_natToString)
  qed
qed

lemma numberToString_unsignedText:
  "numberToString v = (if \<lfloor>v * 100\<rfloor> < 0 then ''-'' else '''') @ unsignedText (nat \<bar>\<lfloor>v * 100\<rfloor>\<bar>)"
  by (simp add: numberToString_def unsignedText_def Let_def)

lemma numberToString_decimal:
  "isDecimal2 (numberToString v)"
  "decimalValue (numberToString v) = real_of_int \<lfloor>v * 100\<rfloor> / 100"
proof -
  define k where "k = \<lfloor>v * 100\<rfloor>"
  note u = unsignedText_ok [of "nat \<bar>k\<bar>"]
  from u have u1: "isUnsigned2 (unsignedText (nat \<bar>k\<bar>))" by blast
  from u have u2: "unsignedValue (unsignedText (nat \<bar>k\<bar>)) = real (nat \<bar>k\<bar>) / 100" by blast
  note d = decimal_of_unsigned [OF u1]
  show "isDecimal2 (numberToString v)"
    unfolding numberToString_unsignedText k_def [symmetric] using d by (cases "k < 0") simp_all
  show "decimalValue (numberToString v) = real_of_int \<lfloor>v * 100\<rfloor> / 100"
    unfolding numberToString_unsignedText k_def [symmetric] using d u2 by (cases "k < 0") simp_all
qed

lemma rounds2_coordText: "rounds2 v (coordText v)"
proof -
  define m where "m = \<lfloor>v * 100 + 1 / 2\<rfloor>"
  have r: "round_js v 2 * 100 = real_of_int m"
    by (simp add: round_js_def Math_round_def Let_def m_def)
  have val: "decimalValue (coordText v) = real_of_int m / 100"
    unfolding coordText_def numberToString_decimal(2) r by simp
  have "real_of_int m \<le> v * 100 + 1 / 2" "v * 100 + 1 / 2 < real_of_int m + 1"
    unfolding m_def by linarith+
  then have "real_of_int m / 100 - v \<le> 1 / 200" "- (1 / 200) \<le> real_of_int m / 100 - v"
    by linarith+
  then have "\<bar>real_of_int m / 100 - v\<bar> \<le> 1 / 200" by linarith
  then show ?thesis
    unfolding rounds2_def val coordinateTolerance_def
    by (simp add: coordText_def numberToString_decimal(1))
qed

subsection \<open>Tokens of the path language\<close>

lemma moveToken_render: "moveToken x y (renderToken (MoveTok x y))"
  unfolding moveToken_def renderToken.simps
  by (intro exI conjI) (rule refl rounds2_coordText)+

lemma lineToken_render: "lineToken x y (renderToken (LineTok x y))"
  unfolding lineToken_def renderToken.simps
  by (intro exI conjI) (rule refl rounds2_coordText)+

lemma arcToken_render: "arcToken r largeArc sweep x y (renderToken (ArcTok r largeArc sweep x y))"
  unfolding arcToken_def renderToken.simps flagText_def
  by (intro exI conjI) (rule refl rounds2_coordText)+

lemma isPathToken_render: "isPathToken (renderToken t)"
proof (cases t)
  case (MoveTok x y)
  then show ?thesis unfolding isPathToken_def using moveToken_render by blast
next
  case (LineTok x y)
  then show ?thesis unfolding isPathToken_def using lineToken_render by blast
next
  case (ArcTok r l s x y)
  then show ?thesis unfolding isPathToken_def using arcToken_render by blast
next
  case CloseTok
  then show ?thesis by (simp add: isPathToken_def)
qed

lemma rendered_inPathLanguage: "inPathLanguage (join '' '' (map renderToken toks))"
  unfolding inPathLanguage_def
  by (rule exI [of _ "map renderToken toks"]) (simp add: list_all_iff isPathToken_render)

lemma build_inPathLanguage: "builderTokens b \<Longrightarrow> inPathLanguage (build b)"
  unfolding builderTokens_def build_def using rendered_inPathLanguage by blast

lemma tokenPath_inPathLanguage: "tokenPath p \<Longrightarrow> inPathLanguage p"
  unfolding tokenPath_def using rendered_inPathLanguage by blast

lemma join_tokenPaths:
  assumes "\<forall>p \<in> set ps. tokenPath p"
  shows "\<exists>toks. (ps \<noteq> [] \<longrightarrow> toks \<noteq> []) \<and> join '' '' ps = join '' '' (map renderToken toks)"
  using assms
proof (induction "'' ''" ps rule: join.induct)
  case 1
  show ?case by (rule exI [of _ "[]"]) simp
next
  case (2 s)
  then show ?case by (auto simp: tokenPath_def)
next
  case (3 s t ts)
  from 3(2) obtain ta where ta: "ta \<noteq> []" "s = join '' '' (map renderToken ta)"
    by (auto simp: tokenPath_def)
  from 3 obtain tb where tb: "tb \<noteq> []" "join '' '' (t # ts) = join '' '' (map renderToken tb)"
    by auto
  have "join '' '' (s # t # ts) = join '' '' (map renderToken (ta @ tb))"
    using ta tb by (simp add: join_append)
  moreover have "ta @ tb \<noteq> []" using ta by simp
  ultimately show ?case by blast
qed

lemma join_inPathLanguage:
  "\<forall>p \<in> set ps. tokenPath p \<Longrightarrow> inPathLanguage (join '' '' ps)"
  using join_tokenPaths [of ps] rendered_inPathLanguage by metis

lemma circleToPath_tokens:
  "circleToPath center radius = join '' ''
     [renderToken (MoveTok (px center) (py center - radius)),
      renderToken (ArcTok radius True True (px center) (py center + radius)),
      renderToken (ArcTok radius True True (px center) (py center - radius)),
      ''Z'']"
  unfolding circleToPath_def Let_def build_def closePath_def arcTo_token moveTo_token
    newPathBuilder_def
  by simp

lemma circleToPath_isCirclePath: "isCirclePath center radius (circleToPath center radius)"
  unfolding isCirclePath_def circleToPath_tokens
  by (intro exI conjI) (rule refl moveToken_render arcToken_render)+

lemma generateArc_tokens:
  "generateArc center radius a b = join '' ''
     [renderToken (MoveTok (px center + radius * cos a) (py center + radius * sin a)),
      renderToken (ArcTok radius (pi < b - a) True (px center + radius * cos b)
         (py center + radius * sin b))]"
  unfolding generateArc_def Let_def build_def arcTo_token moveTo_token newPathBuilder_def
  by (simp add: pointOnCircle_def)

lemma generateArc_isArcOfRing:
  "isArcOfRing center radius a sweep (generateArc center radius a (a + sweep))"
proof -
  have m: "0 < angleMargin" by (simp add: angleMargin_def)
  have f1: "sweep + angleMargin \<le> pi \<longrightarrow> \<not> pi < a + sweep - a" using m by simp
  have f2: "pi + angleMargin \<le> sweep \<longrightarrow> pi < a + sweep - a" using m by simp
  show ?thesis
    unfolding isArcOfRing_def generateArc_tokens
    by (intro exI conjI) (rule refl moveToken_render arcToken_render f1 f2)+
qed

lemma isNatural_chars: "isNatural ds \<Longrightarrow> set ds \<subseteq> numChars"
proof -
  assume "isNatural ds"
  then have "set ds \<subseteq> set ''0123456789''"
    unfolding isNatural_def list_all_iff isDigit_def by blast
  then show ?thesis using digits_numChars by (rule subset_trans)
qed

lemma isUnsigned2_chars:
  assumes "isUnsigned2 u"
  shows "set u \<subseteq> numChars"
proof -
  let ?P = "\<lambda>c. c \<noteq> CHR ''.''"
  have w: "set (takeWhile ?P u) \<subseteq> numChars"
    using assms isNatural_chars unfolding isUnsigned2_def wholePart_def by blast
  have d: "set (dropWhile ?P u) \<subseteq> numChars"
  proof (cases "CHR ''.'' \<in> set u")
    case False
    then have "\<forall>c\<in>set u. c \<noteq> CHR ''.''" by auto
    then have dn: "dropWhile ?P u = []" by (simp add: dropWhile_eq_Nil_conv)
    show ?thesis unfolding dn by simp
  next
    case True
    then have ne: "dropWhile ?P u \<noteq> []" by (auto simp: dropWhile_eq_Nil_conv)
    then have "hd (dropWhile ?P u) = CHR ''.''" using hd_dropWhile [of ?P u] by simp
    with ne have e: "dropWhile ?P u = CHR ''.'' # fracPart u"
      unfolding fracPart_def by (cases "dropWhile ?P u") simp_all
    from True assms have "set (fracPart u) \<subseteq> numChars"
      using isNatural_chars unfolding isUnsigned2_def by simp
    then show ?thesis unfolding e using numChars_signs by simp
  qed
  have "set u = set (takeWhile ?P u) \<union> set (dropWhile ?P u)"
    using takeWhile_dropWhile_id [of ?P u] set_append [of "takeWhile ?P u" "dropWhile ?P u"]
    by simp
  with w d show ?thesis by blast
qed

lemma isDecimal2_chars:
  assumes "isDecimal2 a"
  shows "set a \<subseteq> numChars"
proof (cases a)
  case Nil
  then show ?thesis by simp
next
  case (Cons c u)
  show ?thesis
  proof (cases "c = CHR ''-''")
    case True
    with assms Cons have "isUnsigned2 u" by (simp add: isDecimal2_def)
    then have "set u \<subseteq> numChars" by (rule isUnsigned2_chars)
    then show ?thesis unfolding Cons True using numChars_signs by simp
  next
    case False
    with assms Cons have "isUnsigned2 a" by (simp add: isDecimal2_def)
    then show ?thesis by (rule isUnsigned2_chars)
  qed
qed

lemma rounds2_chars: "rounds2 v a \<Longrightarrow> set a \<subseteq> pathChars"
  unfolding rounds2_def pathChars_def using isDecimal2_chars by blast

lemma pathChars_letters:
  "CHR ''M'' \<in> pathChars" "CHR ''L'' \<in> pathChars" "CHR ''A'' \<in> pathChars"
  "CHR ''Z'' \<in> pathChars" "CHR '' '' \<in> pathChars" "CHR '','' \<in> pathChars"
  "CHR ''0'' \<in> pathChars" "CHR ''1'' \<in> pathChars"
  by (simp_all add: pathChars_def)

lemma pathChars_not:
  "CHR ''C'' \<notin> pathChars" "CHR ''N'' \<notin> pathChars"
  by (simp_all add: pathChars_def numChars_def)

lemma moveToken_chars: "moveToken x y t \<Longrightarrow> set t \<subseteq> pathChars"
  unfolding moveToken_def using rounds2_chars pathChars_letters by fastforce

lemma lineToken_chars: "lineToken x y t \<Longrightarrow> set t \<subseteq> pathChars"
  unfolding lineToken_def using rounds2_chars pathChars_letters by fastforce

lemma arcToken_chars: "arcToken r l s x y t \<Longrightarrow> set t \<subseteq> pathChars"
proof -
  assume "arcToken r l s x y t"
  then obtain a b c d where t: "t = ''A'' @ a @ '','' @ b @ '' 0 '' @ (if l then ''1'' else ''0'') @ '',''
                      @ (if s then ''1'' else ''0'') @ '' '' @ c @ '','' @ d"
    and r: "rounds2 r a" "rounds2 r b" "rounds2 x c" "rounds2 y d"
    unfolding arcToken_def by blast
  have f: "set (if q then ''1'' else ''0'') \<subseteq> pathChars" for q
    using pathChars_letters by simp
  show ?thesis
    unfolding t set_append
    using r [THEN rounds2_chars] f [of l] f [of s] pathChars_letters
    by (intro Un_least) simp_all
qed

lemma isPathToken_chars: "isPathToken t \<Longrightarrow> set t \<subseteq> pathChars"
  unfolding isPathToken_def
  using moveToken_chars lineToken_chars arcToken_chars pathChars_letters by fastforce

lemma inPathLanguage_chars:
  assumes "inPathLanguage s"
  shows "set s \<subseteq> pathChars"
proof -
  from assms obtain ts where s: "s = join '' '' ts" and t: "list_all isPathToken ts"
    unfolding inPathLanguage_def by blast
  have "\<Union> (set ` set ts) \<subseteq> pathChars"
    using t isPathToken_chars by (auto simp: list_all_iff)
  moreover have "set '' '' \<subseteq> pathChars" using pathChars_letters by simp
  ultimately show ?thesis unfolding s using set_join [of "'' ''" ts] by blast
qed

subsection \<open>Ring generator\<close>

lemma generateRingPattern_lengths:
  "length (pat_rings (generateRingPattern config)) = length (pat_radii (generateRingPattern config))"
  by (simp add: generateRingPattern_def Let_def)

lemma twoRingsFourCuts_radii:
  "pat_radii (generateRingPattern twoRingsFourCuts) = [360, 342]"
  by (simp add: generateRingPattern_def twoRingsFourCuts_def mergeConfig_def DEFAULT_CONFIG_def
      calculateRadii_def calculateShrinkageRadii_def orElse_def Let_def eval_nat_numeral)

lemma generateRingWithCuts_circle:
  assumes "cutCount \<le> 0 \<or> 2 * pi / real_of_int cutCount - cutWidth / radius \<le> 0"
  shows "generateRingWithCuts center radius cutCount cutWidth rotation = circleToPath center radius"
proof (cases "cutCount \<le> 0")
  case True
  then show ?thesis by (simp add: generateRingWithCuts_def ringWithCuts_def)
next
  case False
  then have "0 < real_of_int cutCount" by simp
  then have pos: "0 < 2 * pi / real_of_int cutCount" by (intro divide_pos_pos) simp_all
  have "radius \<noteq> 0"
  proof
    assume "radius = 0"
    with assms False have "2 * pi / real_of_int cutCount \<le> 0" by simp
    with pos show False by linarith
  qed
  with assms False show ?thesis by (simp add: generateRingWithCuts_def ringWithCuts_def Let_def)
qed

lemma generateRingPattern_nth:
  assumes "i < length (pat_rings (generateRingPattern config))"
  shows "ring_index (pat_rings (generateRingPattern config) ! i) = i"
    and "ring_radius (pat_rings (generateRingPattern config) ! i)
           = pat_radii (generateRingPattern config) ! i"
    and "ring_pathData (pat_rings (generateRingPattern config) ! i) =
          (if i = 0 \<or> cfg_cutCount (mergeConfig config) \<le> 0
           then circleToPath (pat_center (generateRingPattern config))
                  (pat_radii (generateRingPattern config) ! i)
           else ringWithCuts (pat_center (generateRingPattern config))
                  (pat_radii (generateRingPattern config) ! i)
                  (cfg_cutCount (mergeConfig config)) (cfg_cutWidth (mergeConfig config))
                  (if cfg_gridDivisions (mergeConfig config) = 0 then None
                   else Some (calculateStaggeredRotation (int i)
                     (cfg_gridDivisions (mergeConfig config))
                     (cfg_staggerOffset (mergeConfig config)))))"
  using assms by (simp_all add: generateRingPattern_def Let_def)

lemma ringWithCuts_circle:
  assumes "0 < cutCount"
    and "radius = 0 \<and> 0 < cutWidth \<or> radius \<noteq> 0 \<and> 2 * pi / real_of_int cutCount - cutWidth / radius \<le> 0"
  shows "ringWithCuts center radius cutCount cutWidth rotation = circleToPath center radius"
  using assms by (auto simp: ringWithCuts_def Let_def)

lemma ringWithCuts_segmented:
  assumes "0 < cutCount" "radius \<noteq> 0" "0 < 2 * pi / real_of_int cutCount - cutWidth / radius"
  shows "isSegmentedRing center radius (nat cutCount) rot (2 * pi / real_of_int cutCount)
           (cutWidth / radius) (ringWithCuts center radius cutCount cutWidth (Some rot))"
proof -
  let ?seg = "2 * pi / real_of_int cutCount" and ?cut = "cutWidth / radius"
  define f where "f k = generateArc center radius (rot + real k * ?seg + ?cut / 2)
                       (rot + real k * ?seg + ?cut / 2 + (?seg - ?cut))" for k
  have r: "ringWithCuts center radius cutCount cutWidth (Some rot)
      = join '' '' (map f [0..<nat cutCount])"
    using assms unfolding ringWithCuts_def Let_def f_def by simp
  have a: "isArcOfRing center radius (rot + real k * ?seg + ?cut / 2) (?seg - ?cut)
      (map f [0..<nat cutCount] ! k)"
    if "k < nat cutCount" for k
  proof -
    from that have "map f [0..<nat cutCount] ! k = f k" by simp
    then show ?thesis unfolding f_def by (simp only: generateArc_isArcOfRing)
  qed
  show ?thesis
    unfolding isSegmentedRing_def r
    by (rule exI [of _ "map f [0..<nat cutCount]"]) (use a in simp)
qed

lemma staggered_rotation_nat:
  "calculateStaggeredRotation (int i) g s = (if even i then 0 else s * (2 * pi / g))"
  by (simp add: calculateStaggeredRotation_def Let_def js_rem_2_zero_iff)

lemma twoRingsFourCuts_config:
  "cfg_cutCount (mergeConfig twoRingsFourCuts) = 4"
  "cfg_cutWidth (mergeConfig twoRingsFourCuts) = 8"
  "cfg_gridDivisions (mergeConfig twoRingsFourCuts) = 16"
  "cfg_staggerOffset (mergeConfig twoRingsFourCuts) = 1"
  "pat_center (generateRingPattern twoRingsFourCuts) = \<lparr>px = 360, py = 360\<rparr>"
  by (simp_all add: generateRingPattern_def twoRingsFourCuts_def mergeConfig_def
      DEFAULT_CONFIG_def Let_def)

lemma twoRingsWideCuts_config:
  "cfg_cutCount (mergeConfig twoRingsWideCuts) = 4"
  "cfg_cutWidth (mergeConfig twoRingsWideCuts) = 1000"
  "cfg_gridDivisions (mergeConfig twoRingsWideCuts) = 16"
  "cfg_staggerOffset (mergeConfig twoRingsWideCuts) = 1"
  "pat_center (generateRingPattern twoRingsWideCuts) = \<lparr>px = 360, py = 360\<rparr>"
  "pat_radii (generateRingPattern twoRingsWideCuts) = [360, 342]"
  by (simp_all add: generateRingPattern_def twoRingsWideCuts_def mergeConfig_def
      DEFAULT_CONFIG_def Let_def calculateRadii_def calculateShrinkageRadii_def orElse_def
      eval_nat_numeral)

lemma twoRingsNoGrid_config:
  "cfg_cutCount (mergeConfig twoRingsNoGrid) = 4"
  "cfg_cutWidth (mergeConfig twoRingsNoGrid) = 8"
  "cfg_gridDivisions (mergeConfig twoRingsNoGrid) = 0"
  "pat_center (generateRingPattern twoRingsNoGrid) = \<lparr>px = 360, py = 360\<rparr>"
  "pat_radii (generateRingPattern twoRingsNoGrid) = [360, 342]"
  by (simp_all add: generateRingPattern_def twoRingsNoGrid_def mergeConfig_def
      DEFAULT_CONFIG_def Let_def calculateRadii_def calculateShrinkageRadii_def orElse_def
      eval_nat_numeral)

lemma nonFiniteArc_342: "nonFiniteArc 342 = ''MNaN,NaN A342,342 0 0,1 NaN,NaN''"
  by (simp add: nonFiniteArc_def numberToString_def round_js_def Math_round_def
      natToString.simps digitChar_def Let_def)

text \<open>
  Claim C3 (as amended). In generateRingPattern, the ring at index 0 is the full circle
  about the centre with the radius of the ring (a move to the top of the circle, two
  half-circle arcs and the closing command), whatever cutCount is. A ring at index >= 1
  with cutCount > 0 is that full circle when its radius is 0 or its arc angle
  2 * pi / cutCount - cutWidth / radius is not positive; otherwise it is segmented into
  exactly cutCount arcs of its circle, joined by single spaces, arc k running from the
  angle rotation + k * 2 * pi / cutCount + cutWidth / radius / 2 over the arc angle, where
  rotation is 0 for an even index and staggerOffset * (2 * pi / gridDivisions) for an odd
  one. Every number of these paths is printed rounded to 2 decimal places. This holds for
  inputs in the working range: centre and radius of magnitude at most 10000, a cut width
  from 0 to 10000, a radius of at least 0.0001 (or the radius 0 with a positive cut
  width), at least one grid division in magnitude and a stagger offset of magnitude at
  most 10000. Where the arc angle is within a millionth of 0, rounding decides in the
  source between the two forms, and the statement says only that the ring has one of
  them; where it is within a millionth of pi the large-arc flag is left open.
\<close>

theorem generateRingPattern_ring_geometry:
  assumes "i < length (pat_rings (generateRingPattern config))"
  shows "let cfg = mergeConfig config;
             pat = generateRingPattern config;
             ring = pat_rings pat ! i;
             center = pat_center pat;
             radius = ring_radius ring;
             path = ring_pathData ring;
             cutCount = cfg_cutCount cfg;
             cutAngle = cfg_cutWidth cfg / radius;
             segmentAngle = 2 * pi / real_of_int cutCount;
             arcAngle = segmentAngle - cutAngle;
             rotation = (if even i then 0
                         else cfg_staggerOffset cfg * (2 * pi / cfg_gridDivisions cfg))
         in ring_index ring = i
          \<and> radius = pat_radii pat ! i
          \<and> (i = 0 \<and> circleInRange center radius \<longrightarrow> isCirclePath center radius path)
          \<and> (1 \<le> i \<and> 0 < cutCount \<and> circleInRange center radius
               \<and> cutsInRange radius (cfg_cutWidth cfg)
               \<and> gridInRange (cfg_gridDivisions cfg) (cfg_staggerOffset cfg) \<longrightarrow>
               (radius = 0 \<or> arcAngle + angleMargin \<le> 0 \<longrightarrow> isCirclePath center radius path)
               \<and> (radius \<noteq> 0 \<and> angleMargin \<le> arcAngle \<longrightarrow>
                    isSegmentedRing center radius (nat cutCount) rotation segmentAngle cutAngle path)
               \<and> (isCirclePath center radius path
                    \<or> isSegmentedRing center radius (nat cutCount) rotation segmentAngle cutAngle
                         path))"
proof -
  define cfg where "cfg = mergeConfig config"
  define pat where "pat = generateRingPattern config"
  define center where "center = pat_center pat"
  define radius where "radius = pat_radii pat ! i"
  define path where "path = ring_pathData (pat_rings pat ! i)"
  define cutCount where "cutCount = cfg_cutCount cfg"
  define cutAngle where "cutAngle = cfg_cutWidth cfg / radius"
  define segmentAngle where "segmentAngle = 2 * pi / real_of_int cutCount"
  define rotation where "rotation = (if even i then 0
      else cfg_staggerOffset cfg * (2 * pi / cfg_gridDivisions cfg))"
  note n0 = generateRingPattern_nth [OF assms, folded pat_def cfg_def]
  note n = n0 [folded center_def radius_def]
  have m: "0 < angleMargin" by (simp add: angleMargin_def)
  have rad: "ring_radius (pat_rings pat ! i) = radius" using n(2) by (simp add: radius_def)
  have p0: "path = circleToPath center radius" if "i = 0"
    using that n(3) by (simp add: path_def center_def radius_def)
  have c0: "i = 0 \<and> circleInRange center radius \<longrightarrow> isCirclePath center radius path"
    using p0 circleToPath_isCirclePath by simp
  have cuts: "(radius = 0 \<or> segmentAngle - cutAngle + angleMargin \<le> 0 \<longrightarrow>
                 isCirclePath center radius path)
            \<and> (radius \<noteq> 0 \<and> angleMargin \<le> segmentAngle - cutAngle \<longrightarrow>
                 isSegmentedRing center radius (nat cutCount) rotation segmentAngle cutAngle path)
            \<and> (isCirclePath center radius path
                 \<or> isSegmentedRing center radius (nat cutCount) rotation segmentAngle cutAngle path)"
    if i: "1 \<le> i" and cc: "0 < cutCount" and cr: "cutsInRange radius (cfg_cutWidth cfg)"
      and gr: "gridInRange (cfg_gridDivisions cfg) (cfg_staggerOffset cfg)"
  proof -
    have g: "cfg_gridDivisions cfg \<noteq> 0" using gr by (auto simp: gridInRange_def)
    have p: "path = ringWithCuts center radius cutCount (cfg_cutWidth cfg) (Some rotation)"
      using i cc g n(3)
      by (simp add: path_def cutCount_def rotation_def staggered_rotation_nat)
    have circ: "isCirclePath center radius path"
      if "radius = 0 \<or> segmentAngle - cutAngle \<le> 0"
    proof -
      from that cr have
        "radius = 0 \<and> 0 < cfg_cutWidth cfg
         \<or> radius \<noteq> 0 \<and> 2 * pi / real_of_int cutCount - cfg_cutWidth cfg / radius \<le> 0"
        by (auto simp: cutsInRange_def segmentAngle_def cutAngle_def)
      from ringWithCuts_circle [OF cc this] show ?thesis
        unfolding p by (simp add: circleToPath_isCirclePath)
    qed
    have segm: "isSegmentedRing center radius (nat cutCount) rotation segmentAngle cutAngle path"
      if "radius \<noteq> 0" "0 < segmentAngle - cutAngle"
      unfolding p segmentAngle_def cutAngle_def
      by (rule ringWithCuts_segmented [OF cc that(1)])
        (use that(2) in \<open>simp add: segmentAngle_def cutAngle_def\<close>)
    have a: "radius = 0 \<or> segmentAngle - cutAngle + angleMargin \<le> 0 \<longrightarrow>
        isCirclePath center radius path"
      using circ m by auto
    have b: "radius \<noteq> 0 \<and> angleMargin \<le> segmentAngle - cutAngle \<longrightarrow>
        isSegmentedRing center radius (nat cutCount) rotation segmentAngle cutAngle path"
      using segm m by auto
    have c: "isCirclePath center radius path
        \<or> isSegmentedRing center radius (nat cutCount) rotation segmentAngle cutAngle path"
      using circ segm by (cases "radius = 0 \<or> segmentAngle - cutAngle \<le> 0") auto
    from a b c show ?thesis by blast
  qed
  have c1: "1 \<le> i \<and> 0 < cutCount \<and> circleInRange center radius
        \<and> cutsInRange radius (cfg_cutWidth cfg)
        \<and> gridInRange (cfg_gridDivisions cfg) (cfg_staggerOffset cfg) \<longrightarrow>
      (radius = 0 \<or> segmentAngle - cutAngle + angleMargin \<le> 0 \<longrightarrow>
                 isCirclePath center radius path)
            \<and> (radius \<noteq> 0 \<and> angleMargin \<le> segmentAngle - cutAngle \<longrightarrow>
                 isSegmentedRing center radius (nat cutCount) rotation segmentAngle cutAngle path)
            \<and> (isCirclePath center radius path
                 \<or> isSegmentedRing center radius (nat cutCount) rotation segmentAngle cutAngle path)"
    using cuts by blast
  have idx: "ring_index (pat_rings pat ! i) = i" using n(1) .
  show ?thesis
    unfolding Let_def pat_def [symmetric] cfg_def [symmetric] rad center_def [symmetric]
      path_def [symmetric] cutCount_def [symmetric] cutAngle_def [symmetric]
      segmentAngle_def [symmetric] rotation_def [symmetric]
    by (intro conjI) (rule idx radius_def c0 c1)+
qed

theorem generateRingPattern_ring_geometry_witness:
  "0 < length (pat_rings (generateRingPattern twoRingsFourCuts))
   \<and> 1 < length (pat_rings (generateRingPattern twoRingsFourCuts))
   \<and> circleInRange \<lparr>px = 360, py = 360\<rparr> 360
   \<and> circleInRange \<lparr>px = 360, py = 360\<rparr> 342
   \<and> cutsInRange 342 8
   \<and> gridInRange 16 1
   \<and> isCirclePath \<lparr>px = 360, py = 360\<rparr> 360
        (ring_pathData (pat_rings (generateRingPattern twoRingsFourCuts) ! 0))
   \<and> isSegmentedRing \<lparr>px = 360, py = 360\<rparr> 342 4 (2 * pi / 16) (2 * pi / 4) (8 / 342)
        (ring_pathData (pat_rings (generateRingPattern twoRingsFourCuts) ! 1))
   \<and> 1 < length (pat_rings (generateRingPattern twoRingsWideCuts))
   \<and> cutsInRange 342 1000
   \<and> isCirclePath \<lparr>px = 360, py = 360\<rparr> 342
        (ring_pathData (pat_rings (generateRingPattern twoRingsWideCuts) ! 1))"
proof -
  have len: "length (pat_rings (generateRingPattern twoRingsFourCuts)) = 2"
    by (simp add: generateRingPattern_lengths twoRingsFourCuts_radii)
  have h0: "0 < length (pat_rings (generateRingPattern twoRingsFourCuts))"
    and h1: "1 < length (pat_rings (generateRingPattern twoRingsFourCuts))"
    by (simp_all add: len)
  have r0: "circleInRange \<lparr>px = 360, py = 360\<rparr> 360"
    and r1: "circleInRange \<lparr>px = 360, py = 360\<rparr> 342"
    and r2: "cutsInRange 342 8" and r3: "gridInRange 16 1"
    by (simp_all add: circleInRange_def cutsInRange_def gridInRange_def inRange_def)
  have "(1::real) \<le> pi / 2" using pi_ge_two by simp
  then have pos: "angleMargin \<le> 2 * pi / real_of_int 4 - 8 / 342"
    by (simp add: angleMargin_def)
  note c = twoRingsFourCuts_config
  have g0: "isCirclePath \<lparr>px = 360, py = 360\<rparr> 360
        (ring_pathData (pat_rings (generateRingPattern twoRingsFourCuts) ! 0))"
    using generateRingPattern_ring_geometry [OF h0] r0
    by (auto simp: Let_def c twoRingsFourCuts_radii)
  have g1: "isSegmentedRing \<lparr>px = 360, py = 360\<rparr> 342 4 (2 * pi / 16) (2 * pi / 4) (8 / 342)
        (ring_pathData (pat_rings (generateRingPattern twoRingsFourCuts) ! 1))"
    using generateRingPattern_ring_geometry [OF h1] r1 r2 r3 pos
    by (auto simp: Let_def c twoRingsFourCuts_radii)
  have w1: "1 < length (pat_rings (generateRingPattern twoRingsWideCuts))"
    by (simp add: generateRingPattern_lengths twoRingsWideCuts_config)
  have w2: "cutsInRange 342 1000"
    by (simp add: cutsInRange_def inRange_def)
  have "pi / 2 \<le> (2::real)" using pi_less_4 by simp
  then have neg: "2 * pi / real_of_int 4 - 1000 / 342 + angleMargin \<le> 0"
    by (simp add: angleMargin_def)
  have g2: "isCirclePath \<lparr>px = 360, py = 360\<rparr> 342
        (ring_pathData (pat_rings (generateRingPattern twoRingsWideCuts) ! 1))"
    using generateRingPattern_ring_geometry [OF w1] r1 w2 r3 neg
    by (auto simp: Let_def twoRingsWideCuts_config)
  from h0 h1 r0 r1 r2 r3 g0 g1 w1 w2 g2 show ?thesis by blast
qed

text \<open>
  Without a grid (gridDivisions 0) the rotation of the source is not a finite number and
  the arcs of a ring with cuts have NaN coordinates, although the arc angle is positive:
  the second ring of the pattern of two rings and four cuts is not a path of arcs.
\<close>

theorem ring_without_grid_is_not_arcs:
  "ring_pathData (pat_rings (generateRingPattern twoRingsNoGrid) ! 1)
     = ''MNaN,NaN A342,342 0 0,1 NaN,NaN MNaN,NaN A342,342 0 0,1 NaN,NaN MNaN,NaN A342,342 0 0,1 NaN,NaN MNaN,NaN A342,342 0 0,1 NaN,NaN''
   \<and> 0 < 2 * pi / 4 - 8 / (342::real)
   \<and> \<not> inPathLanguage (ring_pathData (pat_rings (generateRingPattern twoRingsNoGrid) ! 1))"
proof -
  have len: "1 < length (pat_rings (generateRingPattern twoRingsNoGrid))"
    by (simp add: generateRingPattern_lengths twoRingsNoGrid_config)
  have "(1::real) \<le> pi / 2" using pi_ge_two by simp
  then have pos: "0 < 2 * pi / 4 - 8 / (342::real)" by simp
  have u: "[0..<nat 4] = [0, 1, 2, 3]" by (simp add: upt_rec)
  have "ring_pathData (pat_rings (generateRingPattern twoRingsNoGrid) ! 1)
      = ringWithCuts \<lparr>px = 360, py = 360\<rparr> 342 4 8 None"
    using generateRingPattern_nth(3) [OF len] by (simp add: twoRingsNoGrid_config)
  also have "\<dots> = join '' '' (map (\<lambda>i. nonFiniteArc 342) [0..<nat 4])"
    using pos by (simp add: ringWithCuts_def Let_def)
  also have "\<dots> = ''MNaN,NaN A342,342 0 0,1 NaN,NaN MNaN,NaN A342,342 0 0,1 NaN,NaN MNaN,NaN A342,342 0 0,1 NaN,NaN MNaN,NaN A342,342 0 0,1 NaN,NaN''"
    unfolding u nonFiniteArc_342 by simp
  finally have p: "ring_pathData (pat_rings (generateRingPattern twoRingsNoGrid) ! 1)
     = ''MNaN,NaN A342,342 0 0,1 NaN,NaN MNaN,NaN A342,342 0 0,1 NaN,NaN MNaN,NaN A342,342 0 0,1 NaN,NaN MNaN,NaN A342,342 0 0,1 NaN,NaN''" .
  have "CHR ''N'' \<in> set (ring_pathData (pat_rings (generateRingPattern twoRingsNoGrid) ! 1))"
    unfolding p by simp
  then have n: "\<not> inPathLanguage (ring_pathData (pat_rings (generateRingPattern twoRingsNoGrid) ! 1))"
    using inPathLanguage_chars pathChars_not by blast
  from p pos n show ?thesis by blast
qed

subsection \<open>Spiral generator\<close>

lemma spiralPoints_length:
  "length (spiralPoints center innerRadius outerRadius startAngle turns spiralType growthFactor)
     = nat (\<lceil>turns * 32\<rceil> + 1)"
  by (simp add: spiralPoints_def Let_def)

lemma bezierSegment_counts:
  "count_list (bezierSegment points i) (CHR ''C'') = 1"
  "count_list (bezierSegment points i) (CHR ''M'') = 0"
  "count_list (bezierSegment points i) (CHR ''L'') = 0"
  by (simp_all add: bezierSegment_def Let_def count_toFixed letters_not_numChars)

lemma pointsToBezierPath_short:
  "length points < 2 \<Longrightarrow> pointsToBezierPath points = ''''"
  by (simp add: pointsToBezierPath_def)

lemma pointsToBezierPath_two:
  assumes "length points = 2"
  shows "count_list (pointsToBezierPath points) (CHR ''M'') = 1"
    and "count_list (pointsToBezierPath points) (CHR ''L'') = 1"
    and "count_list (pointsToBezierPath points) (CHR ''C'') = 0"
  using assms
  by (simp_all add: pointsToBezierPath_def count_toFixed letters_not_numChars)

lemma pointsToBezierPath_spline:
  assumes "3 \<le> length points"
  shows "count_list (pointsToBezierPath points) (CHR ''M'') = 1"
    and "count_list (pointsToBezierPath points) (CHR ''L'') = 0"
    and "count_list (pointsToBezierPath points) (CHR ''C'') = length points - 1"
    and "take 2 (pointsToBezierPath points) = ''M ''"
proof -
  from assms have ne: "\<not> length points < 2" "length points \<noteq> 2" by simp_all
  have eq: "pointsToBezierPath points =
      join '' '' ((''M '' @ toFixed (px (points ! 0)) 3 @ '' '' @ toFixed (py (points ! 0)) 3)
             # map (bezierSegment points) [0..<length points - 1])"
    using ne by (simp add: pointsToBezierPath_def)
  have sp: "count_list '' '' c = 0" if "c \<noteq> CHR '' ''" for c
    using that by simp
  show "count_list (pointsToBezierPath points) (CHR ''M'') = 1"
    unfolding eq
    by (simp add: count_list_join count_toFixed letters_not_numChars bezierSegment_counts comp_def)
  show "count_list (pointsToBezierPath points) (CHR ''L'') = 0"
    unfolding eq
    by (simp add: count_list_join count_toFixed letters_not_numChars bezierSegment_counts comp_def)
  show "count_list (pointsToBezierPath points) (CHR ''C'') = length points - 1"
    unfolding eq
    by (simp add: count_list_join count_toFixed letters_not_numChars bezierSegment_counts comp_def
        sum_list_const_upt)
  obtain k where k: "length points - 1 = Suc k"
    using assms by (cases "length points - 1") auto
  show "take 2 (pointsToBezierPath points) = ''M ''"
    unfolding eq k by (simp add: upt_conv_Cons del: upt_Suc)
qed

text \<open>
  Claim C6 (as amended). A spiral arm has ceil(turns * 32) segments and one sample per
  segment end: ceil(turns * 32) + 1 sampled points when that number is positive, and none
  otherwise. With fewer than 2 samples generateSpiralArm returns the empty string; with
  exactly 2 samples one move and one line command and no cubic command; with n >= 3
  samples a path that starts with the move command and holds one move command, no line
  command and exactly n - 1 cubic commands.
\<close>

theorem generateSpiralArm_samples_and_commands:
  "let points = spiralPoints center innerRadius outerRadius startAngle turns spiralType growthFactor;
       n = length points;
       path = generateSpiralArm center innerRadius outerRadius startAngle turns spiralType growthFactor
   in n = nat (\<lceil>turns * 32\<rceil> + 1)
    \<and> path = pointsToBezierPath points
    \<and> (n < 2 \<longrightarrow> path = '''')
    \<and> (n = 2 \<longrightarrow> count_list path (CHR ''M'') = 1 \<and> count_list path (CHR ''L'') = 1
                  \<and> count_list path (CHR ''C'') = 0)
    \<and> (3 \<le> n \<longrightarrow> take 2 path = ''M '' \<and> count_list path (CHR ''M'') = 1
                  \<and> count_list path (CHR ''L'') = 0 \<and> count_list path (CHR ''C'') = n - 1)"
  unfolding Let_def generateSpiralArm_def
  using spiralPoints_length pointsToBezierPath_short pointsToBezierPath_two
    pointsToBezierPath_spline
  by (intro conjI impI) blast+

theorem generateSpiralArm_samples_and_commands_witness:
  "length (spiralPoints \<lparr>px = 360, py = 360\<rparr> 10 360 0 3 Logarithmic 0.2) = 97
   \<and> count_list (generateSpiralArm \<lparr>px = 360, py = 360\<rparr> 10 360 0 3 Logarithmic 0.2) (CHR ''M'') = 1
   \<and> count_list (generateSpiralArm \<lparr>px = 360, py = 360\<rparr> 10 360 0 3 Logarithmic 0.2) (CHR ''C'') = 96
   \<and> generateSpiralArm \<lparr>px = 360, py = 360\<rparr> 10 360 0 0 Logarithmic 0.2 = ''''"
proof -
  have c: "nat (\<lceil>(3::real) * 32\<rceil> + 1) = 97" "nat (\<lceil>(0::real) * 32\<rceil> + 1) = 1" by simp_all
  note t3 = generateSpiralArm_samples_and_commands
    [of "\<lparr>px = 360, py = 360\<rparr>" 10 360 0 3 Logarithmic "0.2", unfolded Let_def]
  note t0 = generateSpiralArm_samples_and_commands
    [of "\<lparr>px = 360, py = 360\<rparr>" 10 360 0 0 Logarithmic "0.2", unfolded Let_def]
  from t3 have n3: "length (spiralPoints \<lparr>px = 360, py = 360\<rparr> 10 360 0 3 Logarithmic 0.2) = 97"
    unfolding c by blast
  from t0 have n0: "length (spiralPoints \<lparr>px = 360, py = 360\<rparr> 10 360 0 0 Logarithmic 0.2) = 1"
    unfolding c by blast
  from t3 [unfolded n3] have a: "count_list (generateSpiralArm \<lparr>px = 360, py = 360\<rparr> 10 360 0 3 Logarithmic 0.2) (CHR ''M'') = 1"
    and b: "count_list (generateSpiralArm \<lparr>px = 360, py = 360\<rparr> 10 360 0 3 Logarithmic 0.2) (CHR ''C'') = 96"
    by auto
  from t0 [unfolded n0] have e: "generateSpiralArm \<lparr>px = 360, py = 360\<rparr> 10 360 0 0 Logarithmic 0.2 = ''''"
    by auto
  from n3 a b e show ?thesis by blast
qed

text \<open>
  One turn is cut into 32 segments and sampled at 33 points, not at 32.
\<close>

theorem spiral_samples_one_more_than_segments:
  "length (spiralPoints \<lparr>px = 360, py = 360\<rparr> 10 360 0 1 Archimedean 0.2) = 33
   \<and> \<lceil>(1::real) * 32\<rceil> = (32::int)"
  by (simp add: spiralPoints_length)

subsection \<open>The path mini-language\<close>

lemma C_in_spline: "3 \<le> length points \<Longrightarrow> CHR ''C'' \<in> set (pointsToBezierPath points)"
proof -
  assume "3 \<le> length points"
  then have "count_list (pointsToBezierPath points) (CHR ''C'') \<noteq> 0"
    by (simp add: pointsToBezierPath_spline(3))
  then show ?thesis by (simp add: count_list_0_iff)
qed

lemma circleToPath_inPathLanguage: "inPathLanguage (circleToPath center radius)"
  unfolding circleToPath_def Let_def
  by (intro build_inPathLanguage builderTokens_intros)

lemma ringWithCuts_inPathLanguage:
  assumes "radius = 0 \<and> 0 < cutWidth \<or> radius \<noteq> 0"
  shows "inPathLanguage (ringWithCuts center radius cutCount cutWidth (Some rotation))"
  using assms unfolding ringWithCuts_def Let_def
  by (auto intro!: circleToPath_inPathLanguage join_inPathLanguage tokenPath_generateArc)

lemma cutsInRange_radius: "cutsInRange radius cutWidth \<Longrightarrow> radius = 0 \<and> 0 < cutWidth \<or> radius \<noteq> 0"
  by (auto simp: cutsInRange_def)

lemma generateRingWithCuts_inPathLanguage:
  "cutsInRange radius cutWidth \<Longrightarrow>
     inPathLanguage (generateRingWithCuts center radius cutCount cutWidth rotation)"
  unfolding generateRingWithCuts_def
  by (rule ringWithCuts_inPathLanguage) (rule cutsInRange_radius)

lemma generateRingPattern_inPathLanguage:
  assumes "ringPatternInRange config" "ring \<in> set (pat_rings (generateRingPattern config))"
  shows "inPathLanguage (ring_pathData ring)"
proof -
  from assms(2) obtain i where i: "i < length (pat_rings (generateRingPattern config))"
    and r: "ring = pat_rings (generateRingPattern config) ! i"
    by (auto simp: in_set_conv_nth)
  from i have "pat_radii (generateRingPattern config) ! i \<in> set (pat_radii (generateRingPattern config))"
    by (simp add: generateRingPattern_lengths)
  with assms(1) have c: "cutsInRange (pat_radii (generateRingPattern config) ! i)
      (cfg_cutWidth (mergeConfig config))"
    by (auto simp: ringPatternInRange_def Let_def list_all_iff)
  from assms(1) have g: "cfg_gridDivisions (mergeConfig config) \<noteq> 0"
    by (auto simp: ringPatternInRange_def Let_def gridInRange_def)
  show ?thesis
    unfolding r generateRingPattern_nth(3) [OF i]
    using g ringWithCuts_inPathLanguage [OF cutsInRange_radius [OF c]]
    by (simp add: circleToPath_inPathLanguage)
qed

lemma outerBoundary_inPathLanguage:
  "pat_outerBoundary (generateRingPattern config) = Some b \<Longrightarrow> inPathLanguage b"
  by (auto simp: generateRingPattern_def Let_def circleToPath_inPathLanguage split: if_splits)

lemma generateHalfCircleRings_inPathLanguage:
  "halfRingsInRange center radii bridgeWidth \<Longrightarrow>
     p \<in> set (generateHalfCircleRings center radii bridgeWidth topHalf) \<Longrightarrow> inPathLanguage p"
  by (auto simp: generateHalfCircleRings_def Let_def
      intro!: tokenPath_inPathLanguage tokenPath_generateArc)

lemma generateBridgeConnectors_inPathLanguage:
  "p \<in> set (generateBridgeConnectors center innerRadius outerRadius count startAngle)
     \<Longrightarrow> inPathLanguage p"
  by (auto simp: generateBridgeConnectors_def Let_def
      intro!: tokenPath_inPathLanguage tokenPath_move_line)

lemma generateSquare_inPathLanguage:
  "inPathLanguage (generateSquare center sz rotationDeg clockwise)"
  unfolding generateSquare_def Let_def
  by (auto intro!: build_inPathLanguage builderTokens_intros)

lemma generateSquareWithNotches_inPathLanguage:
  "notchedSquareInRange center sz notchWidth \<Longrightarrow>
     inPathLanguage
       (generateSquareWithNotches center sz rotationDeg clockwise notchesPerSide notchWidth)"
  unfolding generateSquareWithNotches_def squareWithNotchesCommands_def Let_def
  by (auto intro!: build_inPathLanguage builderTokens_drawSideWithNotches builderTokens_intros)

lemma generatePolygon_inPathLanguage:
  "generatePolygon center radius sides rotationDeg = Inr s \<Longrightarrow> inPathLanguage s"
  unfolding generatePolygon_def Let_def
  by (auto split: list.splits
      intro!: build_inPathLanguage builderTokens_intros builderTokens_foldl)

lemma edgePaths_tokenPath:
  "p \<in> set (edgePaths startVertex endVertex bridgesPerEdge bridgeGap) \<Longrightarrow> tokenPath p"
  unfolding edgePaths_def Let_def
  by (auto split: if_splits intro: tokenPath_move_line)

lemma generatePolygonWithBridges_inPathLanguage:
  "bridgedPolygonInRange center radius sides bridgeWidth \<Longrightarrow>
     inPathLanguage
       (generatePolygonWithBridges center radius sides rotationDeg bridgeCount bridgeWidth)"
  unfolding generatePolygonWithBridges_def Let_def
  by (rule join_inPathLanguage) (auto dest: edgePaths_tokenPath)

lemma spline_not_inPathLanguage:
  assumes "3 \<le> length points"
  shows "\<not> inPathLanguage (pointsToBezierPath points)"
  using C_in_spline [OF assms] inPathLanguage_chars pathChars_not by blast

lemma tokens_inPathLanguage: "list_all isPathToken b \<Longrightarrow> inPathLanguage (build b)"
  unfolding inPathLanguage_def build_def by blast

lemma moveTo_moveToken: "\<exists>t. moveTo b p = b @ [t] \<and> moveToken (px p) (py p) t"
  unfolding moveTo_token using moveToken_render by blast

lemma lineTo_lineToken: "\<exists>t. lineTo b p = b @ [t] \<and> lineToken (px p) (py p) t"
  unfolding lineTo_token using lineToken_render by blast

lemma arcTo_arcToken:
  "\<exists>t. arcTo b r p largeArc sweep = b @ [t] \<and> arcToken r largeArc sweep (px p) (py p) t"
  unfolding arcTo_token using arcToken_render by blast

lemma twoRingsFourCuts_inRange: "ringPatternInRange twoRingsFourCuts"
  unfolding ringPatternInRange_def Let_def twoRingsFourCuts_config twoRingsFourCuts_radii
  by (simp add: circleInRange_def cutsInRange_def gridInRange_def inRange_def
      mergeConfig_def twoRingsFourCuts_def DEFAULT_CONFIG_def)

text \<open>
  Claim C5 (as amended). Every command the path builder writes is a token of the path
  language: moveTo writes M x,y, lineTo writes L x,y, arcTo writes
  A r,r 0 largeArcFlag,sweepFlag x,y and closePath writes Z, every number being a decimal
  numeral with at most two decimals that gives the coordinate rounded to 2 decimal places;
  build joins the commands by single spaces. So every path string built through the path
  builder, that is every path of the ring, square and polygon generators (full circles,
  rings with cuts, the rings and the outer boundary of a ring pattern, half-circle rings,
  bridge connectors, squares, squares with notches, polygons, polygons with bridges), is a
  path of the language, for inputs in the working range: lengths and coordinates of
  magnitude at most 10000, a cut width that is not negative, the radius of a ring with
  cuts at least 0.0001 (or 0 with a positive cut width), and the other divisors of the
  source (the radius of a half-circle ring, the half-width of a notched square, the radius
  of a polygon with bridges, the number of grid divisions) away from zero. A spiral arm
  path of three or more samples is not a path of the language: it holds C commands.
\<close>

theorem builder_paths_in_language:
  "(pointInRange p \<longrightarrow>
      (\<exists>t. moveTo b p = b @ [t] \<and> moveToken (px p) (py p) t)
      \<and> (\<exists>t. lineTo b p = b @ [t] \<and> lineToken (px p) (py p) t))
   \<and> (pointInRange p \<and> inRange r \<longrightarrow>
      (\<exists>t. arcTo b r p largeArc sweep = b @ [t] \<and> arcToken r largeArc sweep (px p) (py p) t))
   \<and> closePath b = b @ [''Z'']
   \<and> (list_all isPathToken b \<longrightarrow> inPathLanguage (build b))
   \<and> (circleInRange center radius \<longrightarrow> inPathLanguage (circleToPath center radius))
   \<and> (circleInRange center radius \<and> cutsInRange radius cutWidth \<longrightarrow>
        inPathLanguage (generateRingWithCuts center radius cutCount cutWidth rotation))
   \<and> (ringPatternInRange config \<longrightarrow>
        (\<forall>ring \<in> set (pat_rings (generateRingPattern config)). inPathLanguage (ring_pathData ring))
        \<and> (\<forall>boundary. pat_outerBoundary (generateRingPattern config) = Some boundary \<longrightarrow>
              inPathLanguage boundary))
   \<and> (halfRingsInRange center radii bridgeWidth \<longrightarrow>
        (\<forall>path \<in> set (generateHalfCircleRings center radii bridgeWidth topHalf).
           inPathLanguage path))
   \<and> (circleInRange center innerRadius \<and> inRange radius \<longrightarrow>
        (\<forall>path \<in> set (generateBridgeConnectors center innerRadius radius count startAngle).
           inPathLanguage path))
   \<and> (circleInRange center sz \<longrightarrow> inPathLanguage (generateSquare center sz rotationDeg clockwise))
   \<and> (notchedSquareInRange center sz notchWidth \<longrightarrow>
        inPathLanguage
          (generateSquareWithNotches center sz rotationDeg clockwise notchesPerSide notchWidth))
   \<and> (circleInRange center radius \<longrightarrow>
        (\<forall>s. generatePolygon center radius sides rotationDeg = Inr s \<longrightarrow> inPathLanguage s))
   \<and> (bridgedPolygonInRange center radius sides bridgeWidth \<longrightarrow>
        inPathLanguage
          (generatePolygonWithBridges center radius sides rotationDeg bridgeCount bridgeWidth))
   \<and> (3 \<le> length (spiralPoints center innerRadius radius startAngle turns spiralType growthFactor)
        \<longrightarrow> \<not> inPathLanguage
              (generateSpiralArm center innerRadius radius startAngle turns spiralType growthFactor))"
proof -
  have c1: "pointInRange p \<longrightarrow>
      (\<exists>t. moveTo b p = b @ [t] \<and> moveToken (px p) (py p) t)
      \<and> (\<exists>t. lineTo b p = b @ [t] \<and> lineToken (px p) (py p) t)"
    using moveTo_moveToken lineTo_lineToken by blast
  have c2: "pointInRange p \<and> inRange r \<longrightarrow>
      (\<exists>t. arcTo b r p largeArc sweep = b @ [t] \<and> arcToken r largeArc sweep (px p) (py p) t)"
    using arcTo_arcToken by blast
  have c3: "closePath b = b @ [''Z'']" by (simp add: closePath_def)
  have c4: "list_all isPathToken b \<longrightarrow> inPathLanguage (build b)"
    using tokens_inPathLanguage by blast
  have c5: "circleInRange center radius \<longrightarrow> inPathLanguage (circleToPath center radius)"
    using circleToPath_inPathLanguage by blast
  have c6: "circleInRange center radius \<and> cutsInRange radius cutWidth \<longrightarrow>
        inPathLanguage (generateRingWithCuts center radius cutCount cutWidth rotation)"
    using generateRingWithCuts_inPathLanguage by blast
  have c7: "ringPatternInRange config \<longrightarrow>
        (\<forall>ring \<in> set (pat_rings (generateRingPattern config)). inPathLanguage (ring_pathData ring))
        \<and> (\<forall>boundary. pat_outerBoundary (generateRingPattern config) = Some boundary \<longrightarrow>
              inPathLanguage boundary)"
    using generateRingPattern_inPathLanguage outerBoundary_inPathLanguage by blast
  have c8: "halfRingsInRange center radii bridgeWidth \<longrightarrow>
        (\<forall>path \<in> set (generateHalfCircleRings center radii bridgeWidth topHalf).
           inPathLanguage path)"
    using generateHalfCircleRings_inPathLanguage by blast
  have c9: "circleInRange center innerRadius \<and> inRange radius \<longrightarrow>
        (\<forall>path \<in> set (generateBridgeConnectors center innerRadius radius count startAngle).
           inPathLanguage path)"
    using generateBridgeConnectors_inPathLanguage by blast
  have c10: "circleInRange center sz \<longrightarrow>
      inPathLanguage (generateSquare center sz rotationDeg clockwise)"
    using generateSquare_inPathLanguage by blast
  have c11: "notchedSquareInRange center sz notchWidth \<longrightarrow>
        inPathLanguage
          (generateSquareWithNotches center sz rotationDeg clockwise notchesPerSide notchWidth)"
    using generateSquareWithNotches_inPathLanguage by blast
  have c12: "circleInRange center radius \<longrightarrow>
        (\<forall>s. generatePolygon center radius sides rotationDeg = Inr s \<longrightarrow> inPathLanguage s)"
    using generatePolygon_inPathLanguage by blast
  have c13: "bridgedPolygonInRange center radius sides bridgeWidth \<longrightarrow>
        inPathLanguage
          (generatePolygonWithBridges center radius sides rotationDeg bridgeCount bridgeWidth)"
    using generatePolygonWithBridges_inPathLanguage by blast
  have c14: "3 \<le> length (spiralPoints center innerRadius radius startAngle turns spiralType growthFactor)
        \<longrightarrow> \<not> inPathLanguage
              (generateSpiralArm center innerRadius radius startAngle turns spiralType growthFactor)"
    unfolding generateSpiralArm_def using spline_not_inPathLanguage by blast
  show ?thesis
    by (intro conjI) (rule c1 c2 c3 c4 c5 c6 c7 c8 c9 c10 c11 c12 c13 c14)+
qed

theorem builder_paths_in_language_witness:
  "pointInRange \<lparr>px = 100, py = 100\<rparr> \<and> inRange 50
   \<and> circleInRange \<lparr>px = 100, py = 100\<rparr> 50 \<and> cutsInRange 50 5
   \<and> ringPatternInRange twoRingsFourCuts
   \<and> halfRingsInRange \<lparr>px = 100, py = 100\<rparr> [50] 8
   \<and> circleInRange \<lparr>px = 100, py = 100\<rparr> 10
   \<and> notchedSquareInRange \<lparr>px = 100, py = 100\<rparr> 50 8
   \<and> bridgedPolygonInRange \<lparr>px = 100, py = 100\<rparr> 50 6 8
   \<and> (\<exists>t. moveTo [] \<lparr>px = 100, py = 100\<rparr> = [] @ [t] \<and> moveToken 100 100 t)
   \<and> (\<exists>t. arcTo [] 50 \<lparr>px = 100, py = 100\<rparr> True True = [] @ [t]
          \<and> arcToken 50 True True 100 100 t)
   \<and> inPathLanguage (circleToPath \<lparr>px = 100, py = 100\<rparr> 50)
   \<and> inPathLanguage (generateRingWithCuts \<lparr>px = 100, py = 100\<rparr> 50 8 5 0)
   \<and> inPathLanguage (ring_pathData (pat_rings (generateRingPattern twoRingsFourCuts) ! 1))
   \<and> inPathLanguage (hd (generateHalfCircleRings \<lparr>px = 100, py = 100\<rparr> [50] 8 True))
   \<and> inPathLanguage (generateSquare \<lparr>px = 100, py = 100\<rparr> 50 0 True)
   \<and> inPathLanguage (generateSquareWithNotches \<lparr>px = 100, py = 100\<rparr> 50 0 True 2 8)
   \<and> inPathLanguage (generatePolygonWithBridges \<lparr>px = 100, py = 100\<rparr> 50 6 0 6 8)
   \<and> \<not> inPathLanguage (generateSpiralArm \<lparr>px = 100, py = 100\<rparr> 10 50 0 3 Logarithmic 0.2)"
proof -
  have len: "length (pat_rings (generateRingPattern twoRingsFourCuts)) = 2"
    by (simp add: generateRingPattern_lengths twoRingsFourCuts_radii)
  then have m: "pat_rings (generateRingPattern twoRingsFourCuts) ! 1
      \<in> set (pat_rings (generateRingPattern twoRingsFourCuts))"
    by (intro nth_mem) simp
  have hm: "hd (generateHalfCircleRings \<lparr>px = 100, py = 100\<rparr> [50] 8 True)
      \<in> set (generateHalfCircleRings \<lparr>px = 100, py = 100\<rparr> [50] 8 True)"
    by (simp add: generateHalfCircleRings_def)
  have sp: "3 \<le> length (spiralPoints \<lparr>px = 100, py = 100\<rparr> 10 50 0 3 Logarithmic 0.2)"
    by (simp add: spiralPoints_length)
  have h: "pointInRange \<lparr>px = 100, py = 100\<rparr>" "inRange 50"
    "circleInRange \<lparr>px = 100, py = 100\<rparr> 50" "cutsInRange 50 5"
    "halfRingsInRange \<lparr>px = 100, py = 100\<rparr> [50] 8"
    "circleInRange \<lparr>px = 100, py = 100\<rparr> 10"
    "notchedSquareInRange \<lparr>px = 100, py = 100\<rparr> 50 8"
    "bridgedPolygonInRange \<lparr>px = 100, py = 100\<rparr> 50 6 8"
    by (simp_all add: pointInRange_def inRange_def circleInRange_def cutsInRange_def
        halfRingsInRange_def notchedSquareInRange_def bridgedPolygonInRange_def awayFromZero_def)
  note t = builder_paths_in_language [where p = "\<lparr>px = 100, py = 100\<rparr>" and b = "[]"
      and r = 50 and largeArc = True and sweep = True
      and center = "\<lparr>px = 100, py = 100\<rparr>"
      and radius = 50 and cutCount = 8 and cutWidth = 5 and rotation = 0
      and config = twoRingsFourCuts and radii = "[50]" and topHalf = True
      and sz = 50 and rotationDeg = 0 and clockwise = True
      and notchesPerSide = 2 and notchWidth = 8 and sides = 6 and bridgeCount = 6
      and bridgeWidth = 8 and innerRadius = 10 and startAngle = 0 and turns = 3
      and spiralType = Logarithmic and growthFactor = "0.2"]
  from t h have a1: "\<exists>t. moveTo [] \<lparr>px = 100, py = 100\<rparr> = [] @ [t] \<and> moveToken 100 100 t"
    by simp
  from t h have a2: "\<exists>t. arcTo [] 50 \<lparr>px = 100, py = 100\<rparr> True True = [] @ [t]
          \<and> arcToken 50 True True 100 100 t" by simp
  from t h have a3: "inPathLanguage (circleToPath \<lparr>px = 100, py = 100\<rparr> 50)" by blast
  from t h have a4: "inPathLanguage (generateRingWithCuts \<lparr>px = 100, py = 100\<rparr> 50 8 5 0)"
    by blast
  from t twoRingsFourCuts_inRange m have a5:
    "inPathLanguage (ring_pathData (pat_rings (generateRingPattern twoRingsFourCuts) ! 1))"
    by blast
  from t h hm have a6:
    "inPathLanguage (hd (generateHalfCircleRings \<lparr>px = 100, py = 100\<rparr> [50] 8 True))"
    by blast
  from t h have a7: "inPathLanguage (generateSquare \<lparr>px = 100, py = 100\<rparr> 50 0 True)"
    by blast
  from t h have a8:
    "inPathLanguage (generateSquareWithNotches \<lparr>px = 100, py = 100\<rparr> 50 0 True 2 8)"
    by blast
  from t h have a9:
    "inPathLanguage (generatePolygonWithBridges \<lparr>px = 100, py = 100\<rparr> 50 6 0 6 8)"
    by blast
  from t sp have a10:
    "\<not> inPathLanguage (generateSpiralArm \<lparr>px = 100, py = 100\<rparr> 10 50 0 3 Logarithmic 0.2)"
    by blast
  from h twoRingsFourCuts_inRange a1 a2 a3 a4 a5 a6 a7 a8 a9 a10 show ?thesis by blast
qed

text \<open>
  A spiral arm of three samples holds cubic commands, which the path language does not
  have.
\<close>

theorem spiral_path_not_in_builder_language:
  "\<not> inPathLanguage (generateSpiralArm \<lparr>px = 0, py = 0\<rparr> 10 360 0 (1 / 16) Archimedean 0.2)"
proof -
  have "length (spiralPoints \<lparr>px = 0, py = 0\<rparr> 10 360 0 (1 / 16) Archimedean 0.2) = 3"
    by (simp add: spiralPoints_length)
  then have "3 \<le> length (spiralPoints \<lparr>px = 0, py = 0\<rparr> 10 360 0 (1 / 16) Archimedean 0.2)"
    by simp
  then show ?thesis unfolding generateSpiralArm_def by (rule spline_not_inPathLanguage)
qed

subsection \<open>Square generator\<close>

lemma sqrt_400: "sqrt 400 = 20"
  using real_sqrt_unique [of 20 400] by simp

lemma getSquareCorners_axis:
  "getSquareCorners \<lparr>px = 0, py = 0\<rparr> 10 0
     = [\<lparr>px = -10, py = -10\<rparr>, \<lparr>px = 10, py = -10\<rparr>, \<lparr>px = 10, py = 10\<rparr>,
        \<lparr>px = -10, py = 10\<rparr>]"
  by (simp add: getSquareCorners_def degToRad_def)

text \<open>
  Claim C7. For every configuration with notchesPerSide > 0, generateSquareWithNotches is
  to return an open polyline that starts and ends at the midpoint of the first side, with
  notchesPerSide notch gaps along each full side and floor(notchesPerSide / 2) notch gaps
  along the final partial segment, which closes the loop back to the start midpoint.
  The code departs from it: a square of half-width 10 around the origin with one notch per
  side and notch width 2, drawn clockwise, starts at the midpoint (0, -10) of the top side
  and ends at the top-left corner (-10, -10). Its last command is the line to that corner;
  no command returns to the start midpoint.
\<close>

theorem notched_square_stops_at_corner:
  "generateSquareWithNotches \<lparr>px = 0, py = 0\<rparr> 10 0 True 1 2
     = ''M0,-10 L10,-10 L10,-1 M10,1 L10,10 L1,10 M-1,10 L-10,10 L-10,1 M-10,-1 L-10,-10''
   \<and> interpolate (getSquareCorners \<lparr>px = 0, py = 0\<rparr> 10 0 ! 0)
         (getSquareCorners \<lparr>px = 0, py = 0\<rparr> 10 0 ! 1) 0.5 = \<lparr>px = 0, py = -10\<rparr>"
  by (simp add: generateSquareWithNotches_def squareWithNotchesCommands_def
      getSquareCorners_axis sqrt_400 evaluate_path)

text \<open>
  A side gets one line and one move command per notch, whatever the notch width.
\<close>

lemma drawSideWithNotches_length:
  "length (drawSideWithNotches b start endPoint notchCount notchHalf segmentLength)
     = length b + 2 * nat notchCount"
proof -
  have "length (foldl (notchStep start endPoint notchCount notchHalf ux uy) b xs)
          = length b + 2 * length xs" for ux uy xs
    by (induction xs arbitrary: b) (simp_all add: notchStep_def Let_def moveTo_def lineTo_def)
  then show ?thesis
    by (simp add: drawSideWithNotches_def Let_def)
qed

lemma notchStep_last:
  "\<exists>x y. notchStep start endPoint notchCount notchHalf ux uy b i
            = lineTo b \<lparr>px = px (interpolate start endPoint (real i / real_of_int (notchCount + 1)))
                              - ux * notchHalf,
                          py = py (interpolate start endPoint (real i / real_of_int (notchCount + 1)))
                              - uy * notchHalf\<rparr>
                @ [renderToken (MoveTok x y)]"
  unfolding notchStep_def Let_def moveTo_token by (intro exI) (rule refl)

lemma drawSideWithNotches_last_move:
  assumes "1 \<le> notchCount"
  shows "\<exists>x y. last (drawSideWithNotches b start endPoint notchCount notchHalf segmentLength)
           = renderToken (MoveTok x y)"
proof -
  from assms obtain k where k: "nat notchCount = Suc k" by (cases "nat notchCount") auto
  have up: "[1..<nat notchCount + 1] = [1..<Suc k] @ [Suc k]"
    unfolding k by simp
  define ux where "ux = (px endPoint - px start)
      / sqrt ((px endPoint - px start) * (px endPoint - px start)
              + (py endPoint - py start) * (py endPoint - py start))"
  define uy where "uy = (py endPoint - py start)
      / sqrt ((px endPoint - px start) * (px endPoint - px start)
              + (py endPoint - py start) * (py endPoint - py start))"
  define b' where "b' = foldl (notchStep start endPoint notchCount notchHalf ux uy) b [1..<Suc k]"
  have "drawSideWithNotches b start endPoint notchCount notchHalf segmentLength
          = notchStep start endPoint notchCount notchHalf ux uy b' (Suc k)"
    using assms unfolding drawSideWithNotches_def Let_def up foldl_append b'_def ux_def uy_def
    by simp
  moreover obtain x y c where
    "notchStep start endPoint notchCount notchHalf ux uy b' (Suc k) = c @ [renderToken (MoveTok x y)]"
    using notchStep_last by blast
  ultimately have "last (drawSideWithNotches b start endPoint notchCount notchHalf segmentLength)
      = renderToken (MoveTok x y)" by simp
  then show ?thesis by blast
qed

lemma squareWithNotchesCommands_final:
  "\<exists>b7 e. squareWithNotchesCommands center sz rotationDeg clockwise notchesPerSide notchWidth
     = drawSideWithNotches (lineTo b7 (getSquareCorners center sz rotationDeg ! 0))
         (getSquareCorners center sz rotationDeg ! 0) e (notchesPerSide div 2) (notchWidth / 2)
         (sz * 2 / real_of_int (notchesPerSide + 1))"
proof (cases clockwise)
  case True
  show ?thesis
    unfolding squareWithNotchesCommands_def Let_def if_P [OF True]
    by (intro exI) (rule refl)
next
  case False
  show ?thesis
    unfolding squareWithNotchesCommands_def Let_def if_not_P [OF False]
    by (intro exI) (rule refl)
qed

text \<open>
  For every square with notches the last command is the line to the first corner (one
  notch per side) or a move to just after the last notch of the final partial segment
  (two or more): the stretch from there to the start midpoint is never drawn.
\<close>

lemma squareWithNotchesCommands_last:
  assumes "1 \<le> notchesPerSide"
  shows "let cmds = squareWithNotchesCommands center sz rotationDeg clockwise notchesPerSide
                      notchWidth;
             corners = getSquareCorners center sz rotationDeg
         in (notchesPerSide = 1 \<longrightarrow>
               last cmds = renderToken (LineTok (px (corners ! 0)) (py (corners ! 0))))
          \<and> (2 \<le> notchesPerSide \<longrightarrow> (\<exists>x y. last cmds = renderToken (MoveTok x y)))"
proof -
  obtain b7 e where f:
    "squareWithNotchesCommands center sz rotationDeg clockwise notchesPerSide notchWidth
     = drawSideWithNotches (lineTo b7 (getSquareCorners center sz rotationDeg ! 0))
         (getSquareCorners center sz rotationDeg ! 0) e (notchesPerSide div 2) (notchWidth / 2)
         (sz * 2 / real_of_int (notchesPerSide + 1))"
    using squareWithNotchesCommands_final by blast
  have one: "last (squareWithNotchesCommands center sz rotationDeg clockwise notchesPerSide notchWidth)
      = renderToken (LineTok (px (getSquareCorners center sz rotationDeg ! 0))
          (py (getSquareCorners center sz rotationDeg ! 0)))" if "notchesPerSide = 1"
    unfolding f using that by (simp add: drawSideWithNotches_def lineTo_token)
  have two: "\<exists>x y. last (squareWithNotchesCommands center sz rotationDeg clockwise notchesPerSide
      notchWidth) = renderToken (MoveTok x y)" if "2 \<le> notchesPerSide"
    unfolding f by (rule drawSideWithNotches_last_move) (use that in simp)
  show ?thesis unfolding Let_def using one two by blast
qed

subsection \<open>Degenerate cuts, bridges and notches\<close>

lemma edgePaths_whole:
  "edgePaths v w 0 gap = [build (lineTo (moveTo newPathBuilder v) w)]"
  by (simp add: edgePaths_def)

lemma edgePaths_omitted:
  assumes b: "1 \<le> bridgesPerEdge" and e: "0 < distance v w"
    and g: "distance v w / real_of_int (bridgesPerEdge + 1) \<le> gap"
  shows "edgePaths v w bridgesPerEdge gap = []"
proof -
  define el where "el = distance v w"
  define s where "s = el / real_of_int (bridgesPerEdge + 1)"
  have n: "0 < real_of_int (bridgesPerEdge + 1)" using b by simp
  have spos: "0 < s" using e n by (simp add: s_def el_def)
  have sg: "s \<le> gap" using g by (simp add: s_def el_def)
  have whole: "real_of_int (bridgesPerEdge + 1) * s = el" using n by (simp add: s_def)
  have none: "\<not> (if j = 0 then 0 else (real j * s + gap) / el)
              < (if int j = bridgesPerEdge then 1 else (real (j + 1) * s - gap) / el)"
    if "j < nat (bridgesPerEdge + 1)" for j
  proof -
    consider "j = 0" | "int j = bridgesPerEdge" "j \<noteq> 0" | "j \<noteq> 0" "int j \<noteq> bridgesPerEdge"
      by blast
    then show ?thesis
    proof cases
      case 1
      then have "int j \<noteq> bridgesPerEdge" using b by simp
      moreover have "(real (0 + 1) * s - gap) / el \<le> 0"
        using sg e by (simp add: el_def divide_nonpos_pos)
      ultimately show ?thesis using 1 by simp
    next
      case 2
      have "real_of_int bridgesPerEdge = real j" using 2(1) [symmetric] by simp
      then have "real j * s + s = el" using whole by (simp add: algebra_simps)
      then have "el \<le> real j * s + gap" using sg by linarith
      then have "1 \<le> (real j * s + gap) / el" using e by (simp add: el_def)
      then show ?thesis using 2 by simp
    next
      case 3
      have "real (j + 1) * s - gap \<le> real j * s + gap"
        using sg spos by (simp add: algebra_simps)
      then have "(real (j + 1) * s - gap) / el \<le> (real j * s + gap) / el"
        using e by (simp add: el_def divide_right_mono)
      then show ?thesis using 3 by simp
    qed
  qed
  have "bridgesPerEdge \<noteq> 0" using b by simp
  then show ?thesis
    unfolding edgePaths_def Let_def el_def [symmetric] s_def [symmetric]
    using none by simp
qed

text \<open>
  Claim C8 (as amended). Ring cuts: when the arc angle 2 * pi / cutCount - cutWidth /
  radius is not positive, the ring is drawn as the full circle. Polygon bridges: an edge
  with no bridge is drawn whole; with bridges, a sub-segment is drawn only where its
  start lies before its end, and when the half bridge width meets or exceeds the
  sub-segment length every sub-segment of the edge is left out, so the edge contributes no
  path (it is not drawn whole). Square notches: there is no check; a side gets one line
  and one move command per notch whatever the notch width. Radius and edge length are taken
  non-zero where the source divides by them.
\<close>

theorem degenerate_cuts_bridges_notches:
  "(0 < cutCount \<and> radius \<noteq> 0 \<and> 2 * pi / real_of_int cutCount - cutWidth / radius \<le> 0 \<longrightarrow>
      generateRingWithCuts center radius cutCount cutWidth rotation = circleToPath center radius)
   \<and> edgePaths v w 0 gap = [build (lineTo (moveTo newPathBuilder v) w)]
   \<and> (1 \<le> bridgesPerEdge \<and> 0 < distance v w
        \<and> distance v w / real_of_int (bridgesPerEdge + 1) \<le> gap \<longrightarrow>
      edgePaths v w bridgesPerEdge gap = [])
   \<and> length (drawSideWithNotches b start endPoint notchCount notchHalf segmentLength)
       = length b + 2 * nat notchCount"
  using generateRingWithCuts_circle [of cutCount cutWidth radius center rotation]
    edgePaths_whole [of v w gap] edgePaths_omitted [of bridgesPerEdge v w gap]
    drawSideWithNotches_length [of b start endPoint notchCount notchHalf segmentLength]
  by blast

lemma sqrt_100: "sqrt 100 = 10"
  using real_sqrt_unique [of 10 100] by simp

theorem degenerate_cuts_bridges_notches_witness:
  "generateRingWithCuts \<lparr>px = 0, py = 0\<rparr> 1 4 8 0 = circleToPath \<lparr>px = 0, py = 0\<rparr> 1
   \<and> edgePaths \<lparr>px = 0, py = 0\<rparr> \<lparr>px = 10, py = 0\<rparr> 1 5 = []
   \<and> length (drawSideWithNotches [] \<lparr>px = 0, py = 0\<rparr> \<lparr>px = 10, py = 0\<rparr> 2 50 5) = 4"
proof -
  have r: "(0::int) < 4 \<and> (1::real) \<noteq> 0 \<and> 2 * pi / real_of_int 4 - 8 / 1 \<le> 0"
    using pi_less_4 by simp
  have d: "distance \<lparr>px = 0, py = 0\<rparr> \<lparr>px = 10, py = 0\<rparr> = 10"
    by (simp add: distance_def sqrt_100)
  have e: "(1::int) \<le> 1 \<and> 0 < distance \<lparr>px = 0, py = 0\<rparr> \<lparr>px = 10, py = 0\<rparr>
      \<and> distance \<lparr>px = 0, py = 0\<rparr> \<lparr>px = 10, py = 0\<rparr> / real_of_int (1 + 1) \<le> 5"
    by (simp add: d)
  note t = degenerate_cuts_bridges_notches [where cutCount = 4 and radius = 1 and cutWidth = 8
      and center = "\<lparr>px = 0, py = 0\<rparr>" and rotation = 0 and v = "\<lparr>px = 0, py = 0\<rparr>"
      and w = "\<lparr>px = 10, py = 0\<rparr>" and bridgesPerEdge = 1 and gap = 5 and b = "[]"
      and start = "\<lparr>px = 0, py = 0\<rparr>" and endPoint = "\<lparr>px = 10, py = 0\<rparr>"
      and notchCount = 2 and notchHalf = 50 and segmentLength = 5]
  from t r have a: "generateRingWithCuts \<lparr>px = 0, py = 0\<rparr> 1 4 8 0 = circleToPath \<lparr>px = 0, py = 0\<rparr> 1"
    by blast
  from t e have b: "edgePaths \<lparr>px = 0, py = 0\<rparr> \<lparr>px = 10, py = 0\<rparr> 1 5 = []"
    by blast
  from t have c: "length (drawSideWithNotches [] \<lparr>px = 0, py = 0\<rparr> \<lparr>px = 10, py = 0\<rparr> 2 50 5) = 4"
    by simp
  from a b c show ?thesis by blast
qed

lemma getPolygonVertices_diamond:
  "getPolygonVertices \<lparr>px = 0, py = 0\<rparr> 100 4 0
     = [\<lparr>px = 0, py = -100\<rparr>, \<lparr>px = 100, py = 0\<rparr>, \<lparr>px = 0, py = 100\<rparr>,
        \<lparr>px = -100, py = 0\<rparr>]"
proof -
  have u: "[0..<nat 4] = [0, 1, 2, 3]" by (simp add: upt_rec)
  have a: "- (pi / 2) + 2 * pi / 4 = 0" "- (pi / 2) + 2 * (2 * pi / 4) = pi / 2"
    "- (pi / 2) + 3 * (2 * pi / 4) = pi" by simp_all
  show ?thesis
    unfolding getPolygonVertices_def Let_def u
    by (simp add: pointOnCircle_def degToRad_def a)
qed

lemma diamond_edge_omitted:
  assumes "distance v w = sqrt 20000"
  shows "edgePaths v w 1 500 = []"
proof (rule edgePaths_omitted)
  show "(1::int) \<le> 1" by simp
  show "0 < distance v w" unfolding assms by simp
  have "sqrt 20000 \<le> 1000" by (rule real_le_lsqrt) simp_all
  then show "distance v w / real_of_int (1 + 1) \<le> 500" unfolding assms by simp
qed

text \<open>
  A polygon of 4 sides and radius 100 with one bridge of width 1000 per edge has no
  path at all, where the same polygon without bridges has its four edges.
\<close>

theorem degenerate_bridges_drop_the_edge:
  "generatePolygonWithBridges \<lparr>px = 0, py = 0\<rparr> 100 4 0 4 1000 = ''''
   \<and> generatePolygonWithBridges \<lparr>px = 0, py = 0\<rparr> 100 4 0 0 1000
       = ''M0,-100 L100,0 M100,0 L0,100 M0,100 L-100,0 M-100,0 L0,-100''"
proof -
  have u: "[0..<nat 4] = [0, 1, 2, 3]" by (simp add: upt_rec)
  have e: "edgePaths \<lparr>px = 0, py = -100\<rparr> \<lparr>px = 100, py = 0\<rparr> 1 500 = []"
    "edgePaths \<lparr>px = 100, py = 0\<rparr> \<lparr>px = 0, py = 100\<rparr> 1 500 = []"
    "edgePaths \<lparr>px = 0, py = 100\<rparr> \<lparr>px = -100, py = 0\<rparr> 1 500 = []"
    "edgePaths \<lparr>px = -100, py = 0\<rparr> \<lparr>px = 0, py = -100\<rparr> 1 500 = []"
    by (rule diamond_edge_omitted, simp add: distance_def)+
  have first: "generatePolygonWithBridges \<lparr>px = 0, py = 0\<rparr> 100 4 0 4 1000 = ''''"
    unfolding generatePolygonWithBridges_def Let_def getPolygonVertices_diamond u
    by (simp add: e)
  have second: "generatePolygonWithBridges \<lparr>px = 0, py = 0\<rparr> 100 4 0 0 1000
       = ''M0,-100 L100,0 M100,0 L0,100 M0,100 L-100,0 M-100,0 L0,-100''"
    unfolding generatePolygonWithBridges_def Let_def getPolygonVertices_diamond u
    by (simp add: edgePaths_whole evaluate_path)
  from first second show ?thesis by blast
qed

end
